(* ===== verification/Prelude.thy ===== *)
theory Prelude
  imports
    Main
    "HOL-Library.Word"
    "HOL-Library.AList"
    "HOL-Library.Char_ord"
    "HOL-Library.List_Lexorder"
begin

text \<open>
  What the components of the development share: the outcome of a Go call (a value, an
  error return or a panic), Go's fixed-width integer arithmetic, slices with the run-time
  bounds check, log lines, the decimal printing of \<^verbatim>\<open>%d\<close> and \<^verbatim>\<open>%v\<close>, and the
  unbounded \<^verbatim>\<open>for\<close> loop with its total-correctness rule.

  A Go \<^verbatim>\<open>int\<close>, \<^verbatim>\<open>int64\<close> or \<^verbatim>\<open>time.Duration\<close> is an \<open>int\<close> here; every operation that can
  leave the 64-bit range wraps through \<open>i64\<close>. A \<^verbatim>\<open>uint\<close> or \<^verbatim>\<open>uint64\<close> is a \<open>64 word\<close>.
\<close>

section \<open>Automation shared by the components\<close>

named_theorems go_simps \<open>rewriting of outcomes, slices and lookups\<close>
named_theorems go_range \<open>facts about values that stay inside the 64-bit range\<close>

section \<open>Outcomes: values, errors, panics\<close>

text \<open>
  The error values of the source. \<open>ECanceled\<close> and \<open>EDeadlineExceeded\<close> are the sentinels
  \<^verbatim>\<open>context.Canceled\<close> and \<^verbatim>\<open>context.DeadlineExceeded\<close>, which the code compares with
  \<^verbatim>\<open>==\<close>; \<open>EText\<close> is an error made with \<^verbatim>\<open>errors.New\<close>, \<^verbatim>\<open>fmt.Errorf\<close> or \<^verbatim>\<open>eris.New\<close>;
  \<open>EWrap\<close> is \<^verbatim>\<open>fmt.Errorf("...: %w", err)\<close>; \<open>EExt\<close> is an error a library returned.
  Two values of \<open>gpanic\<close> are not panics: \<open>FatalUnlock\<close> is the fatal error of unlocking an
  unlocked mutex, and \<open>Blocked\<close> is a call that never returns in the run under consideration.
\<close>

datatype gerror =
    EText string
  | EWrap string gerror
  | ECanceled
  | EDeadlineExceeded
  | EExt string

datatype gpanic =
    IndexOutOfRange
  | DivideByZero
  | NilDereference
  | TypeAssertion
  | NegativeWaitGroup
  | NegativeLength
  | InvalidArgument
  | InvalidStatusCode int
  | UserPanic string
  | FatalUnlock
  | Blocked

datatype 'a outcome = Ret 'a | Err gerror | Panic gpanic

fun obind :: "'a outcome \<Rightarrow> ('a \<Rightarrow> 'b outcome) \<Rightarrow> 'b outcome" where
  "obind (Ret x) f = f x"
| "obind (Err e) f = Err e"
| "obind (Panic p) f = Panic p"

fun is_panic :: "'a outcome \<Rightarrow> bool" where
  "is_panic (Panic p) = True"
| "is_panic _ = False"

fun is_ret :: "'a outcome \<Rightarrow> bool" where
  "is_ret (Ret x) = True"
| "is_ret _ = False"

lemma obind_eq_Ret [go_simps]: "obind m f = Ret y \<longleftrightarrow> (\<exists>x. m = Ret x \<and> f x = Ret y)"
  by (cases m) auto

lemma obind_eq_Err [go_simps]:
  "obind m f = Err e \<longleftrightarrow> m = Err e \<or> (\<exists>x. m = Ret x \<and> f x = Err e)"
  by (cases m) auto

lemma obind_eq_Panic [go_simps]:
  "obind m f = Panic p \<longleftrightarrow> m = Panic p \<or> (\<exists>x. m = Ret x \<and> f x = Panic p)"
  by (cases m) auto

lemma obind_assoc [simp]: "obind (obind m f) g = obind m (\<lambda>x. obind (f x) g)"
  by (cases m) auto

lemma obind_Ret [simp]: "obind m Ret = m"
  by (cases m) auto

lemma obind_cong [fundef_cong]:
  "m = m' \<Longrightarrow> (\<And>x. m' = Ret x \<Longrightarrow> f x = f' x) \<Longrightarrow> obind m f = obind m' f'"
  by (cases m) auto

lemma is_ret_iff: "is_ret m \<longleftrightarrow> (\<exists>x. m = Ret x)"
  by (cases m) auto

section \<open>64-bit integers\<close>

definition i64 :: "int \<Rightarrow> int" where
  "i64 x = (x + 9223372036854775808) mod 18446744073709551616 - 9223372036854775808"

definition is_i64 :: "int \<Rightarrow> bool" where
  "is_i64 x \<longleftrightarrow> - 9223372036854775808 \<le> x \<and> x < 9223372036854775808"

lemma is_i64_i64 [simp, intro]: "is_i64 (i64 x)"
  by (simp add: is_i64_def i64_def)

lemma i64_id [simp]: "is_i64 x \<Longrightarrow> i64 x = x"
  by (simp add: is_i64_def i64_def)

lemma i64_bounds: "- 9223372036854775808 \<le> i64 x" "i64 x < 9223372036854775808"
  using is_i64_i64[of x] by (auto simp: is_i64_def)

lemma i64_eq_iff: "i64 x = x \<longleftrightarrow> is_i64 x"
  by (metis i64_id is_i64_i64)

lemma is_i64I [go_range]:
  "- 9223372036854775808 \<le> x \<Longrightarrow> x < 9223372036854775808 \<Longrightarrow> is_i64 x"
  by (simp add: is_i64_def)

lemma of_int_i64 [simp]: "(of_int (i64 x) :: 64 word) = of_int x"
proof -
  have "i64 x = x - 18446744073709551616 * ((x + 9223372036854775808) div 18446744073709551616)"
    by (simp add: i64_def minus_mult_div_eq_mod[symmetric])
  moreover have z: "(18446744073709551616 :: 64 word) = 0" by simp
  ultimately show ?thesis
    by (simp only: of_int_diff of_int_mult of_int_numeral z mult_zero_left diff_zero)
qed

text \<open>Go's \<^verbatim>\<open>/\<close> truncates towards zero and panics on a zero divisor; \<^verbatim>\<open>%\<close> has the sign of the dividend.\<close>

definition go_div :: "int \<Rightarrow> int \<Rightarrow> int outcome" where
  "go_div a b = (if b = 0 then Panic DivideByZero else Ret (i64 (sgn a * sgn b * (\<bar>a\<bar> div \<bar>b\<bar>))))"

definition go_mod :: "int \<Rightarrow> int \<Rightarrow> int outcome" where
  "go_mod a b = (if b = 0 then Panic DivideByZero else Ret (sgn a * (\<bar>a\<bar> mod \<bar>b\<bar>)))"

lemma go_div_pos [go_simps]: "0 \<le> a \<Longrightarrow> is_i64 a \<Longrightarrow> 0 < b \<Longrightarrow> go_div a b = Ret (a div b)"
proof -
  assume a: "0 \<le> a" "is_i64 a" "0 < b"
  then have "0 \<le> a div b" "a div b \<le> a"
    by (auto simp: pos_imp_zdiv_nonneg_iff intro: order_trans[OF zdiv_mono2[of a 1 b]])
  then have "is_i64 (a div b)"
    using a by (auto simp: is_i64_def)
  then show ?thesis
    using a by (cases "a = 0") (auto simp: go_div_def)
qed

lemma go_mod_pos [go_simps]: "0 \<le> a \<Longrightarrow> 0 < b \<Longrightarrow> go_mod a b = Ret (a mod b)"
  by (cases "a = 0") (auto simp: go_mod_def)

lemma sint_small: "unat (x :: 64 word) < 9223372036854775808 \<Longrightarrow> sint x = int (unat x)"
proof -
  assume "unat x < 9223372036854775808"
  then have "int (unat x) < int 9223372036854775808" by (rule of_nat_less_iff[THEN iffD2])
  then have "int (unat x) < 9223372036854775808" unfolding of_nat_numeral .
  moreover have "(2 :: int) ^ 63 = 9223372036854775808" by simp
  moreover have u: "int (unat x) = uint x" by simp
  ultimately have "uint x < 2 ^ 63" by (simp only: u)
  then have "signed_take_bit 63 (uint x) = uint x"
    by (intro signed_take_bit_int_eq_self) (auto intro: order_trans[of _ 0])
  then show ?thesis unfolding u by (simp add: sint_uint)
qed

section \<open>Slices\<close>

definition idx :: "'a list \<Rightarrow> int \<Rightarrow> 'a outcome" where
  "idx xs i = (if 0 \<le> i \<and> i < int (length xs) then Ret (xs ! nat i) else Panic IndexOutOfRange)"

definition set_idx :: "'a list \<Rightarrow> int \<Rightarrow> 'a \<Rightarrow> 'a list outcome" where
  "set_idx xs i v = (if 0 \<le> i \<and> i < int (length xs) then Ret (xs[nat i := v])
     else Panic IndexOutOfRange)"

lemma idx_int [simp]: "i < length xs \<Longrightarrow> idx xs (int i) = Ret (xs ! i)"
  by (simp add: idx_def)

lemma set_idx_int [simp]: "i < length xs \<Longrightarrow> set_idx xs (int i) v = Ret (xs[i := v])"
  by (simp add: set_idx_def)

lemma idx_Nil [simp]: "idx [] i = Panic IndexOutOfRange"
  by (simp add: idx_def)

lemma idx_cases: "idx xs i = Ret x \<longleftrightarrow> (\<exists>k. i = int k \<and> k < length xs \<and> x = xs ! k)"
  by (auto simp: idx_def split: if_splits intro: exI[of _ "nat i"])

lemma idx_not_Err [simp]: "idx xs i \<noteq> Err e"
  by (simp add: idx_def)

lemma sum_list_update_Suc:
  fixes xs :: "int list"
  shows "k < length xs \<Longrightarrow> sum_list (xs[k := xs ! k + 1]) = sum_list xs + 1"
  by (induction xs arbitrary: k) (auto split: nat.splits)

lemma sum_list_map_update:
  fixes f :: "'a \<Rightarrow> 'b::ab_group_add"
  shows "i < length xs \<Longrightarrow> sum_list (map f (xs[i := x])) = sum_list (map f xs) - f (xs ! i) + f x"
  by (induction xs arbitrary: i) (auto split: nat.splits)

section \<open>Decimal printing\<close>

definition digit_char :: "nat \<Rightarrow> char" where
  "digit_char d = char_of (48 + d)"

fun show_nat :: "nat \<Rightarrow> string" where
  "show_nat n = (if n < 10 then [digit_char n] else show_nat (n div 10) @ [digit_char (n mod 10)])"

declare show_nat.simps [simp del]

definition itoa :: "int \<Rightarrow> string" where
  "itoa i = (if i < 0 then ''-'' @ show_nat (nat (- i)) else show_nat (nat i))"

text \<open>Rules that print a numeral by rewriting.\<close>

named_theorems show_eval \<open>evaluation of printed numbers\<close>

lemma digit_char_eval [show_eval]:
  "digit_char 0 = CHR ''0''" "digit_char (Suc 0) = CHR ''1''" "digit_char 1 = CHR ''1''" "digit_char 2 = CHR ''2''"
  "digit_char 3 = CHR ''3''" "digit_char 4 = CHR ''4''" "digit_char 5 = CHR ''5''" "digit_char 6 = CHR ''6''"
  "digit_char 7 = CHR ''7''" "digit_char 8 = CHR ''8''" "digit_char 9 = CHR ''9''"
  by code_simp+

lemma show_nat_lt [show_eval]: "n < 10 \<Longrightarrow> show_nat n = [digit_char n]"
  by (simp add: show_nat.simps)

lemma show_nat_ge [show_eval]: "10 \<le> n \<Longrightarrow> show_nat n = show_nat (n div 10) @ [digit_char (n mod 10)]"
  by (simp add: show_nat.simps[of n])

lemma show_nat_nonempty [simp]: "show_nat n \<noteq> []"
  by (subst show_nat.simps) simp

section \<open>Splitting\<close>

text \<open>\<^verbatim>\<open>strings.Split\<close> with a one-character separator: never empty.\<close>

fun split_char :: "char \<Rightarrow> string \<Rightarrow> string list" where
  "split_char c [] = [[]]"
| "split_char c (x # xs) =
     (if x = c then [] # split_char c xs
      else (case split_char c xs of [] \<Rightarrow> [[x]] | y # ys \<Rightarrow> (x # y) # ys))"

lemma split_char_nonempty [simp]: "split_char c s \<noteq> []"
  by (induction s) (auto split: list.splits)

lemma split_char_none: "c \<notin> set s \<Longrightarrow> split_char c s = [s]"
  by (induction s) auto

lemma split_char_append: "c \<notin> set a \<Longrightarrow> split_char c (a @ c # b) = a # split_char c b"
  by (induction a) auto

section \<open>Log lines\<close>

text \<open>
  The levels of \<^verbatim>\<open>zap\<close> in their order. The process logger of \<^verbatim>\<open>main\<close> is built with
  \<^verbatim>\<open>zapcore.InfoLevel\<close>, so a line below Info is dropped.
\<close>

datatype level = Debug | Info | Warn | Error | Fatal

fun level_rank :: "level \<Rightarrow> nat" where
  "level_rank Debug = 0"
| "level_rank Info = 1"
| "level_rank Warn = 2"
| "level_rank Error = 3"
| "level_rank Fatal = 4"

lemma level_rank_inj: "level_rank a = level_rank b \<Longrightarrow> a = b"
  by (cases a; cases b) auto

instantiation level :: linorder
begin
definition less_eq_level :: "level \<Rightarrow> level \<Rightarrow> bool" where
  "less_eq_level a b \<longleftrightarrow> level_rank a \<le> level_rank b"
definition less_level :: "level \<Rightarrow> level \<Rightarrow> bool" where
  "less_level a b \<longleftrightarrow> level_rank a < level_rank b"
instance
  by standard (auto simp: less_eq_level_def less_level_def dest: level_rank_inj)
end

type_synonym log = "(level \<times> string) list"

definition core_level :: level where
  "core_level = Info"

definition emit :: "level \<Rightarrow> string \<Rightarrow> log \<Rightarrow> log" where
  "emit l msg lg = (if core_level \<le> l then lg @ [(l, msg)] else lg)"

lemma emit_Debug [simp]: "emit Debug msg lg = lg"
  by (simp add: emit_def core_level_def less_eq_level_def)

lemma emit_visible [simp]: "emit Info msg lg = lg @ [(Info, msg)]"
  "emit Warn msg lg = lg @ [(Warn, msg)]" "emit Error msg lg = lg @ [(Error, msg)]"
  by (simp_all add: emit_def core_level_def less_eq_level_def)

section \<open>Unbounded loops\<close>

text \<open>
  \<^verbatim>\<open>for { ... }\<close>: one pass of the body is a function that either goes round again with a
  new state or leaves the loop with a result. A loop that never leaves is \<open>None\<close>.
\<close>

datatype ('s, 'r) ctl = Continue 's | Stop 'r

partial_function (option) loop :: "('s \<Rightarrow> ('s, 'r) ctl) \<Rightarrow> 's \<Rightarrow> 'r option" where
  "loop body s = (case body s of Continue s' \<Rightarrow> loop body s' | Stop r \<Rightarrow> Some r)"

lemma loop_Continue: "body s = Continue s' \<Longrightarrow> loop body s = loop body s'"
  by (simp add: loop.simps[of body s])

lemma loop_Stop: "body s = Stop r \<Longrightarrow> loop body s = Some r"
  by (simp add: loop.simps[of body s])

text \<open>Total correctness: an invariant, a measure every further pass decreases, and what a leaving pass gives.\<close>

lemma loop_total:
  fixes m :: "'s \<Rightarrow> nat"
  assumes "I s"
    and cont: "\<And>s s'. I s \<Longrightarrow> body s = Continue s' \<Longrightarrow> I s' \<and> m s' < m s"
    and stop: "\<And>s r. I s \<Longrightarrow> body s = Stop r \<Longrightarrow> post r"
  shows "\<exists>r. loop body s = Some r \<and> post r"
  using assms(1)
proof (induction "m s" arbitrary: s rule: less_induct)
  case less
  show ?case
  proof (cases "body s")
    case (Continue s')
    with cont less.prems have "I s'" "m s' < m s" by auto
    with less.hyps[of s'] Continue show ?thesis by (auto simp: loop_Continue)
  next
    case (Stop r)
    with stop less.prems show ?thesis by (auto simp: loop_Stop)
  qed
qed

text \<open>The same for a lexicographic measure: work still to do, then the distance to the next piece of it.\<close>

lemma loop_total_lex:
  fixes m1 m2 :: "'s \<Rightarrow> nat"
  assumes "I s"
    and cont: "\<And>s s'. I s \<Longrightarrow> body s = Continue s' \<Longrightarrow>
      I s' \<and> (m1 s' < m1 s \<or> (m1 s' = m1 s \<and> m2 s' < m2 s))"
    and stop: "\<And>s r. I s \<Longrightarrow> body s = Stop r \<Longrightarrow> post r"
  shows "\<exists>r. loop body s = Some r \<and> post r"
  using assms(1)
proof (induction s rule: wf_induct_rule[OF wf_measures[of "[m1, m2]"]])
  case (1 s)
  show ?case
  proof (cases "body s")
    case (Continue s')
    with cont "1.prems" have "I s'" "(s', s) \<in> measures [m1, m2]" by auto
    with "1.IH"[of s'] Continue show ?thesis by (auto simp: loop_Continue)
  next
    case (Stop r)
    with stop "1.prems" show ?thesis by (auto simp: loop_Stop)
  qed
qed

text \<open>Partial correctness: what every pass keeps holds when the loop is left.\<close>

lemma loop_keeps:
  fixes body :: "'s \<Rightarrow> ('s, 'r) ctl"
  assumes "loop body s = Some r" "P s"
    and "\<And>s. P s \<Longrightarrow> (case body s of Continue s' \<Rightarrow> P s' | Stop r \<Rightarrow> Q r)"
  shows "Q r"
proof -
  have "b = body \<longrightarrow> P s \<longrightarrow> Q r" if "loop b s = Some r" for b s r
  proof (rule loop.raw_induct[where P = "\<lambda>b s r. b = body \<longrightarrow> P s \<longrightarrow> Q r", OF _ that])
    fix lp :: "('s \<Rightarrow> ('s, 'r) ctl) \<Rightarrow> 's \<Rightarrow> 'r option" and b s r
    assume ih: "\<And>b s r. lp b s = Some r \<Longrightarrow> b = body \<longrightarrow> P s \<longrightarrow> Q r"
      and r: "(case b s of Continue s' \<Rightarrow> lp b s' | Stop r \<Rightarrow> Some r) = Some r"
    show "b = body \<longrightarrow> P s \<longrightarrow> Q r"
      using assms(3)[of s] r ih by (cases "b s") auto
  qed
  with assms(1,2) show ?thesis by blast
qed

end
