(* ===== verification/Pattern.thy ===== *)
theory Pattern
  imports Prelude
begin

text \<open>
  \<^verbatim>\<open>pkg/actions/pattern.go\<close>: how often each phase repeats (\<open>PhaseRepeats\<close>) and the three
  phase patterns, each with its \<^verbatim>\<open>NextPhase\<close>, \<^verbatim>\<open>IsComplete\<close> and \<^verbatim>\<open>ShouldAdvancePhase\<close>.
  A phase index is an \<open>int\<close>, with \<open>-1\<close> for ``no more phases'', as in the source. The random
  generator is the sequence of raw draws it will accept and a position in it; \<^verbatim>\<open>Intn(n)\<close>
  reduces the next draw modulo \<open>n\<close>, as \<^verbatim>\<open>math/rand\<close> does with the draws it accepts.

  The interface \<open>pattern_contract\<close> states what the client's loop relies on; it is
  interpreted on each of the three patterns and on the executor that dispatches to them.
\<close>

section \<open>Repeats per phase\<close>

record PhaseRepeats =
  DefaultRepeat :: int
  RepeatMap :: "(int \<times> int) list"

definition MaxRepeatsPerPhase :: int where
  "MaxRepeatsPerPhase = 500"

definition NewPhaseRepeats :: "int \<Rightarrow> PhaseRepeats" where
  "NewPhaseRepeats d = \<lparr>DefaultRepeat = d, RepeatMap = []\<rparr>"

definition GetRepeat :: "PhaseRepeats \<Rightarrow> int \<Rightarrow> int" where
  "GetRepeat pr i = (case map_of (RepeatMap pr) i of Some r \<Rightarrow> r | None \<Rightarrow> DefaultRepeat pr)"

definition SetRepeat :: "PhaseRepeats \<Rightarrow> int \<Rightarrow> int \<Rightarrow> PhaseRepeats" where
  "SetRepeat pr i r = pr\<lparr>RepeatMap := AList.update i r (RepeatMap pr)\<rparr>"

definition GetTotalRepeats :: "PhaseRepeats \<Rightarrow> int \<Rightarrow> int" where
  "GetTotalRepeats pr n =
     (if RepeatMap pr = [] then i64 (DefaultRepeat pr * n)
      else foldl (\<lambda>total i. i64 (total + GetRepeat pr (int i))) 0 [0..<nat n])"

lemma GetRepeat_New [simp]: "GetRepeat (NewPhaseRepeats d) i = d"
  by (simp add: GetRepeat_def NewPhaseRepeats_def)

lemma GetRepeat_Set [simp]: "GetRepeat (SetRepeat pr i r) j = (if j = i then r else GetRepeat pr j)"
  by (simp add: GetRepeat_def SetRepeat_def update_conv' split: option.split)

text \<open>The table the client builds: every phase repeats between once and the maximum.\<close>

definition repeats_ok :: "PhaseRepeats \<Rightarrow> nat \<Rightarrow> bool" where
  "repeats_ok pr n \<longleftrightarrow> n < 2 ^ 48 \<and> (\<forall>i<n. 1 \<le> GetRepeat pr (int i) \<and> GetRepeat pr (int i) \<le> 500)"

lemma sum_repeats_bounds:
  assumes "repeats_ok pr n" "m \<le> n"
  shows "int m \<le> (\<Sum>i<m. GetRepeat pr (int i)) \<and> (\<Sum>i<m. GetRepeat pr (int i)) \<le> 500 * int m"
  using assms(2)
proof (induction m)
  case (Suc m)
  then have "1 \<le> GetRepeat pr (int m)" "GetRepeat pr (int m) \<le> 500"
    using assms(1) by (auto simp: repeats_ok_def)
  with Suc show ?case by simp
qed simp

lemma sum_repeats_i64:
  assumes "repeats_ok pr n" "m \<le> n"
  shows "is_i64 (\<Sum>i<m. GetRepeat pr (int i))"
proof -
  have "int m < 2 ^ 48"
    using assms by (auto simp: repeats_ok_def dest: order.strict_trans1)
  with sum_repeats_bounds[OF assms] show ?thesis
    by (simp add: is_i64_def)
qed

lemma foldl_repeats:
  assumes "repeats_ok pr n" "m \<le> n"
  shows "foldl (\<lambda>total i. i64 (total + GetRepeat pr (int i))) 0 [0..<m] = (\<Sum>i<m. GetRepeat pr (int i))"
  using assms(2)
proof (induction m)
  case (Suc m)
  have "is_i64 (\<Sum>i<Suc m. GetRepeat pr (int i))"
    using sum_repeats_i64[OF assms(1) Suc.prems] .
  then show ?case using Suc by simp
qed simp

lemma GetTotalRepeats_sum:
  assumes "repeats_ok pr n"
  shows "GetTotalRepeats pr (int n) = (\<Sum>i<n. GetRepeat pr (int i))"
proof (cases "RepeatMap pr = []")
  case True
  then have "(\<Sum>i<n. GetRepeat pr (int i)) = DefaultRepeat pr * int n"
    by (simp add: GetRepeat_def)
  with True sum_repeats_i64[OF assms order_refl] show ?thesis
    by (simp add: GetTotalRepeats_def)
next
  case False
  with foldl_repeats[OF assms order_refl] show ?thesis
    by (simp add: GetTotalRepeats_def)
qed

text \<open>
  What the duration calculations rely on in the repeat table: the total is the sum over the
  phases (no overflow), and every phase repeats between once and 500 times.
\<close>

locale repeat_table =
  fixes get :: "'t \<Rightarrow> int \<Rightarrow> int" and total :: "'t \<Rightarrow> int \<Rightarrow> int" and valid :: "'t \<Rightarrow> nat \<Rightarrow> bool"
  assumes total_sum: "valid t n \<Longrightarrow> total t (int n) = (\<Sum>i<n. get t (int i))"
    and get_range: "valid t n \<Longrightarrow> i < n \<Longrightarrow> 1 \<le> get t (int i) \<and> get t (int i) \<le> 500"
begin

lemma total_range:
  assumes "valid t n"
  shows "int n \<le> total t (int n) \<and> total t (int n) \<le> 500 * int n"
proof -
  have "(\<Sum>i<n. (1 :: int)) \<le> (\<Sum>i<n. get t (int i))"
    by (rule sum_mono) (use get_range[OF assms] in auto)
  moreover have "(\<Sum>i<n. get t (int i)) \<le> (\<Sum>i<n. (500 :: int))"
    by (rule sum_mono) (use get_range[OF assms] in auto)
  ultimately show ?thesis by (simp add: total_sum[OF assms])
qed

text \<open>Dividing a budget by the total: all executions together stay within it, to one unit each.\<close>

lemma share_fits:
  assumes "valid t n" "0 < n"
  shows "(\<Sum>i<n. get t (int i) * (budget div total t (int n))) \<le> budget
    \<and> budget < (\<Sum>i<n. get t (int i) * (budget div total t (int n))) + total t (int n)"
proof -
  have t: "0 < total t (int n)" using total_range[OF assms(1)] assms(2) by linarith
  have "(\<Sum>i<n. get t (int i) * (budget div total t (int n))) = total t (int n) * (budget div total t (int n))"
    by (simp add: total_sum[OF assms(1)] sum_distrib_right)
  also have "\<dots> = budget - budget mod total t (int n)" by (rule minus_mod_eq_mult_div[symmetric])
  finally show ?thesis using t by simp
qed

end

interpretation rep: repeat_table GetRepeat GetTotalRepeats repeats_ok
  by unfold_locales (auto simp: GetTotalRepeats_sum repeats_ok_def)

section \<open>The random generator\<close>

record rng =
  draws :: "nat \<Rightarrow> nat"
  pos :: nat

definition Intn :: "rng \<Rightarrow> int \<Rightarrow> (rng \<times> int) outcome" where
  "Intn g n = (if n \<le> 0 then Panic InvalidArgument
     else Ret (g\<lparr>pos := Suc (pos g)\<rparr>, int (draws g (pos g)) mod n))"

section \<open>The patterns\<close>

text \<open>\<^verbatim>\<open>for i, execs := range phaseExecutions { if execs < repeats.GetRepeat(i) { return false } }\<close>\<close>

fun no_phase_open :: "int \<Rightarrow> int list \<Rightarrow> PhaseRepeats \<Rightarrow> bool" where
  "no_phase_open i [] r = True"
| "no_phase_open i (e # es) r = (if e < GetRepeat r i then False else no_phase_open (i + 1) es r)"

text \<open>\<^verbatim>\<open>SequencePattern\<close>, whose only field is the number of phases.\<close>

definition Sequence_NextPhase :: "int \<Rightarrow> int \<Rightarrow> int list \<Rightarrow> PhaseRepeats \<Rightarrow> int outcome" where
  "Sequence_NextPhase numPhases cur execs r =
     obind (idx execs cur) (\<lambda>e.
       if e < GetRepeat r cur then Ret cur
       else let nextPhase = cur + 1 in
         if nextPhase \<ge> numPhases then Ret (- 1) else Ret nextPhase)"

definition Sequence_IsComplete :: "int list \<Rightarrow> PhaseRepeats \<Rightarrow> bool" where
  "Sequence_IsComplete execs r = no_phase_open 0 execs r"

definition Sequence_ShouldAdvancePhase :: "int \<Rightarrow> int list \<Rightarrow> PhaseRepeats \<Rightarrow> bool outcome" where
  "Sequence_ShouldAdvancePhase cur execs r =
     obind (idx execs cur) (\<lambda>e. Ret (e \<ge> GetRepeat r cur))"

text \<open>\<^verbatim>\<open>CyclePattern\<close>.\<close>

definition Cycle_IsComplete :: "int list \<Rightarrow> PhaseRepeats \<Rightarrow> bool" where
  "Cycle_IsComplete execs r = no_phase_open 0 execs r"

definition Cycle_NextPhase :: "int \<Rightarrow> int \<Rightarrow> int list \<Rightarrow> PhaseRepeats \<Rightarrow> int outcome" where
  "Cycle_NextPhase numPhases cur execs r =
     obind (idx execs cur) (\<lambda>e.
       if e \<ge> GetRepeat r cur then
         obind (go_mod (cur + 1) numPhases) (\<lambda>nextPhase.
           if Cycle_IsComplete execs r then Ret (- 1) else Ret nextPhase)
       else go_mod (cur + 1) numPhases)"

definition Cycle_ShouldAdvancePhase :: "int \<Rightarrow> int list \<Rightarrow> PhaseRepeats \<Rightarrow> bool outcome" where
  "Cycle_ShouldAdvancePhase cur execs r = Ret True"

text \<open>\<^verbatim>\<open>RandomPattern\<close>. \<open>open_phases\<close> is the loop that collects \<^verbatim>\<open>availablePhases\<close>.\<close>

fun open_phases :: "int \<Rightarrow> int list \<Rightarrow> PhaseRepeats \<Rightarrow> int list" where
  "open_phases i [] r = []"
| "open_phases i (e # es) r =
     (if e < GetRepeat r i then i # open_phases (i + 1) es r else open_phases (i + 1) es r)"

definition Random_NextPhase :: "rng \<Rightarrow> int \<Rightarrow> int list \<Rightarrow> PhaseRepeats \<Rightarrow> (rng \<times> int) outcome" where
  "Random_NextPhase g cur execs r =
     (let availablePhases = open_phases 0 execs r in
      if availablePhases = [] then Ret (g, - 1)
      else obind (Intn g (int (length availablePhases))) (\<lambda>(g', k).
        obind (idx availablePhases k) (\<lambda>p. Ret (g', p))))"

definition Random_IsComplete :: "int list \<Rightarrow> PhaseRepeats \<Rightarrow> bool" where
  "Random_IsComplete execs r = no_phase_open 0 execs r"

definition Random_ShouldAdvancePhase :: "int \<Rightarrow> int list \<Rightarrow> PhaseRepeats \<Rightarrow> bool outcome" where
  "Random_ShouldAdvancePhase cur execs r = Ret True"

text \<open>
  The interface value \<^verbatim>\<open>PhasePatternExecutor\<close> and its constructor. An unknown pattern name
  falls back to the sequence pattern.
\<close>

datatype executor = SequencePattern int | CyclePattern int | RandomPattern int rng

definition PatternSequence :: string where "PatternSequence = ''sequence''"
definition PatternCycle :: string where "PatternCycle = ''cycle''"
definition PatternRandom :: string where "PatternRandom = ''random''"

definition NewPatternExecutor :: "rng \<Rightarrow> string \<Rightarrow> int \<Rightarrow> executor" where
  "NewPatternExecutor g pattern numPhases =
     (if pattern = PatternSequence then SequencePattern numPhases
      else if pattern = PatternCycle then CyclePattern numPhases
      else if pattern = PatternRandom then RandomPattern numPhases g
      else SequencePattern numPhases)"

fun NextPhase :: "executor \<Rightarrow> int \<Rightarrow> int list \<Rightarrow> PhaseRepeats \<Rightarrow> (executor \<times> int) outcome" where
  "NextPhase (SequencePattern n) cur execs r =
     obind (Sequence_NextPhase n cur execs r) (\<lambda>k. Ret (SequencePattern n, k))"
| "NextPhase (CyclePattern n) cur execs r =
     obind (Cycle_NextPhase n cur execs r) (\<lambda>k. Ret (CyclePattern n, k))"
| "NextPhase (RandomPattern n g) cur execs r =
     obind (Random_NextPhase g cur execs r) (\<lambda>(g', k). Ret (RandomPattern n g', k))"

fun IsComplete :: "executor \<Rightarrow> int list \<Rightarrow> PhaseRepeats \<Rightarrow> bool" where
  "IsComplete (SequencePattern n) execs r = Sequence_IsComplete execs r"
| "IsComplete (CyclePattern n) execs r = Cycle_IsComplete execs r"
| "IsComplete (RandomPattern n g) execs r = Random_IsComplete execs r"

fun ShouldAdvancePhase :: "executor \<Rightarrow> int \<Rightarrow> int list \<Rightarrow> PhaseRepeats \<Rightarrow> bool outcome" where
  "ShouldAdvancePhase (SequencePattern n) cur execs r = Sequence_ShouldAdvancePhase cur execs r"
| "ShouldAdvancePhase (CyclePattern n) cur execs r = Cycle_ShouldAdvancePhase cur execs r"
| "ShouldAdvancePhase (RandomPattern n g) cur execs r = Random_ShouldAdvancePhase cur execs r"

section \<open>What a pattern promises its client\<close>

definition all_done :: "int list \<Rightarrow> PhaseRepeats \<Rightarrow> bool" where
  "all_done es r \<longleftrightarrow> (\<forall>i<length es. GetRepeat r (int i) \<le> es ! i)"

lemma no_phase_open_iff:
  "no_phase_open i es r \<longleftrightarrow> (\<forall>k<length es. GetRepeat r (i + int k) \<le> es ! k)"
  by (induction i es r rule: no_phase_open.induct)
    (auto simp: less_Suc_eq_0_disj algebra_simps not_less)

lemma no_phase_open_all_done [go_simps]: "no_phase_open 0 es r \<longleftrightarrow> all_done es r"
  by (simp add: no_phase_open_iff all_done_def)

lemma set_open_phases:
  "set (open_phases i es r) = {i + int k | k. k < length es \<and> es ! k < GetRepeat r (i + int k)}"
proof (induction i es r rule: open_phases.induct)
  case (2 i e es r)
  have "{i + int k | k. k < length (e # es) \<and> (e # es) ! k < GetRepeat r (i + int k)}
    = (if e < GetRepeat r i then {i} else {})
      \<union> {i + 1 + int k | k. k < length es \<and> es ! k < GetRepeat r (i + 1 + int k)}"
    (is "?L = ?R")
  proof (intro set_eqI iffI)
    fix x assume "x \<in> ?L"
    then obtain k where k: "x = i + int k" "k < length (e # es)" "(e # es) ! k < GetRepeat r (i + int k)"
      by auto
    then show "x \<in> ?R" by (cases k) (auto simp: algebra_simps)
  next
    fix x assume "x \<in> ?R"
    then show "x \<in> ?L"
      by (auto split: if_splits intro: exI[of _ 0] exI[of _ "Suc _"] simp: algebra_simps)
  qed
  with "2" show ?case by (simp add: algebra_simps)
qed simp

lemma open_phases_empty_iff: "open_phases 0 es r = [] \<longleftrightarrow> all_done es r"
  unfolding set_empty[symmetric] set_open_phases by (auto simp: all_done_def)

locale pattern_contract =
  fixes next_phase :: "'p \<Rightarrow> int \<Rightarrow> int list \<Rightarrow> PhaseRepeats \<Rightarrow> ('p \<times> int) outcome"
    and advance :: "'p \<Rightarrow> int \<Rightarrow> int list \<Rightarrow> PhaseRepeats \<Rightarrow> bool outcome"
    and complete :: "'p \<Rightarrow> int list \<Rightarrow> PhaseRepeats \<Rightarrow> bool"
    and wf_pat :: "'p \<Rightarrow> nat \<Rightarrow> int list \<Rightarrow> PhaseRepeats \<Rightarrow> bool"
    and dist :: "'p \<Rightarrow> nat \<Rightarrow> int list \<Rightarrow> PhaseRepeats \<Rightarrow> nat"
  assumes next_ret: "wf_pat p c es r \<Longrightarrow> c < length es \<Longrightarrow>
      \<exists>p' k. next_phase p (int c) es r = Ret (p', k) \<and> (k = - 1 \<or> (\<exists>j<length es. k = int j))"
    and next_done: "wf_pat p c es r \<Longrightarrow> c < length es \<Longrightarrow>
      next_phase p (int c) es r = Ret (p', - 1) \<Longrightarrow> all_done es r"
    and next_wf: "wf_pat p c es r \<Longrightarrow> c < length es \<Longrightarrow>
      next_phase p (int c) es r = Ret (p', int j) \<Longrightarrow> wf_pat p' j es r"
    and next_progress: "wf_pat p c es r \<Longrightarrow> c < length es \<Longrightarrow> GetRepeat r (int c) \<le> es ! c \<Longrightarrow>
      next_phase p (int c) es r = Ret (p', int j) \<Longrightarrow> dist p' j es r < dist p c es r"
    and exec_wf: "wf_pat p c es r \<Longrightarrow> c < length es \<Longrightarrow> es ! c < GetRepeat r (int c) \<Longrightarrow>
      wf_pat p c (es[c := es ! c + 1]) r"
    and advance_ret: "wf_pat p c es r \<Longrightarrow> c < length es \<Longrightarrow> \<exists>b. advance p (int c) es r = Ret b"
    and complete_iff: "complete p es r \<longleftrightarrow> all_done es r"
begin

lemma next_open:
  assumes "wf_pat p c es r" "c < length es" "\<not> complete p es r"
  shows "\<exists>p' j. next_phase p (int c) es r = Ret (p', int j) \<and> j < length es"
  using next_ret[OF assms(1,2)] next_done[OF assms(1,2)] assms(3) by (fastforce simp: complete_iff)

end

section \<open>The three patterns keep the promise\<close>

definition wf_sequence :: "int \<Rightarrow> nat \<Rightarrow> int list \<Rightarrow> PhaseRepeats \<Rightarrow> bool" where
  "wf_sequence n c es r \<longleftrightarrow> n = int (length es) \<and> (\<forall>i<c. GetRepeat r (int i) \<le> es ! i)"

definition dist_sequence :: "int \<Rightarrow> nat \<Rightarrow> int list \<Rightarrow> PhaseRepeats \<Rightarrow> nat" where
  "dist_sequence n c es r = length es - c"

lemma Sequence_NextPhase_eq:
  "c < length es \<Longrightarrow> n = int (length es) \<Longrightarrow> Sequence_NextPhase n (int c) es r =
     Ret (if es ! c < GetRepeat r (int c) then int c
          else if Suc c < length es then int (Suc c) else - 1)"
  by (auto simp: Sequence_NextPhase_def Let_def)

interpretation seq: pattern_contract
  "\<lambda>n cur es r. obind (Sequence_NextPhase n cur es r) (\<lambda>k. Ret (n, k))"
  "\<lambda>n. Sequence_ShouldAdvancePhase" "\<lambda>n. Sequence_IsComplete" wf_sequence dist_sequence
proof (unfold_locales, goal_cases)
  case (1 p c es r)
  then show ?case by (auto simp: wf_sequence_def Sequence_NextPhase_eq)
next
  case (2 p c es r p')
  then have c: "length es = Suc c" "\<not> es ! c < GetRepeat r (int c)"
    by (auto simp: wf_sequence_def Sequence_NextPhase_eq split: if_splits)
  with "2"(1) show ?case by (auto simp: wf_sequence_def all_done_def less_Suc_eq)
next
  case (3 p c es r p' j)
  then have "j = c \<or> j = Suc c \<and> GetRepeat r (int c) \<le> es ! c" "p' = p"
    by (auto simp: wf_sequence_def Sequence_NextPhase_eq split: if_splits)
  with "3"(1) show ?case by (auto simp: wf_sequence_def less_Suc_eq)
next
  case (4 p c es r p' j)
  then show ?case
    by (auto simp: wf_sequence_def dist_sequence_def Sequence_NextPhase_eq split: if_splits)
next
  case (5 p c es r)
  then show ?case by (auto simp: wf_sequence_def)
next
  case (6 p c es r)
  then show ?case by (simp add: Sequence_ShouldAdvancePhase_def)
next
  case (7 p es r)
  then show ?case by (simp add: Sequence_IsComplete_def go_simps)
qed

definition wf_cycle :: "int \<Rightarrow> nat \<Rightarrow> int list \<Rightarrow> PhaseRepeats \<Rightarrow> bool" where
  "wf_cycle n c es r \<longleftrightarrow> n = int (length es)"

text \<open>How many phases further round the cycle the next open one lies.\<close>

definition dist_cycle :: "int \<Rightarrow> nat \<Rightarrow> int list \<Rightarrow> PhaseRepeats \<Rightarrow> nat" where
  "dist_cycle n c es r = (LEAST d. es ! ((c + d) mod length es) < GetRepeat r (int ((c + d) mod length es)))"

lemma dist_cycle_decreases:
  assumes "c < length es" "GetRepeat r (int c) \<le> es ! c" "\<not> all_done es r"
  shows "dist_cycle n' (Suc c mod length es) es r < dist_cycle n c es r"
proof -
  let ?P = "\<lambda>d. es ! ((c + d) mod length es) < GetRepeat r (int ((c + d) mod length es))"
  let ?Q = "\<lambda>d. es ! ((Suc c mod length es + d) mod length es)
    < GetRepeat r (int ((Suc c mod length es + d) mod length es))"
  obtain i where i: "i < length es" "es ! i < GetRepeat r (int i)"
    using assms(3) by (auto simp: all_done_def not_le)
  have "(c + (length es - c + i)) mod length es = i"
    using assms(1) i(1) by simp
  with i(2) have "?P (length es - c + i)" by simp
  then have P: "?P (LEAST d. ?P d)" by (rule LeastI)
  have "(LEAST d. ?P d) \<noteq> 0"
  proof
    assume "(LEAST d. ?P d) = 0"
    with P assms(1,2) show False by simp
  qed
  then obtain d where d: "(LEAST d. ?P d) = Suc d" by (auto simp: gr0_conv_Suc)
  with P have "?Q d" by (simp add: mod_simps)
  then have "(LEAST d. ?Q d) \<le> d" by (rule Least_le)
  with d show ?thesis by (simp add: dist_cycle_def)
qed

lemma Cycle_NextPhase_eq:
  "c < length es \<Longrightarrow> n = int (length es) \<Longrightarrow> Cycle_NextPhase n (int c) es r =
     Ret (if GetRepeat r (int c) \<le> es ! c \<and> all_done es r then - 1 else int (Suc c mod length es))"
proof -
  assume a: "c < length es" "n = int (length es)"
  then have "0 < n" by (cases es) auto
  with a have "go_mod (int c + 1) n = Ret (int (Suc c mod length es))"
    by (simp add: go_simps zmod_int add.commute)
  with a show ?thesis
    by (auto simp: Cycle_NextPhase_def Cycle_IsComplete_def no_phase_open_all_done)
qed

lemma Cycle_NextPhase_cases:
  assumes "c < length es" "n = int (length es)"
    and "Cycle_NextPhase n (int c) es r = Ret k"
  shows "k = - 1 \<and> all_done es r \<or> k = int (Suc c mod length es) \<and> \<not> all_done es r"
  using assms(3) assms(1)
  by (auto simp: Cycle_NextPhase_eq[OF assms(1,2)] all_done_def split: if_splits)

interpretation cyc: pattern_contract
  "\<lambda>n cur es r. obind (Cycle_NextPhase n cur es r) (\<lambda>k. Ret (n, k))"
  "\<lambda>n. Cycle_ShouldAdvancePhase" "\<lambda>n. Cycle_IsComplete" wf_cycle dist_cycle
proof (unfold_locales, goal_cases)
  case (1 p c es r)
  have "Suc c mod length es < length es"
    using "1"(2) by (intro mod_less_divisor) (rule order.strict_trans1[OF le0])
  with "1" show ?case by (auto simp: wf_cycle_def Cycle_NextPhase_eq)
next
  case (2 p c es r p')
  then show ?case by (auto simp: wf_cycle_def go_simps dest!: Cycle_NextPhase_cases)
next
  case (3 p c es r p' j)
  then show ?case by (auto simp: wf_cycle_def go_simps)
next
  case (4 p c es r p' j)
  then have "j = Suc c mod length es" "\<not> all_done es r"
    by (auto simp: wf_cycle_def go_simps dest!: Cycle_NextPhase_cases)
  with dist_cycle_decreases[OF "4"(2,3)] show ?case by simp
next
  case (7 p es r)
  then show ?case by (simp add: Cycle_IsComplete_def go_simps)
qed (auto simp: wf_cycle_def Cycle_ShouldAdvancePhase_def)

definition wf_random :: "int \<times> rng \<Rightarrow> nat \<Rightarrow> int list \<Rightarrow> PhaseRepeats \<Rightarrow> bool" where
  "wf_random p c es r \<longleftrightarrow> True"

definition dist_random :: "int \<times> rng \<Rightarrow> nat \<Rightarrow> int list \<Rightarrow> PhaseRepeats \<Rightarrow> nat" where
  "dist_random p c es r = (if GetRepeat r (int c) \<le> es ! c then 1 else 0)"

lemma Random_NextPhase_done: "all_done es r \<Longrightarrow> Random_NextPhase g cur es r = Ret (g, - 1)"
  by (simp add: Random_NextPhase_def open_phases_empty_iff)

lemma Random_NextPhase_open:
  assumes "\<not> all_done es r"
  shows "\<exists>g' j. Random_NextPhase g cur es r = Ret (g', int j) \<and> j < length es \<and> es ! j < GetRepeat r (int j)"
proof -
  let ?a = "open_phases 0 es r"
  have ne: "?a \<noteq> []" using assms by (simp add: open_phases_empty_iff)
  define k where "k = nat (int (draws g (pos g)) mod int (length ?a))"
  have k: "int (draws g (pos g)) mod int (length ?a) = int k" "k < length ?a"
    using ne by (auto simp: k_def nat_less_iff)
  then have "?a ! k \<in> set ?a" by simp
  then obtain j where "?a ! k = int j" "j < length es" "es ! j < GetRepeat r (int j)"
    by (auto simp: set_open_phases)
  with ne k show ?thesis
    by (auto simp: Random_NextPhase_def Intn_def Let_def)
qed

interpretation rnd: pattern_contract
  "\<lambda>(n, g) cur es r. obind (Random_NextPhase g cur es r) (\<lambda>(g', k). Ret ((n, g'), k))"
  "\<lambda>p. Random_ShouldAdvancePhase" "\<lambda>p. Random_IsComplete" wf_random dist_random
proof (unfold_locales, goal_cases)
  case (1 p c es r)
  then show ?case
    using Random_NextPhase_done[of es r "snd p" "int c"] Random_NextPhase_open[of es r "snd p" "int c"]
    by (cases p; cases "all_done es r") auto
next
  case (2 p c es r p')
  then show ?case
    using Random_NextPhase_open[of es r "snd p" "int c"]
    by (cases p; cases "all_done es r") auto
next
  case (4 p c es r p' j)
  then have "\<not> all_done es r" by (cases p) (auto simp: Random_NextPhase_done)
  with "4" Random_NextPhase_open[of es r "snd p" "int c"] show ?case
    by (cases p) (auto simp: dist_random_def)
next
  case (7 p es r)
  then show ?case by (simp add: Random_IsComplete_def go_simps)
qed (auto simp: wf_random_def Random_ShouldAdvancePhase_def)

text \<open>The executor dispatches to the pattern it holds, so the contract carries over.\<close>

fun wf_executor :: "executor \<Rightarrow> nat \<Rightarrow> int list \<Rightarrow> PhaseRepeats \<Rightarrow> bool" where
  "wf_executor (SequencePattern n) = wf_sequence n"
| "wf_executor (CyclePattern n) = wf_cycle n"
| "wf_executor (RandomPattern n g) = wf_random (n, g)"

fun dist_executor :: "executor \<Rightarrow> nat \<Rightarrow> int list \<Rightarrow> PhaseRepeats \<Rightarrow> nat" where
  "dist_executor (SequencePattern n) = dist_sequence n"
| "dist_executor (CyclePattern n) = dist_cycle n"
| "dist_executor (RandomPattern n g) = dist_random (n, g)"

interpretation ex: pattern_contract NextPhase ShouldAdvancePhase IsComplete wf_executor dist_executor
proof (unfold_locales, goal_cases)
  case (1 p c es r)
  then show ?case
    by (cases p) (auto dest: seq.next_ret cyc.next_ret rnd.next_ret simp: go_simps split_beta)
next
  case (2 p c es r p')
  then show ?case
    using seq.next_done cyc.next_done rnd.next_done by (cases p) (fastforce simp: go_simps)+
next
  case (3 p c es r p' j)
  then show ?case
    using seq.next_wf cyc.next_wf rnd.next_wf by (cases p) (fastforce simp: go_simps)+
next
  case (4 p c es r p' j)
  then show ?case
    using seq.next_progress cyc.next_progress rnd.next_progress by (cases p) (fastforce simp: go_simps)+
next
  case (5 p c es r)
  then show ?case
    by (cases p) (simp_all add: seq.exec_wf cyc.exec_wf rnd.exec_wf)
next
  case (6 p c es r)
  then show ?case
    by (cases p) (auto dest: seq.advance_ret cyc.advance_ret rnd.advance_ret)
next
  case (7 p es r)
  then show ?case by (cases p) (simp_all add: seq.complete_iff cyc.complete_iff rnd.complete_iff)
qed

text \<open>The contract restricted to one kind of pattern: an executor never changes its kind.\<close>

context pattern_contract
begin

lemma restrict_kind:
  assumes "\<And>p cur es r p' k. kind p \<Longrightarrow> next_phase p cur es r = Ret (p', k) \<Longrightarrow> kind p'"
  shows "pattern_contract next_phase advance complete (\<lambda>p c es r. kind p \<and> wf_pat p c es r) dist"
  by unfold_locales
    (auto simp: next_ret next_wf next_progress exec_wf advance_ret complete_iff
      intro: assms next_done)

end

fun is_sequence :: "executor \<Rightarrow> bool" where
  "is_sequence (SequencePattern n) = True"
| "is_sequence _ = False"

fun is_cycle :: "executor \<Rightarrow> bool" where
  "is_cycle (CyclePattern n) = True"
| "is_cycle _ = False"

lemma is_sequence_next: "is_sequence p \<Longrightarrow> NextPhase p cur es r = Ret (p', k) \<Longrightarrow> is_sequence p'"
  by (cases p) (auto simp: go_simps)

lemma is_cycle_next: "is_cycle p \<Longrightarrow> NextPhase p cur es r = Ret (p', k) \<Longrightarrow> is_cycle p'"
  by (cases p) (auto simp: go_simps)

interpretation exseq: pattern_contract NextPhase ShouldAdvancePhase IsComplete
  "\<lambda>p c es r. is_sequence p \<and> wf_executor p c es r" dist_executor
  by (rule ex.restrict_kind) (rule is_sequence_next)

interpretation excyc: pattern_contract NextPhase ShouldAdvancePhase IsComplete
  "\<lambda>p c es r. is_cycle p \<and> wf_executor p c es r" dist_executor
  by (rule ex.restrict_kind) (rule is_cycle_next)

lemma wf_NewPatternExecutor:
  "wf_executor (NewPatternExecutor g pattern (int (length es))) 0 es r"
  by (simp add: NewPatternExecutor_def wf_sequence_def wf_cycle_def wf_random_def)

end
