(* ===== verification/PhaseLoop.thy ===== *)
theory PhaseLoop
  imports Pattern
begin

text \<open>
  The phase loop at the end of \<^verbatim>\<open>command_client\<close> (\<^verbatim>\<open>cmd/chaosmania/client.go\<close>): which phase
  runs next, how often, and when the command stops. What one execution of a phase does to the
  rest of the world is the parameter \<open>run\<close>; \<open>say\<close> appends a line to the log. The pattern is
  reached through its interface, so the rule \<open>phases_rule\<close> is proved once for any pattern
  that keeps \<open>pattern_contract\<close>.
\<close>

section \<open>The loop\<close>

record ('p, 'w) loop_state =
  currentPhase :: int
  phaseExecutions :: "int list"
  patternExecutor :: 'p
  world :: 'w

type_synonym ('p, 'w) loop_result = "(('p, 'w) loop_state \<times> gerror option) outcome"

definition all_phases_msg :: string where
  "all_phases_msg = ''All phases completed their repeats, stopping execution''"

text \<open>Ask the pattern for the next phase; \<open>-1\<close> ends the command with no error.\<close>

definition go_to_next ::
  "('p \<Rightarrow> int \<Rightarrow> int list \<Rightarrow> PhaseRepeats \<Rightarrow> ('p \<times> int) outcome) \<Rightarrow> (string \<Rightarrow> 'w \<Rightarrow> 'w) \<Rightarrow> PhaseRepeats
    \<Rightarrow> ('p, 'w) loop_state \<Rightarrow> (('p, 'w) loop_state, ('p, 'w) loop_result) ctl" where
  "go_to_next next say reps s =
     (case next (patternExecutor s) (currentPhase s) (phaseExecutions s) reps of
        Ret (p', k) \<Rightarrow>
          if k = - 1 then Stop (Ret (s\<lparr>patternExecutor := p', world := say all_phases_msg (world s)\<rparr>, None))
          else Continue (s\<lparr>patternExecutor := p', currentPhase := k\<rparr>)
      | Err e \<Rightarrow> Stop (Err e)
      | Panic p \<Rightarrow> Stop (Panic p))"

definition client_pass ::
  "('p \<Rightarrow> int \<Rightarrow> int list \<Rightarrow> PhaseRepeats \<Rightarrow> ('p \<times> int) outcome)
    \<Rightarrow> ('p \<Rightarrow> int \<Rightarrow> int list \<Rightarrow> PhaseRepeats \<Rightarrow> bool outcome)
    \<Rightarrow> ('w \<Rightarrow> int \<Rightarrow> ('w \<times> gerror option) outcome) \<Rightarrow> (string \<Rightarrow> 'w \<Rightarrow> 'w) \<Rightarrow> PhaseRepeats
    \<Rightarrow> ('p, 'w) loop_state \<Rightarrow> (('p, 'w) loop_state, ('p, 'w) loop_result) ctl" where
  "client_pass next adv run say reps s =
     (case idx (phaseExecutions s) (currentPhase s) of
        Ret e \<Rightarrow>
          if GetRepeat reps (currentPhase s) \<le> e then go_to_next next say reps s
          else
            (case run (world s) (currentPhase s) of
               Ret (w', err) \<Rightarrow>
                 (let s1 = s\<lparr>world := w', phaseExecutions := (phaseExecutions s)[nat (currentPhase s) := e + 1]\<rparr> in
                  if err \<noteq> None \<and> err \<noteq> Some EDeadlineExceeded then Stop (Ret (s1, err))
                  else
                    (case adv (patternExecutor s1) (currentPhase s1) (phaseExecutions s1) reps of
                       Ret b \<Rightarrow> if b then go_to_next next say reps s1 else Continue s1
                     | Err x \<Rightarrow> Stop (Err x)
                     | Panic p \<Rightarrow> Stop (Panic p)))
             | Err x \<Rightarrow> Stop (Err x)
             | Panic p \<Rightarrow> Stop (Panic p))
      | Err x \<Rightarrow> Stop (Err x)
      | Panic p \<Rightarrow> Stop (Panic p))"

definition loop_start :: "'p \<Rightarrow> nat \<Rightarrow> 'w \<Rightarrow> ('p, 'w) loop_state" where
  "loop_start p n w = \<lparr>currentPhase = 0, phaseExecutions = replicate n 0, patternExecutor = p, world = w\<rparr>"

text \<open>The loop of the command, over the executor the code builds.\<close>

definition run_phases ::
  "('w \<Rightarrow> int \<Rightarrow> ('w \<times> gerror option) outcome) \<Rightarrow> (string \<Rightarrow> 'w \<Rightarrow> 'w) \<Rightarrow> PhaseRepeats \<Rightarrow> executor \<Rightarrow> nat \<Rightarrow> 'w
    \<Rightarrow> (executor, 'w) loop_result option" where
  "run_phases run say reps p n w =
     loop (client_pass NextPhase ShouldAdvancePhase run say reps) (loop_start p n w)"

section \<open>The rule for phase loops\<close>

definition quota :: "PhaseRepeats \<Rightarrow> nat \<Rightarrow> int" where
  "quota r i = max 0 (GetRepeat r (int i))"

definition within_quota :: "PhaseRepeats \<Rightarrow> int list \<Rightarrow> bool" where
  "within_quota r es \<longleftrightarrow> (\<forall>i<length es. 0 \<le> es ! i \<and> es ! i \<le> quota r i)"

definition work_left :: "PhaseRepeats \<Rightarrow> int list \<Rightarrow> nat" where
  "work_left r es = (\<Sum>i<length es. nat (quota r i - es ! i))"

lemma within_quota_step:
  "within_quota r es \<Longrightarrow> c < length es \<Longrightarrow> es ! c < GetRepeat r (int c) \<Longrightarrow> within_quota r (es[c := es ! c + 1])"
  by (auto simp: within_quota_def quota_def nth_list_update)

lemma work_left_step:
  assumes "within_quota r es" "c < length es" "es ! c < GetRepeat r (int c)"
  shows "work_left r (es[c := es ! c + 1]) < work_left r es"
  unfolding work_left_def length_list_update
proof (rule sum_strict_mono_ex1)
  show "\<forall>i\<in>{..<length es}. nat (quota r i - es[c := es ! c + 1] ! i) \<le> nat (quota r i - es ! i)"
    using assms(2) by (intro ballI nat_mono) (simp add: nth_list_update)
  show "\<exists>i\<in>{..<length es}. nat (quota r i - es[c := es ! c + 1] ! i) < nat (quota r i - es ! i)"
    using assms by (intro bexI[of _ c]) (auto simp: quota_def)
qed simp

lemma within_quota_done:
  assumes "within_quota r es" "all_done es r"
  shows "es = map (quota r) [0..<length es]"
proof (rule nth_equalityI)
  fix i assume "i < length es"
  with assms show "es ! i = map (quota r) [0..<length es] ! i"
    by (auto simp: within_quota_def all_done_def quota_def max_def split: if_splits
        intro: antisym)
qed simp

text \<open>
  What holds at the top of the loop, what holds when it returns nil, and the two parts of the
  measure: executions still to do, then the distance to the next open phase.
\<close>

definition top_inv :: "('p \<Rightarrow> nat \<Rightarrow> int list \<Rightarrow> PhaseRepeats \<Rightarrow> bool) \<Rightarrow> PhaseRepeats \<Rightarrow> nat
    \<Rightarrow> (nat \<Rightarrow> int list \<Rightarrow> 'w \<Rightarrow> bool) \<Rightarrow> nat \<Rightarrow> ('p, 'w) loop_state \<Rightarrow> bool" where
  "top_inv pwf reps n J c s \<longleftrightarrow> currentPhase s = int c \<and> c < n \<and> length (phaseExecutions s) = n
     \<and> pwf (patternExecutor s) c (phaseExecutions s) reps \<and> within_quota reps (phaseExecutions s)
     \<and> J c (phaseExecutions s) (world s)"

definition nil_post :: "(string \<Rightarrow> 'w \<Rightarrow> 'w) \<Rightarrow> PhaseRepeats \<Rightarrow> nat \<Rightarrow> (int list \<Rightarrow> 'w \<Rightarrow> bool)
    \<Rightarrow> ('p, 'w) loop_result \<Rightarrow> bool" where
  "nil_post say reps n Q r \<longleftrightarrow> (\<exists>s w. r = Ret (s, None) \<and> phaseExecutions s = map (quota reps) [0..<n]
     \<and> world s = say all_phases_msg w \<and> Q (phaseExecutions s) w)"

definition loop_m1 :: "PhaseRepeats \<Rightarrow> ('p, 'w) loop_state \<Rightarrow> nat" where
  "loop_m1 reps s = work_left reps (phaseExecutions s)"

context pattern_contract
begin

definition loop_m2 :: "PhaseRepeats \<Rightarrow> ('p, 'w) loop_state \<Rightarrow> nat" where
  "loop_m2 reps s = dist (patternExecutor s) (nat (currentPhase s)) (phaseExecutions s) reps"

text \<open>
  Asking for the next phase, from a state in which \<open>T\<close> holds: either the next phase is
  looked at, with no new work and closer to an open phase, or every quota is met.
\<close>

lemma go_to_next_cases:
  assumes s: "top_inv wf_pat reps n T c s"
    and go: "\<And>p' j. j < n \<Longrightarrow>
      next_phase (patternExecutor s) (int c) (phaseExecutions s) reps = Ret (p', int j) \<Longrightarrow>
      J j (phaseExecutions s) (world s)"
    and Q: "Q (phaseExecutions s) (world s)"
  shows "(\<exists>s' j. go_to_next next_phase say reps s = Continue s' \<and> top_inv wf_pat reps n J j s'
        \<and> loop_m1 reps s' = loop_m1 reps s
        \<and> (GetRepeat reps (int c) \<le> phaseExecutions s ! c \<longrightarrow> loop_m2 reps s' < loop_m2 reps s))
      \<or> (\<exists>r. go_to_next next_phase say reps s = Stop r \<and> nil_post say reps n Q r)"
proof -
  from s have c: "currentPhase s = int c" "c < n" "length (phaseExecutions s) = n"
    "wf_pat (patternExecutor s) c (phaseExecutions s) reps" "within_quota reps (phaseExecutions s)"
    by (auto simp: top_inv_def)
  from next_ret[OF c(4)] c obtain p' k where
    k: "next_phase (patternExecutor s) (int c) (phaseExecutions s) reps = Ret (p', k)"
       "k = - 1 \<or> (\<exists>j<n. k = int j)" by auto
  show ?thesis
  proof (cases "k = - 1")
    case True
    with k next_done[OF c(4)] c have "all_done (phaseExecutions s) reps" by auto
    with within_quota_done[OF c(5)] c have "phaseExecutions s = map (quota reps) [0..<n]" by simp
    with True k c Q show ?thesis by (auto simp: nil_post_def go_to_next_def)
  next
    case False
    with k obtain j where j: "k = int j" "j < n" by auto
    note nx = k(1)[unfolded j(1)]
    have "wf_pat p' j (phaseExecutions s) reps" "J j (phaseExecutions s) (world s)"
      using next_wf[OF c(4) _ nx] go[OF j(2) nx] c by auto
    moreover have "GetRepeat reps (int c) \<le> phaseExecutions s ! c \<longrightarrow>
        dist p' j (phaseExecutions s) reps < dist (patternExecutor s) c (phaseExecutions s) reps"
      using next_progress[OF c(4) _ _ nx] c by simp
    ultimately show ?thesis
      using nx j c by (auto simp: top_inv_def loop_m1_def loop_m2_def go_to_next_def intro!: exI[of _ j])
  qed
qed

text \<open>
  Let \<open>J\<close> hold whenever a phase is about to be looked at and \<open>K\<close> right after one has run.
  Then the loop stops, every phase has run exactly its quota, and \<open>J\<close> or \<open>K\<close> holds there.
\<close>

definition loop_user_inv ::
  "('w \<Rightarrow> int \<Rightarrow> ('w \<times> gerror option) outcome) \<Rightarrow> PhaseRepeats \<Rightarrow> nat
    \<Rightarrow> (nat \<Rightarrow> int list \<Rightarrow> 'w \<Rightarrow> bool) \<Rightarrow> (nat \<Rightarrow> int list \<Rightarrow> 'w \<Rightarrow> bool) \<Rightarrow> bool" where
  "loop_user_inv run reps n J K \<longleftrightarrow>
     (\<forall>c es w. length es = n \<longrightarrow> c < n \<longrightarrow> within_quota reps es \<longrightarrow> es ! c < GetRepeat reps (int c) \<longrightarrow> J c es w \<longrightarrow>
        (\<exists>w' err. run w (int c) = Ret (w', err) \<and> (err = None \<or> err = Some EDeadlineExceeded)
          \<and> K c (es[c := es ! c + 1]) w')) \<and>
     (\<forall>p p' c j es w. wf_pat p c es reps \<longrightarrow> length es = n \<longrightarrow> c < n \<longrightarrow> j < n \<longrightarrow>
        next_phase p (int c) es reps = Ret (p', int j) \<longrightarrow>
        (J c es w \<and> GetRepeat reps (int c) \<le> es ! c) \<or> (K c es w \<and> advance p (int c) es reps = Ret True)
        \<longrightarrow> J j es w) \<and>
     (\<forall>p c es w. wf_pat p c es reps \<longrightarrow> length es = n \<longrightarrow> c < n \<longrightarrow>
        advance p (int c) es reps = Ret False \<longrightarrow> K c es w \<longrightarrow> J c es w)"

lemma loop_user_run:
  "loop_user_inv run reps n J K \<Longrightarrow> length es = n \<Longrightarrow> c < n \<Longrightarrow> within_quota reps es \<Longrightarrow>
    es ! c < GetRepeat reps (int c) \<Longrightarrow> J c es w \<Longrightarrow>
    \<exists>w' err. run w (int c) = Ret (w', err) \<and> (err = None \<or> err = Some EDeadlineExceeded)
      \<and> K c (es[c := es ! c + 1]) w'"
  unfolding loop_user_inv_def by blast

lemma loop_user_go:
  "loop_user_inv run reps n J K \<Longrightarrow> wf_pat p c es reps \<Longrightarrow> length es = n \<Longrightarrow> c < n \<Longrightarrow> j < n \<Longrightarrow>
    next_phase p (int c) es reps = Ret (p', int j) \<Longrightarrow>
    (J c es w \<and> GetRepeat reps (int c) \<le> es ! c) \<or> (K c es w \<and> advance p (int c) es reps = Ret True) \<Longrightarrow>
    J j es w"
  unfolding loop_user_inv_def by blast

lemma loop_user_stay:
  "loop_user_inv run reps n J K \<Longrightarrow> wf_pat p c es reps \<Longrightarrow> length es = n \<Longrightarrow> c < n \<Longrightarrow>
    advance p (int c) es reps = Ret False \<Longrightarrow> K c es w \<Longrightarrow> J c es w"
  unfolding loop_user_inv_def by blast

lemma client_pass_cases:
  fixes s :: "('p, 'w) loop_state" and say :: "string \<Rightarrow> 'w \<Rightarrow> 'w"
  assumes u: "loop_user_inv run reps n J K" and s: "top_inv wf_pat reps n J c s"
  defines "Q \<equiv> \<lambda>es w. \<exists>c<n. J c es w \<or> K c es w"
  defines "body \<equiv> client_pass next_phase advance run say reps"
  shows "(\<exists>s' j. body s = Continue s' \<and> top_inv wf_pat reps n J j s'
        \<and> (loop_m1 reps s' < loop_m1 reps s \<or> (loop_m1 reps s' = loop_m1 reps s \<and> loop_m2 reps s' < loop_m2 reps s)))
      \<or> (\<exists>r. body s = Stop r \<and> nil_post say reps n Q r)"
proof -
  from s have c: "currentPhase s = int c" "c < n" "length (phaseExecutions s) = n"
    "wf_pat (patternExecutor s) c (phaseExecutions s) reps" "within_quota reps (phaseExecutions s)"
    "J c (phaseExecutions s) (world s)" by (auto simp: top_inv_def)
  show ?thesis
  proof (cases "GetRepeat reps (int c) \<le> phaseExecutions s ! c")
    case True
    with c have "body s = go_to_next next_phase say reps s" by (simp add: client_pass_def body_def)
    moreover have "Q (phaseExecutions s) (world s)"
      using c by (auto simp: Q_def)
    ultimately show ?thesis
      using go_to_next_cases[OF s, of J Q say] loop_user_go[OF u c(4,3,2)] c(6) True by simp blast
  next
    case False
    let ?e = "(phaseExecutions s)[c := phaseExecutions s ! c + 1]"
    from loop_user_run[OF u c(3,2,5) _ c(6)] False obtain w' err where
      r: "run (world s) (int c) = Ret (w', err)" "err = None \<or> err = Some EDeadlineExceeded" "K c ?e w'"
      by auto
    let ?s1 = "s\<lparr>world := w', phaseExecutions := ?e\<rparr>"
    have s1: "top_inv wf_pat reps n K c ?s1" and m: "loop_m1 reps ?s1 < loop_m1 reps s"
      using exec_wf[OF c(4)] within_quota_step[OF c(5)] work_left_step[OF c(5)] c False r
      by (auto simp: loop_m1_def top_inv_def not_le)
    then obtain b where b: "advance (patternExecutor s) (int c) ?e reps = Ret b"
      using advance_ret[of "patternExecutor s" c ?e reps] by (auto simp: top_inv_def)
    have body: "body s = (if b then go_to_next next_phase say reps ?s1 else Continue ?s1)"
      using c False r b by (auto simp: client_pass_def body_def Let_def)
    show ?thesis
    proof (cases b)
      case True
      have w1: "wf_pat (patternExecutor s) c ?e reps" "length ?e = n" "c < n"
        using s1 by (auto simp: top_inv_def)
      have "Q ?e w'" using r c by (auto simp: Q_def)
      moreover have "\<And>p' j. j < n \<Longrightarrow>
          next_phase (patternExecutor s) (int c) ?e reps = Ret (p', int j) \<Longrightarrow> J j ?e w'"
        by (rule loop_user_go[OF u w1]) (use r(3) b True in auto)
      ultimately show ?thesis
        using go_to_next_cases[OF s1, of J Q say] body True m by force
    next
      case False
      with s1 b r loop_user_stay[OF u] have "top_inv wf_pat reps n J c ?s1"
        by (auto simp: top_inv_def)
      with False body m show ?thesis by auto
    qed
  qed
qed

lemma phases_rule:
  assumes "0 < n" "wf_pat p 0 (replicate n 0) reps" "J 0 (replicate n 0) w"
    and u: "loop_user_inv run reps n J K"
  shows "\<exists>r. loop (client_pass next_phase advance run say reps) (loop_start p n w) = Some r
    \<and> nil_post say reps n (\<lambda>es w. \<exists>c<n. J c es w \<or> K c es w) r"
proof (rule loop_total_lex[of "\<lambda>s. \<exists>c. top_inv wf_pat reps n J c s" _ _ "loop_m1 reps" "loop_m2 reps"])
  show "\<exists>c. top_inv wf_pat reps n J c (loop_start p n w)"
    using assms(1-3) by (auto simp: top_inv_def loop_start_def within_quota_def quota_def intro!: exI[of _ 0])
next
  fix s s' assume "\<exists>c. top_inv wf_pat reps n J c s" "client_pass next_phase advance run say reps s = Continue s'"
  with client_pass_cases[OF u, of _ s say] show "(\<exists>c. top_inv wf_pat reps n J c s') \<and>
      (loop_m1 reps s' < loop_m1 reps s \<or> loop_m1 reps s' = loop_m1 reps s \<and> loop_m2 reps s' < loop_m2 reps s)"
    by auto
next
  fix s r assume "\<exists>c. top_inv wf_pat reps n J c s" "client_pass next_phase advance run say reps s = Stop r"
  with client_pass_cases[OF u, of _ s say] show "nil_post say reps n (\<lambda>es w. \<exists>c<n. J c es w \<or> K c es w) r"
    by auto
qed

end

end
