(* ===== verification/PhaseOrder.thy ===== *)
theory PhaseOrder
  imports PhaseLoop
begin

text \<open>
  What the phase loop of \<^verbatim>\<open>command_client\<close> does for each pattern: it always stops, it executes
  every phase exactly as often as its repeat count says, and the sequence and cycle patterns
  execute them in the order their names promise. The order is observed by recording, next to
  the world, the index of every phase that is executed.
\<close>

section \<open>Recording the executed phases\<close>

definition traced :: "('w \<Rightarrow> int \<Rightarrow> ('w \<times> gerror option) outcome)
    \<Rightarrow> 'w \<times> int list \<Rightarrow> int \<Rightarrow> (('w \<times> int list) \<times> gerror option) outcome" where
  "traced run wt c = obind (run (fst wt) c) (\<lambda>(w', err). Ret ((w', snd wt @ [c]), err))"

definition traced_say :: "(string \<Rightarrow> 'w \<Rightarrow> 'w) \<Rightarrow> string \<Rightarrow> 'w \<times> int list \<Rightarrow> 'w \<times> int list" where
  "traced_say say msg wt = (say msg (fst wt), snd wt)"

text \<open>Every execution of a phase ends well or by reaching its time limit.\<close>

definition phase_ok :: "('w \<Rightarrow> int \<Rightarrow> ('w \<times> gerror option) outcome) \<Rightarrow> bool" where
  "phase_ok run \<longleftrightarrow> (\<forall>w c. \<exists>w' err. run w c = Ret (w', err) \<and> (err = None \<or> err = Some EDeadlineExceeded))"

lemma traced_ok:
  assumes "phase_ok run"
  shows "\<exists>wt' err. traced run wt c = Ret (wt', err) \<and> (err = None \<or> err = Some EDeadlineExceeded)
    \<and> snd wt' = snd wt @ [c]"
proof -
  obtain w' err where "run (fst wt) c = Ret (w', err)" "err = None \<or> err = Some EDeadlineExceeded"
    using assms unfolding phase_ok_def by blast
  then show ?thesis by (auto simp: traced_def)
qed

lemma nil_postD:
  assumes "\<exists>r. x = Some r \<and> nil_post (traced_say say) reps n (\<lambda>es wt. \<exists>c<n. G c es (snd wt) \<or> H c es (snd wt)) r"
  shows "\<exists>s c. x = Some (Ret (s, None)) \<and> phaseExecutions s = map (quota reps) [0..<n] \<and> c < n
    \<and> (G c (map (quota reps) [0..<n]) (snd (world s)) \<or> H c (map (quota reps) [0..<n]) (snd (world s)))"
  using assms by (fastforce simp: nil_post_def traced_say_def)

text \<open>The rule of the loop for facts about the recorded phases only.\<close>

context pattern_contract
begin

lemma traced_rule:
  fixes w :: 'w
  assumes "0 < n" "wf_pat p 0 (replicate n 0) reps" "phase_ok run" and start: "G 0 (replicate n 0) tr"
    and step: "\<And>c es tr. length es = n \<Longrightarrow> c < n \<Longrightarrow> within_quota reps es \<Longrightarrow> es ! c < GetRepeat reps (int c) \<Longrightarrow>
      G c es tr \<Longrightarrow> H c (es[c := es ! c + 1]) (tr @ [int c])"
    and go: "\<And>p p' c j es tr. wf_pat p c es reps \<Longrightarrow> length es = n \<Longrightarrow> c < n \<Longrightarrow> j < n \<Longrightarrow>
      next_phase p (int c) es reps = Ret (p', int j) \<Longrightarrow>
      (G c es tr \<and> GetRepeat reps (int c) \<le> es ! c) \<or> (H c es tr \<and> advance p (int c) es reps = Ret True) \<Longrightarrow> G j es tr"
    and stay: "\<And>p c es tr. wf_pat p c es reps \<Longrightarrow> length es = n \<Longrightarrow> c < n \<Longrightarrow>
      advance p (int c) es reps = Ret False \<Longrightarrow> H c es tr \<Longrightarrow> G c es tr"
  shows "\<exists>s c. loop (client_pass next_phase advance (traced run) (traced_say say) reps) (loop_start p n (w, tr))
      = Some (Ret (s, None)) \<and> phaseExecutions s = map (quota reps) [0..<n] \<and> c < n
    \<and> (G c (map (quota reps) [0..<n]) (snd (world s)) \<or> H c (map (quota reps) [0..<n]) (snd (world s)))"
proof (rule nil_postD, rule phases_rule)
  show "loop_user_inv (traced run) reps n (\<lambda>c es wt. G c es (snd wt)) (\<lambda>c es wt. H c es (snd wt))"
    unfolding loop_user_inv_def
  proof (intro conjI allI impI)
    fix c es and wt :: "'w \<times> int list"
    assume a: "length es = n" "c < n" "within_quota reps es" "es ! c < GetRepeat reps (int c)" "G c es (snd wt)"
    from step[OF a] traced_ok[OF assms(3), of wt "int c"]
    show "\<exists>w' err. traced run wt (int c) = Ret (w', err) \<and> (err = None \<or> err = Some EDeadlineExceeded)
        \<and> H c (es[c := es ! c + 1]) (snd w')" by fastforce
  qed (use go stay in blast)+
qed (use assms in auto)

end

section \<open>Every pattern: each phase its number of times\<close>

definition counted :: "int list \<Rightarrow> int list \<Rightarrow> bool" where
  "counted es tr \<longleftrightarrow> (\<forall>i<length es. int (count_list tr (int i)) = es ! i) \<and> set tr \<subseteq> int ` {..<length es}"

lemma counted_step: "counted es tr \<Longrightarrow> c < length es \<Longrightarrow> counted (es[c := es ! c + 1]) (tr @ [int c])"
  by (auto simp: counted_def nth_list_update)

text \<open>
  C5. The phase loop of the client stops for every pattern (a pattern name it does not know
  runs as a sequence), with no error, when every execution of a phase ends well or at its time
  limit: it has then executed phase \<open>i\<close> exactly as often as its repeat count says (not at all
  when that is not positive), and nothing else.
\<close>

theorem run_phases_exact:
  assumes "0 < n" and "phase_ok run"
  shows "\<exists>s. run_phases (traced run) (traced_say say) reps (NewPatternExecutor g pattern (int n)) n (w, [])
      = Some (Ret (s, None))
    \<and> phaseExecutions s = map (quota reps) [0..<n]
    \<and> (\<forall>i<n. int (count_list (snd (world s)) (int i)) = quota reps i)
    \<and> set (snd (world s)) \<subseteq> int ` {..<n}"
proof -
  have wf: "wf_executor (NewPatternExecutor g pattern (int n)) 0 (replicate n 0) reps"
    using wf_NewPatternExecutor[of g pattern "replicate n 0" reps] by simp
  have "\<exists>s c. run_phases (traced run) (traced_say say) reps (NewPatternExecutor g pattern (int n)) n (w, [])
      = Some (Ret (s, None)) \<and> phaseExecutions s = map (quota reps) [0..<n] \<and> c < n
    \<and> (counted (map (quota reps) [0..<n]) (snd (world s)) \<or> counted (map (quota reps) [0..<n]) (snd (world s)))"
    unfolding run_phases_def
    by (rule ex.traced_rule[where G = "\<lambda>c. counted" and H = "\<lambda>c. counted", OF assms(1) wf assms(2)])
      (auto simp: counted_step counted_def[of "replicate n 0"])
  then show ?thesis by (fastforce simp: counted_def)
qed

definition two_phases :: PhaseRepeats where
  "two_phases = SetRepeat (SetRepeat (NewPhaseRepeats 1) 0 2) 1 3"

definition idle_run :: "unit \<Rightarrow> int \<Rightarrow> (unit \<times> gerror option) outcome" where
  "idle_run w c = Ret ((), Some EDeadlineExceeded)"

lemma idle_run_ok: "phase_ok idle_run"
  by (simp add: phase_ok_def idle_run_def)

lemma two_phases_quota: "quota two_phases 0 = 2" "quota two_phases (Suc 0) = 3"
  by (simp_all add: quota_def two_phases_def)

theorem run_phases_exact_witness:
  "\<exists>s. run_phases (traced idle_run) (traced_say (\<lambda>m w. w)) two_phases
      (NewPatternExecutor \<lparr>draws = (\<lambda>k. k), pos = 0\<rparr> ''random'' 2) 2 ((), []) = Some (Ret (s, None))
    \<and> phaseExecutions s = [2, 3]"
proof -
  have "0 < (2::nat)" by simp
  from run_phases_exact[OF this idle_run_ok, of "\<lambda>m w. w" two_phases
      "\<lparr>draws = (\<lambda>k. k), pos = 0\<rparr>" "''random''" "()"]
  show ?thesis by (auto simp: two_phases_quota numeral_2_eq_2)
qed

section \<open>The sequence pattern: one phase after the other\<close>

definition phase_blocks :: "int list \<Rightarrow> int list" where
  "phase_blocks es = concat (map (\<lambda>i. replicate (nat (es ! i)) (int i)) [0..<length es])"

lemma phase_blocks_step:
  assumes "c < length es" "0 \<le> es ! c" "\<And>i. c < i \<Longrightarrow> i < length es \<Longrightarrow> es ! i = 0"
  shows "phase_blocks (es[c := es ! c + 1]) = phase_blocks es @ [int c]"
proof -
  let ?f = "\<lambda>es i. replicate (nat (es ! i)) (int i)"
  have split: "[0..<length es] = [0..<c] @ c # [Suc c..<length es]"
    using assms(1) upt_add_eq_append[of 0 c "length es - c"] by (simp add: upt_conv_Cons)
  have zero: "concat (map (?f xs) [Suc c..<length es]) = []"
    if "\<And>i. c < i \<Longrightarrow> i < length es \<Longrightarrow> xs ! i = 0" for xs
    using that by (auto simp: Suc_le_eq)
  have low: "map (?f (es[c := es ! c + 1])) [0..<c] = map (?f es) [0..<c]"
    by auto
  have dec: "phase_blocks xs = concat (map (?f xs) [0..<c]) @ ?f xs c @ concat (map (?f xs) [Suc c..<length es])"
    if "length xs = length es" for xs
    unfolding phase_blocks_def that split by simp
  have "?f (es[c := es ! c + 1]) c = ?f es c @ [int c]"
    using assms(1,2) by (simp add: nat_add_distrib replicate_append_same)
  moreover have "concat (map (?f (es[c := es ! c + 1])) [Suc c..<length es]) = []"
    using assms(3) by (intro zero) simp
  ultimately show ?thesis
    using dec[of es] dec[of "es[c := es ! c + 1]"] zero[OF assms(3)] low by simp
qed

text \<open>
  C19. The sequence pattern executes all repeats of the first phase, then all of the second,
  and so on: the executed phases are the blocks of repeats in plan order.
\<close>

theorem sequence_runs_in_order:
  assumes "0 < n" and "phase_ok run"
  shows "\<exists>s. run_phases (traced run) (traced_say say) reps (NewPatternExecutor g PatternSequence (int n)) n (w, [])
      = Some (Ret (s, None))
    \<and> snd (world s) = concat (map (\<lambda>i. replicate (nat (GetRepeat reps (int i))) (int i)) [0..<n])"
proof -
  define G where "G c es tr \<longleftrightarrow> tr = phase_blocks es \<and> (\<forall>i. c < i \<longrightarrow> i < n \<longrightarrow> es ! i = 0)"
    for c :: nat and es :: "int list" and tr
  have wf: "is_sequence (NewPatternExecutor g PatternSequence (int n))
      \<and> wf_executor (NewPatternExecutor g PatternSequence (int n)) 0 (replicate n 0) reps"
    using wf_NewPatternExecutor[of g PatternSequence "replicate n 0" reps]
    by (simp add: NewPatternExecutor_def)
  have "\<exists>s c. run_phases (traced run) (traced_say say) reps (NewPatternExecutor g PatternSequence (int n)) n (w, [])
      = Some (Ret (s, None)) \<and> phaseExecutions s = map (quota reps) [0..<n] \<and> c < n
    \<and> (G c (map (quota reps) [0..<n]) (snd (world s)) \<or> G c (map (quota reps) [0..<n]) (snd (world s)))"
    unfolding run_phases_def
  proof (rule exseq.traced_rule[where G = G and H = G, OF assms(1) wf assms(2)])
    fix c es tr
    assume "length es = n" "c < n" "within_quota reps es" "es ! c < GetRepeat reps (int c)" "G c es tr"
    then show "G c (es[c := es ! c + 1]) (tr @ [int c])"
      by (auto simp: G_def phase_blocks_step within_quota_def)
  next
    fix p p' c j es tr
    assume "is_sequence p \<and> wf_executor p c es reps" "length es = n" "c < n"
      and "NextPhase p (int c) es reps = Ret (p', int j)"
      and g: "(G c es tr \<and> GetRepeat reps (int c) \<le> es ! c) \<or>
        (G c es tr \<and> ShouldAdvancePhase p (int c) es reps = Ret True)"
    then have "c \<le> j"
      by (cases p) (auto simp: go_simps wf_sequence_def Sequence_NextPhase_eq split: if_splits)
    with g show "G j es tr" by (auto simp: G_def)
  qed (auto simp: G_def phase_blocks_def)
  moreover have "phase_blocks (map (quota reps) [0..<n])
      = concat (map (\<lambda>i. replicate (nat (GetRepeat reps (int i))) (int i)) [0..<n])"
    unfolding phase_blocks_def by (intro arg_cong[of _ _ concat] map_cong) (auto simp: quota_def max_def)
  ultimately show ?thesis by (auto simp: G_def)
qed

theorem sequence_runs_in_order_witness:
  "\<exists>s. run_phases (traced idle_run) (traced_say (\<lambda>m w. w)) two_phases
      (NewPatternExecutor \<lparr>draws = (\<lambda>k. k), pos = 0\<rparr> PatternSequence 2) 2 ((), []) = Some (Ret (s, None))
    \<and> snd (world s) = [0, 0, 1, 1, 1]"
proof -
  have "0 < (2::nat)" by simp
  from sequence_runs_in_order[OF this idle_run_ok, of "\<lambda>m w. w" two_phases
      "\<lparr>draws = (\<lambda>k. k), pos = 0\<rparr>" "()"]
  show ?thesis by (simp add: two_phases_def numeral_2_eq_2 numeral_3_eq_3)
qed

section \<open>The cycle pattern: round robin over the open phases\<close>

definition rounds :: "PhaseRepeats \<Rightarrow> nat \<Rightarrow> nat \<Rightarrow> int list" where
  "rounds r n k = concat (map (\<lambda>t. map int (filter (\<lambda>i. int t < GetRepeat r (int i)) [0..<n])) [0..<k])"

lemma rounds_0 [simp]: "rounds r n 0 = []"
  by (simp add: rounds_def)

lemma rounds_Suc:
  "rounds r n (Suc k) = rounds r n k @ map int (filter (\<lambda>i. int k < GetRepeat r (int i)) [0..<n])"
  by (simp add: rounds_def)

lemma rounds_enough:
  assumes "\<And>i. i < n \<Longrightarrow> GetRepeat r (int i) \<le> int k"
  shows "rounds r n (k + d) = rounds r n k"
proof (induction d)
  case (Suc d)
  have "filter (\<lambda>i. int (k + d) < GetRepeat r (int i)) [0..<n] = []"
    using assms by (fastforce simp: filter_empty_conv not_less)
  with Suc show ?case by (simp add: rounds_Suc)
qed simp

text \<open>In round \<open>k\<close>, the phases below \<open>c\<close> have had their turn.\<close>

definition in_round :: "PhaseRepeats \<Rightarrow> nat \<Rightarrow> nat \<Rightarrow> nat \<Rightarrow> int list \<Rightarrow> int list \<Rightarrow> bool" where
  "in_round r n k c es tr \<longleftrightarrow>
     tr = rounds r n k @ map int (filter (\<lambda>i. int k < GetRepeat r (int i)) [0..<c]) \<and>
     (\<forall>i<n. es ! i = (if i < c then min (quota r i) (int k + 1) else min (quota r i) (int k)))"

lemma in_round_step:
  assumes "in_round r n k c es tr" "c < n" "length es = n" "es ! c < GetRepeat r (int c)"
  shows "in_round r n k (Suc c) (es[c := es ! c + 1]) (tr @ [int c])"
proof -
  have "es ! c = int k" "int k < GetRepeat r (int c)"
    using assms by (auto simp: in_round_def quota_def min_def max_def split: if_splits)
  with assms show ?thesis
    by (auto simp: in_round_def nth_list_update less_Suc_eq quota_def)
qed

lemma in_round_skip:
  assumes "in_round r n k c es tr" "c < n" "GetRepeat r (int c) \<le> es ! c"
  shows "in_round r n k (Suc c) es tr"
proof -
  have "quota r c \<le> int k" "es ! c = quota r c"
    using assms by (auto simp: in_round_def quota_def min_def max_def split: if_splits)
  with assms show ?thesis
    by (auto simp: in_round_def less_Suc_eq quota_def)
qed

lemma in_round_wrap: "in_round r n k n es tr \<Longrightarrow> in_round r n (Suc k) 0 es tr"
  by (auto simp: in_round_def rounds_Suc add.commute)

lemma in_round_final:
  assumes "in_round r n k c es tr" "c \<le> n" "es = map (quota r) [0..<n]"
    and M: "\<And>i. i < n \<Longrightarrow> GetRepeat r (int i) \<le> int M"
  shows "tr = rounds r n M"
proof -
  have le: "GetRepeat r (int i) \<le> int k + (if i < c then 1 else 0)" if "i < n" for i
    using assms(1,3) that by (auto simp: in_round_def quota_def min_def max_def split: if_splits)
  have "filter (\<lambda>i. int k < GetRepeat r (int i)) [0..<n] = filter (\<lambda>i. int k < GetRepeat r (int i)) [0..<c]"
  proof -
    have "[0..<n] = [0..<c] @ [c..<n]"
      using assms(2) upt_add_eq_append[of 0 c "n - c"] by simp
    moreover have "GetRepeat r (int i) \<le> int k" if "c \<le> i" "i < n" for i
      using le[OF that(2)] that(1) by simp
    ultimately show ?thesis by (auto simp: filter_empty_conv not_less)
  qed
  then have tr: "tr = rounds r n (Suc k)"
    using assms(1) by (simp add: in_round_def rounds_Suc)
  have "GetRepeat r (int i) \<le> int (Suc k)" if "i < n" for i
    using le[OF that] by (auto split: if_splits)
  then have "rounds r n (Suc k + (M - Suc k)) = rounds r n (Suc k)"
    by (rule rounds_enough)
  moreover have "rounds r n (M + (Suc k - M)) = rounds r n M"
    using M by (rule rounds_enough)
  ultimately show ?thesis
    using tr by (cases "M \<le> Suc k") simp_all
qed

text \<open>
  C18. The cycle pattern goes round the phases: in round \<open>t\<close> it executes, in plan order, every
  phase that repeats more than \<open>t\<close> times, and it stops after the last non-empty round (\<open>M\<close> is
  any bound on the repeat counts; the rounds from the largest count on are empty).
\<close>

theorem cycle_runs_round_robin:
  assumes "0 < n" and "phase_ok run" and M: "\<And>i. i < n \<Longrightarrow> GetRepeat reps (int i) \<le> int M"
  shows "\<exists>s. run_phases (traced run) (traced_say say) reps (NewPatternExecutor g PatternCycle (int n)) n (w, [])
      = Some (Ret (s, None))
    \<and> snd (world s) =
        concat (map (\<lambda>t. map int (filter (\<lambda>i. int t < GetRepeat reps (int i)) [0..<n])) [0..<M])"
proof -
  define G where "G c es tr \<longleftrightarrow> (\<exists>k. in_round reps n k c es tr)" for c es tr
  have wf: "is_cycle (NewPatternExecutor g PatternCycle (int n))
      \<and> wf_executor (NewPatternExecutor g PatternCycle (int n)) 0 (replicate n 0) reps"
    using wf_NewPatternExecutor[of g PatternCycle "replicate n 0" reps]
    by (simp add: NewPatternExecutor_def PatternCycle_def PatternSequence_def)
  have "\<exists>s c. run_phases (traced run) (traced_say say) reps (NewPatternExecutor g PatternCycle (int n)) n (w, [])
      = Some (Ret (s, None)) \<and> phaseExecutions s = map (quota reps) [0..<n] \<and> c < n
    \<and> (G c (map (quota reps) [0..<n]) (snd (world s)) \<or> G (Suc c) (map (quota reps) [0..<n]) (snd (world s)))"
    unfolding run_phases_def
  proof (rule excyc.traced_rule[where G = G and H = "\<lambda>c. G (Suc c)", OF assms(1) wf assms(2)])
    show "G 0 (replicate n 0) []"
      by (auto simp: G_def in_round_def quota_def intro!: exI[of _ 0])
  next
    fix c es tr
    assume "length es = n" "c < n" "within_quota reps es" "es ! c < GetRepeat reps (int c)" "G c es tr"
    then show "G (Suc c) (es[c := es ! c + 1]) (tr @ [int c])"
      by (auto simp: G_def dest: in_round_step)
  next
    fix p p' c j es tr
    assume a: "is_cycle p \<and> wf_executor p c es reps" "length es = n" "c < n" "j < n"
      "NextPhase p (int c) es reps = Ret (p', int j)"
      and g: "(G c es tr \<and> GetRepeat reps (int c) \<le> es ! c) \<or>
        (G (Suc c) es tr \<and> ShouldAdvancePhase p (int c) es reps = Ret True)"
    have j: "j = Suc c mod n"
      using a by (cases p) (auto simp: go_simps wf_cycle_def dest!: Cycle_NextPhase_cases)
    have "G (Suc c) es tr"
      using g a(3) by (auto simp: G_def dest: in_round_skip)
    then show "G j es tr"
      using j a(3) by (cases "Suc c = n") (auto simp: G_def dest: in_round_wrap)
  next
    fix p c es tr
    assume "is_cycle p \<and> wf_executor p c es reps" "ShouldAdvancePhase p (int c) es reps = Ret False"
    then show "G c es tr" by (cases p) (auto simp: Cycle_ShouldAdvancePhase_def)
  qed
  then obtain s c k where s: "run_phases (traced run) (traced_say say) reps
      (NewPatternExecutor g PatternCycle (int n)) n (w, []) = Some (Ret (s, None))"
    and k: "c \<le> n" "in_round reps n k c (map (quota reps) [0..<n]) (snd (world s))"
    by (auto simp: G_def intro: Suc_leI less_imp_le)
  from in_round_final[OF k(2,1) refl M] s show ?thesis by (auto simp: rounds_def)
qed

theorem cycle_runs_round_robin_witness:
  "\<exists>s. run_phases (traced idle_run) (traced_say (\<lambda>m w. w)) two_phases
      (NewPatternExecutor \<lparr>draws = (\<lambda>k. k), pos = 0\<rparr> PatternCycle 2) 2 ((), []) = Some (Ret (s, None))
    \<and> snd (world s) = [0, 1, 0, 1, 1]"
proof -
  have h: "0 < (2::nat)" by simp
  have M: "\<And>i. i < 2 \<Longrightarrow> GetRepeat two_phases (int i) \<le> int 3"
    by (simp add: two_phases_def)
  from cycle_runs_round_robin[OF h idle_run_ok M, of "\<lambda>m w. w"
      "\<lparr>draws = (\<lambda>k. k), pos = 0\<rparr>" "()"]
  show ?thesis by (simp add: two_phases_def numeral_2_eq_2 numeral_3_eq_3)
qed

section \<open>Errors and an empty plan\<close>

text \<open>
  An execution that fails with anything but the time limit ends the command with that
  error: the failed phase is counted, no other phase is looked at.
\<close>

theorem phase_error_stops:
  assumes "currentPhase s = int c" "c < length (phaseExecutions s)"
    and "phaseExecutions s ! c < GetRepeat reps (int c)"
    and "run (world s) (int c) = Ret (w', Some err)" and "err \<noteq> EDeadlineExceeded"
  shows "loop (client_pass NextPhase ShouldAdvancePhase run say reps) s
    = Some (Ret (s\<lparr>world := w', phaseExecutions := (phaseExecutions s)[c := phaseExecutions s ! c + 1]\<rparr>, Some err))"
  using assms by (intro loop_Stop) (simp add: client_pass_def Let_def)

theorem phase_error_stops_witness:
  "\<exists>s'. loop (client_pass NextPhase ShouldAdvancePhase (\<lambda>w c. Ret (w + 1, Some (EText ''Setup''))) (\<lambda>m w. w) (NewPhaseRepeats 5))
      (loop_start (SequencePattern 2) 2 (0::int)) = Some (Ret (s', Some (EText ''Setup'')))
    \<and> phaseExecutions s' = [1, 0] \<and> world s' = 1"
proof -
  let ?s = "loop_start (SequencePattern 2) 2 (0::int)"
  have h: "currentPhase ?s = int 0" "0 < length (phaseExecutions ?s)"
    "phaseExecutions ?s ! 0 < GetRepeat (NewPhaseRepeats 5) (int 0)"
    by (simp_all add: loop_start_def)
  show ?thesis
    by (subst phase_error_stops[OF h, of _ "1" "EText ''Setup''"])
      (auto simp: loop_start_def numeral_2_eq_2)
qed

text \<open>
  A plan without phases is not caught anywhere: the loop reads \<^verbatim>\<open>phaseExecutions[0]\<close>
  before anything else and the command panics.
\<close>

theorem empty_plan_panics: "run_phases run say reps p 0 w = Some (Panic IndexOutOfRange)"
  unfolding run_phases_def by (intro loop_Stop) (simp add: client_pass_def loop_start_def)

end
