(* ===== verification/GoValue.thy ===== *)
theory GoValue
  imports Prelude Complex_Main
begin

text \<open>
  \<^verbatim>\<open>pkg/utils.go\<close> over dynamic values: \<open>Convert\<close>, which turns the
  \<^verbatim>\<open>map[interface{}]interface{}\<close> nodes that \<^verbatim>\<open>yaml.v2\<close> makes into \<^verbatim>\<open>map[string]interface{}\<close>,
  and the two directions between a config struct and a dynamic map, \<open>ParseConfig\<close> and
  \<open>ConfigToMap\<close>, both of which go through \<^verbatim>\<open>encoding/json\<close>. Of that package the theory
  models what the source uses: marshalling of dynamic values (map keys sorted, maps with
  non-string key type and non-finite floats refused) and unmarshalling into a struct (fields
  found by tag, then case-insensitively; unknown keys ignored; \<^verbatim>\<open>null\<close> leaves a field alone)
  or into \<^verbatim>\<open>interface{}\<close> (every number a \<^verbatim>\<open>float64\<close>). A Go map is an association list.
\<close>

section \<open>Dynamic values\<close>

datatype gval =
    GNil
  | GBool bool
  | GInt int
  | GFloat rat
  | GBadFloat
  | GStr string
  | GList "gval list"
  | GMapS "(string \<times> gval) list"
  | GMapA "(gval \<times> gval) list"

type_synonym gmap = "(string \<times> gval) list"

text \<open>
  \<^verbatim>\<open>Convert\<close>. The key assertion \<^verbatim>\<open>k.(string)\<close> panics on any other key. The source writes the
  converted elements of a slice back into that slice; \<open>Convert_plain\<close> shows that converting
  again changes nothing, so the shared slice is not observed.
\<close>

fun Convert :: "gval \<Rightarrow> gval outcome"
  and Convert_mapS :: "(string \<times> gval) list \<Rightarrow> (string \<times> gval) list outcome"
  and Convert_mapA :: "(gval \<times> gval) list \<Rightarrow> (string \<times> gval) list outcome"
  and Convert_list :: "gval list \<Rightarrow> gval list outcome" where
  "Convert (GMapS x) = obind (Convert_mapS x) (\<lambda>m2. Ret (GMapS m2))"
| "Convert (GMapA x) = obind (Convert_mapA x) (\<lambda>m2. Ret (GMapS m2))"
| "Convert (GList x) = obind (Convert_list x) (\<lambda>x'. Ret (GList x'))"
| "Convert v = Ret v"
| "Convert_mapS [] = Ret []"
| "Convert_mapS ((k, v) # x) =
     obind (Convert v) (\<lambda>v'. obind (Convert_mapS x) (\<lambda>m2. Ret ((k, v') # m2)))"
| "Convert_mapA [] = Ret []"
| "Convert_mapA ((k, v) # x) =
     (case k of
        GStr s \<Rightarrow> obind (Convert v) (\<lambda>v'. obind (Convert_mapA x) (\<lambda>m2. Ret ((s, v') # m2)))
      | _ \<Rightarrow> Panic TypeAssertion)"
| "Convert_list [] = Ret []"
| "Convert_list (v # x) = obind (Convert v) (\<lambda>v'. obind (Convert_list x) (\<lambda>x'. Ret (v' # x')))"

text \<open>Values without a \<^verbatim>\<open>map[interface{}]interface{}\<close>, and values all of whose keys are strings.\<close>

fun plain :: "gval \<Rightarrow> bool" where
  "plain (GMapS x) = (\<forall>kv\<in>set x. plain (snd kv))"
| "plain (GMapA x) = False"
| "plain (GList x) = (\<forall>v\<in>set x. plain v)"
| "plain _ = True"

fun is_GStr :: "gval \<Rightarrow> bool" where
  "is_GStr (GStr s) = True"
| "is_GStr _ = False"

fun string_keyed :: "gval \<Rightarrow> bool" where
  "string_keyed (GMapS x) = (\<forall>kv\<in>set x. string_keyed (snd kv))"
| "string_keyed (GMapA x) = (\<forall>kv\<in>set x. is_GStr (fst kv) \<and> string_keyed (snd kv))"
| "string_keyed (GList x) = (\<forall>v\<in>set x. string_keyed v)"
| "string_keyed _ = True"

lemma is_GStr_iff: "is_GStr k \<longleftrightarrow> (\<exists>s. k = GStr s)"
  by (cases k) auto

lemma Convert_result_plain:
  "Convert v = Ret v' \<Longrightarrow> plain v'"
  "Convert_mapS x = Ret m \<Longrightarrow> plain (GMapS m)"
  "Convert_mapA y = Ret m \<Longrightarrow> plain (GMapS m)"
  "Convert_list z = Ret l \<Longrightarrow> plain (GList l)"
proof (induction v and x and y and z arbitrary: v' and m and m and l
    rule: Convert_Convert_mapS_Convert_mapA_Convert_list.induct)
  case (8 k v x)
  then show ?case by (cases k) (fastforce simp: go_simps)+
qed (fastforce simp: go_simps)+

lemma Convert_plain:
  "plain v \<Longrightarrow> Convert v = Ret v"
  "plain (GMapS x) \<Longrightarrow> Convert_mapS x = Ret x"
  "\<not> plain (GMapA y)"
  "plain (GList z) \<Longrightarrow> Convert_list z = Ret z"
  by (induction v and x and y and z rule: Convert_Convert_mapS_Convert_mapA_Convert_list.induct) auto

lemma Convert_total:
  "string_keyed v \<Longrightarrow> \<exists>v'. Convert v = Ret v'"
  "string_keyed (GMapS x) \<Longrightarrow> \<exists>m. Convert_mapS x = Ret m"
  "string_keyed (GMapA y) \<Longrightarrow> \<exists>m. Convert_mapA y = Ret m"
  "string_keyed (GList z) \<Longrightarrow> \<exists>l. Convert_list z = Ret l"
proof (induction v and x and y and z rule: Convert_Convert_mapS_Convert_mapA_Convert_list.induct)
  case (8 k v x)
  then show ?case by (cases k) fastforce+
qed fastforce+

lemma Convert_panics:
  "\<not> string_keyed v \<Longrightarrow> Convert v = Panic TypeAssertion"
  "\<not> string_keyed (GMapS x) \<Longrightarrow> Convert_mapS x = Panic TypeAssertion"
  "\<not> string_keyed (GMapA y) \<Longrightarrow> Convert_mapA y = Panic TypeAssertion"
  "\<not> string_keyed (GList z) \<Longrightarrow> Convert_list z = Panic TypeAssertion"
proof (induction v and x and y and z rule: Convert_Convert_mapS_Convert_mapA_Convert_list.induct)
  case (8 k v x)
  then show ?case
    using Convert_total(1)[of v] by (cases "string_keyed v"; cases k) auto
next
  case (6 k v x)
  then show ?case using Convert_total(1)[of v] by (cases "string_keyed v") auto
next
  case (10 v x)
  then show ?case using Convert_total(1)[of v] by (cases "string_keyed v") auto
qed auto

section \<open>JSON\<close>

datatype json =
    JNull
  | JBool bool
  | JNum rat
  | JStr string
  | JArr "json list"
  | JObj "(string \<times> json) list"

definition marshal_error :: gerror where
  "marshal_error = EExt ''json: unsupported''"

definition unmarshal_error :: gerror where
  "unmarshal_error = EExt ''json: cannot unmarshal''"

text \<open>\<^verbatim>\<open>json.Marshal\<close> of a dynamic value.\<close>

fun Marshal :: "gval \<Rightarrow> json outcome"
  and Marshal_list :: "gval list \<Rightarrow> json list outcome"
  and Marshal_map :: "(string \<times> gval) list \<Rightarrow> (string \<times> json) list outcome" where
  "Marshal GNil = Ret JNull"
| "Marshal (GBool b) = Ret (JBool b)"
| "Marshal (GInt n) = Ret (JNum (of_int n))"
| "Marshal (GFloat q) = Ret (JNum q)"
| "Marshal GBadFloat = Err marshal_error"
| "Marshal (GStr s) = Ret (JStr s)"
| "Marshal (GList xs) = obind (Marshal_list xs) (\<lambda>js. Ret (JArr js))"
| "Marshal (GMapS x) = obind (Marshal_map x) (\<lambda>kvs. Ret (JObj (sort_key fst kvs)))"
| "Marshal (GMapA x) = Err marshal_error"
| "Marshal_list [] = Ret []"
| "Marshal_list (v # vs) = obind (Marshal v) (\<lambda>j. obind (Marshal_list vs) (\<lambda>js. Ret (j # js)))"
| "Marshal_map [] = Ret []"
| "Marshal_map ((k, v) # x) = obind (Marshal v) (\<lambda>j. obind (Marshal_map x) (\<lambda>kvs. Ret ((k, j) # kvs)))"

text \<open>\<^verbatim>\<open>float64\<close> rounding of a decimal literal: to nearest, ties to even, 53 bits.\<close>

fun bitlen :: "nat \<Rightarrow> nat" where
  "bitlen n = (if n = 0 then 0 else Suc (bitlen (n div 2)))"

declare bitlen.simps [simp del]

definition pow2 :: "int \<Rightarrow> rat" where
  "pow2 e = (if 0 \<le> e then 2 ^ nat e else 1 / 2 ^ nat (- e))"

definition round_even :: "rat \<Rightarrow> int" where
  "round_even x = (let f = \<lfloor>x\<rfloor>; d = x - of_int f in
     if d < 1 / 2 then f else if 1 / 2 < d then f + 1 else if even f then f else f + 1)"

definition f64_exponent :: "rat \<Rightarrow> int" where
  "f64_exponent q =
     (let (a, b) = quotient_of \<bar>q\<bar>; e = int (bitlen (nat a)) - int (bitlen (nat b)) - 53 in
      max (- 1074) (if 2 ^ 53 \<le> \<bar>q\<bar> / pow2 e then e + 1 else e))"

definition f64 :: "rat \<Rightarrow> rat" where
  "f64 q = (if q = 0 then 0
     else sgn q * of_int (round_even (\<bar>q\<bar> / pow2 (f64_exponent q))) * pow2 (f64_exponent q))"

definition max_f64 :: rat where
  "max_f64 = (2 ^ 53 - 1) * 2 ^ 971"

text \<open>\<^verbatim>\<open>json.Unmarshal\<close> into \<^verbatim>\<open>interface{}\<close>; a repeated key overwrites. \<open>None\<close> is a number no \<^verbatim>\<open>float64\<close> holds.\<close>

fun any_of_json :: "json \<Rightarrow> gval option"
  and any_of_list :: "json list \<Rightarrow> gval list option"
  and any_of_obj :: "(string \<times> json) list \<Rightarrow> (string \<times> gval) list \<Rightarrow> (string \<times> gval) list option" where
  "any_of_json JNull = Some GNil"
| "any_of_json (JBool b) = Some (GBool b)"
| "any_of_json (JNum q) = (if \<bar>f64 q\<bar> \<le> max_f64 then Some (GFloat (f64 q)) else None)"
| "any_of_json (JStr s) = Some (GStr s)"
| "any_of_json (JArr js) = (case any_of_list js of None \<Rightarrow> None | Some vs \<Rightarrow> Some (GList vs))"
| "any_of_json (JObj kvs) = (case any_of_obj kvs [] of None \<Rightarrow> None | Some m \<Rightarrow> Some (GMapS m))"
| "any_of_list [] = Some []"
| "any_of_list (j # js) =
     (case any_of_json j of None \<Rightarrow> None
      | Some v \<Rightarrow> (case any_of_list js of None \<Rightarrow> None | Some vs \<Rightarrow> Some (v # vs)))"
| "any_of_obj [] m = Some m"
| "any_of_obj ((k, j) # kvs) m =
     (case any_of_json j of None \<Rightarrow> None | Some v \<Rightarrow> any_of_obj kvs (AList.update k v m))"

text \<open>\<^verbatim>\<open>json.Unmarshal\<close> into a struct, given its fields: tag and setter (\<open>None\<close>: wrong type).\<close>

type_synonym 'r fields = "(string \<times> ('r \<Rightarrow> json \<Rightarrow> 'r option)) list"

definition lower_char :: "char \<Rightarrow> char" where
  "lower_char c = (if CHR ''A'' \<le> c \<and> c \<le> CHR ''Z'' then char_of (of_char c + (32 :: nat)) else c)"

definition fold_case :: "string \<Rightarrow> string" where
  "fold_case s = map lower_char s"

definition find_field :: "'r fields \<Rightarrow> string \<Rightarrow> ('r \<Rightarrow> json \<Rightarrow> 'r option) option" where
  "find_field fs k =
     (case map_of fs k of
        Some f \<Rightarrow> Some f
      | None \<Rightarrow> map_option snd (find (\<lambda>tf. fold_case (fst tf) = fold_case k) fs))"

fun decode_obj :: "'r fields \<Rightarrow> 'r \<Rightarrow> (string \<times> json) list \<Rightarrow> 'r option" where
  "decode_obj fs r [] = Some r"
| "decode_obj fs r ((k, j) # kvs) =
     (case find_field fs k of
        None \<Rightarrow> decode_obj fs r kvs
      | Some put \<Rightarrow> (case put r j of None \<Rightarrow> None | Some r' \<Rightarrow> decode_obj fs r' kvs))"

fun decode_struct :: "'r fields \<Rightarrow> 'r \<Rightarrow> json \<Rightarrow> 'r option" where
  "decode_struct fs r (JObj kvs) = decode_obj fs r kvs"
| "decode_struct fs r JNull = Some r"
| "decode_struct fs r _ = None"

text \<open>Decoding of the field types the source's structs use. \<^verbatim>\<open>null\<close> keeps the old value.\<close>

fun dec_string :: "string \<Rightarrow> json \<Rightarrow> string option" where
  "dec_string old (JStr s) = Some s"
| "dec_string old JNull = Some old"
| "dec_string old _ = None"

fun dec_bool :: "bool \<Rightarrow> json \<Rightarrow> bool option" where
  "dec_bool old (JBool b) = Some b"
| "dec_bool old JNull = Some old"
| "dec_bool old _ = None"

fun dec_int :: "int \<Rightarrow> json \<Rightarrow> int option" where
  "dec_int old (JNum q) = (if q = of_int \<lfloor>q\<rfloor> \<and> is_i64 \<lfloor>q\<rfloor> then Some \<lfloor>q\<rfloor> else None)"
| "dec_int old JNull = Some old"
| "dec_int old _ = None"

fun dec_uint64 :: "64 word \<Rightarrow> json \<Rightarrow> 64 word option" where
  "dec_uint64 old (JNum q) =
     (if q = of_int \<lfloor>q\<rfloor> \<and> 0 \<le> \<lfloor>q\<rfloor> \<and> \<lfloor>q\<rfloor> < 2 ^ 64 then Some (word_of_int \<lfloor>q\<rfloor>) else None)"
| "dec_uint64 old JNull = Some old"
| "dec_uint64 old _ = None"

fun dec_float :: "rat \<Rightarrow> json \<Rightarrow> rat option" where
  "dec_float old (JNum q) = (if \<bar>f64 q\<bar> \<le> max_f64 then Some (f64 q) else None)"
| "dec_float old JNull = Some old"
| "dec_float old _ = None"

text \<open>A nil map and an empty map behave alike for the reads the source makes.\<close>

fun dec_map :: "gmap \<Rightarrow> json \<Rightarrow> gmap option" where
  "dec_map old (JObj kvs) = any_of_obj kvs old"
| "dec_map old JNull = Some []"
| "dec_map old _ = None"

fun dec_any_list :: "gval list \<Rightarrow> json \<Rightarrow> gval list option" where
  "dec_any_list old (JArr js) = any_of_list js"
| "dec_any_list old JNull = Some []"
| "dec_any_list old _ = None"

section \<open>Configs\<close>

text \<open>\<^verbatim>\<open>ParseConfig[T]\<close>, for a struct type given by its fields and zero value.\<close>

definition ParseConfig :: "'r fields \<Rightarrow> 'r \<Rightarrow> gmap \<Rightarrow> 'r outcome" where
  "ParseConfig fs zero data =
     obind (Convert (GMapS data)) (\<lambda>c.
       obind (Marshal c) (\<lambda>jsonString.
         case decode_struct fs zero jsonString of
           None \<Rightarrow> Err unmarshal_error
         | Some s \<Rightarrow> Ret s))"

text \<open>\<^verbatim>\<open>ConfigToMap[T]\<close>, for a struct type given by what \<^verbatim>\<open>json.Marshal\<close> makes of it.\<close>

definition ConfigToMap :: "('r \<Rightarrow> json outcome) \<Rightarrow> 'r \<Rightarrow> gmap outcome" where
  "ConfigToMap enc data =
     obind (enc data) (\<lambda>jsonString.
       case dec_map [] jsonString of
         None \<Rightarrow> Err unmarshal_error
       | Some s \<Rightarrow> Ret s)"

text \<open>Values \<^verbatim>\<open>json.Marshal\<close> accepts once they are converted: no NaN or infinity in them.\<close>

fun finite_floats :: "gval \<Rightarrow> bool" where
  "finite_floats (GMapS x) = (\<forall>kv\<in>set x. finite_floats (snd kv))"
| "finite_floats (GMapA x) = (\<forall>kv\<in>set x. finite_floats (snd kv))"
| "finite_floats (GList x) = (\<forall>v\<in>set x. finite_floats v)"
| "finite_floats GBadFloat = False"
| "finite_floats _ = True"

lemma Convert_finite_floats:
  "Convert v = Ret v' \<Longrightarrow> finite_floats v \<longleftrightarrow> finite_floats v'"
  "Convert_mapS x = Ret m \<Longrightarrow> finite_floats (GMapS x) \<longleftrightarrow> finite_floats (GMapS m)"
  "Convert_mapA y = Ret m \<Longrightarrow> finite_floats (GMapA y) \<longleftrightarrow> finite_floats (GMapS m)"
  "Convert_list z = Ret l \<Longrightarrow> finite_floats (GList z) \<longleftrightarrow> finite_floats (GList l)"
proof (induction v and x and y and z arbitrary: v' and m and m and l
    rule: Convert_Convert_mapS_Convert_mapA_Convert_list.induct)
  case (8 k v x)
  then show ?case by (cases k) (fastforce simp: go_simps)+
qed (fastforce simp: go_simps)+

lemma Marshal_total:
  "plain v \<Longrightarrow> finite_floats v \<Longrightarrow> \<exists>j. Marshal v = Ret j"
  "plain (GList vs) \<Longrightarrow> finite_floats (GList vs) \<Longrightarrow> \<exists>js. Marshal_list vs = Ret js"
  "plain (GMapS x) \<Longrightarrow> finite_floats (GMapS x) \<Longrightarrow> \<exists>kvs. Marshal_map x = Ret kvs"
  by (induction v and vs and x rule: Marshal_Marshal_list_Marshal_map.induct) fastforce+

lemma Marshal_fails:
  "\<not> (plain v \<and> finite_floats v) \<Longrightarrow> Marshal v = Err marshal_error"
  "\<not> (plain (GList vs) \<and> finite_floats (GList vs)) \<Longrightarrow> Marshal_list vs = Err marshal_error"
  "\<not> (plain (GMapS x) \<and> finite_floats (GMapS x)) \<Longrightarrow> Marshal_map x = Err marshal_error"
proof (induction v and vs and x rule: Marshal_Marshal_list_Marshal_map.induct)
  case (11 v vs)
  then show ?case using Marshal_total(1)[of v] by (cases "plain v \<and> finite_floats v") auto
next
  case (13 k v x)
  then show ?case using Marshal_total(1)[of v] by (cases "plain v \<and> finite_floats v") auto
qed auto

text \<open>
  C40. \<^verbatim>\<open>Convert\<close> followed by \<^verbatim>\<open>json.Marshal\<close>, the way every config and every phase of a plan
  goes on the wire: it succeeds exactly on values whose map keys are all strings and whose
  floats are finite; a non-string key is a panic (from \<^verbatim>\<open>k.(string)\<close>), a non-finite float an
  error.
\<close>

theorem convert_then_marshal:
  "(obind (Convert v) Marshal = Panic TypeAssertion \<longleftrightarrow> \<not> string_keyed v)
    \<and> (obind (Convert v) Marshal = Err marshal_error \<longleftrightarrow> string_keyed v \<and> \<not> finite_floats v)
    \<and> ((\<exists>j. obind (Convert v) Marshal = Ret j) \<longleftrightarrow> string_keyed v \<and> finite_floats v)"
proof -
  consider (key) "\<not> string_keyed v" | (conv) v' where "string_keyed v" "Convert v = Ret v'"
    using Convert_total(1) by blast
  then show ?thesis
  proof cases
    case key
    then show ?thesis by (simp add: Convert_panics)
  next
    case conv
    then have "plain v'" "finite_floats v \<longleftrightarrow> finite_floats v'"
      using Convert_result_plain(1) Convert_finite_floats(1) by auto
    with conv Marshal_total(1)[of v'] Marshal_fails(1)[of v'] show ?thesis
      by (cases "finite_floats v'") auto
  qed
qed

text \<open>
  Without \<^verbatim>\<open>Convert\<close> nothing below the top of a YAML document could be sent: a value that
  still holds a \<^verbatim>\<open>map[interface{}]interface{}\<close> is refused by \<^verbatim>\<open>json.Marshal\<close>; what \<^verbatim>\<open>Convert\<close>
  returns holds none, and converting it again changes nothing.
\<close>

theorem convert_normalises:
  "(\<forall>v'. Convert v = Ret v' \<longrightarrow> plain v' \<and> Convert v' = Ret v')
    \<and> (\<not> plain v \<longrightarrow> Marshal v = Err marshal_error)"
  using Convert_result_plain(1) Convert_plain(1) Marshal_fails(1) by blast

theorem convert_normalises_witness:
  "plain (GMapS [(''a'', GMapS [(''b'', GInt 1)])])
    \<and> Marshal (GMapS [(''a'', GMapA [(GStr ''b'', GInt 1)])]) = Err marshal_error"
  using convert_normalises[of "GMapS [(''a'', GMapA [(GStr ''b'', GInt 1)])]"] by simp

end
