(* ===== verification/GoDuration.thy ===== *)
theory GoDuration
  imports GoValue
begin

text \<open>
  Durations: the constants of \<^verbatim>\<open>pkg/constants.go\<close>, the JSON form of \<^verbatim>\<open>pkg.Duration\<close>
  (\<^verbatim>\<open>pkg/utils.go\<close>), and what these need of the \<^verbatim>\<open>time\<close> package, \<^verbatim>\<open>Duration.String\<close> and
  \<^verbatim>\<open>ParseDuration\<close>. A duration is a number of nanoseconds. The main result is that parsing
  the printed form gives the duration back, so a config survives the trip through
  \<^verbatim>\<open>ConfigToMap\<close> and \<^verbatim>\<open>ParseConfig\<close>.

  \<^verbatim>\<open>ParseDuration\<close> computes a fraction in floating point; the model computes it exactly and
  truncates. The two agree whenever the unit divided by the scale of the fraction is a whole
  number, so in particular on everything \<^verbatim>\<open>String\<close> prints.
\<close>

section \<open>Constants\<close>

definition Second :: int where "Second = 1000000000"
definition Minute :: int where "Minute = 60 * Second"
definition Hour :: int where "Hour = 60 * Minute"
definition MinPhaseDuration :: int where "MinPhaseDuration = 60 * Second"
definition MaxPhaseDuration :: int where "MaxPhaseDuration = 28 * 24 * Hour"

lemma MinPhaseDuration_eq [simp]: "MinPhaseDuration = 60000000000"
  by (simp add: MinPhaseDuration_def Second_def)

lemma MaxPhaseDuration_eq [simp]: "MaxPhaseDuration = 2419200000000000"
  by (simp add: MaxPhaseDuration_def Hour_def Minute_def Second_def)

section \<open>Printing\<close>

text \<open>\<^verbatim>\<open>fmtFrac\<close>: the last \<open>p\<close> digits as a fraction, without trailing zeros.\<close>

fun fmt_frac :: "nat \<Rightarrow> nat \<Rightarrow> bool \<Rightarrow> string \<Rightarrow> string \<times> nat" where
  "fmt_frac 0 v pr acc = (if pr then CHR ''.'' # acc else acc, v)"
| "fmt_frac (Suc p) v pr acc =
     (let pr' = (pr \<or> v mod 10 \<noteq> 0)
      in fmt_frac p (v div 10) pr' (if pr' then digit_char (v mod 10) # acc else acc))"

lemma fmt_frac_numeral [show_eval]:
  "fmt_frac (numeral k) v pr acc =
     (let pr' = (pr \<or> v mod 10 \<noteq> 0)
      in fmt_frac (pred_numeral k) (v div 10) pr' (if pr' then digit_char (v mod 10) # acc else acc))"
  by (rule fmt_frac.simps(2)[of "pred_numeral k", folded numeral_eq_Suc])

definition micro_sign :: string where
  "micro_sign = [CHR 0xC2, CHR 0xB5]"

definition frac_term :: "nat \<Rightarrow> nat \<Rightarrow> string \<Rightarrow> string" where
  "frac_term p v u = (case fmt_frac p v False [] of (fs, w) \<Rightarrow> show_nat w @ fs @ u)"

definition Duration_String :: "int \<Rightarrow> string" where
  "Duration_String d =
     (let u = nat \<bar>d\<bar>;
          s = (if u = 0 then ''0s''
               else if u < 1000 then frac_term 0 u ''ns''
               else if u < 1000000 then frac_term 3 u (micro_sign @ ''s'')
               else if u < 1000000000 then frac_term 6 u ''ms''
               else
                 (let ns = u mod 60000000000; secs = frac_term 9 ns ''s''; mins = u div 60000000000
                  in if mins = 0 then secs
                     else if mins div 60 = 0 then show_nat mins @ ''m'' @ secs
                     else show_nat (mins div 60) @ ''h'' @ show_nat (mins mod 60) @ ''m'' @ secs))
      in if d < 0 then CHR ''-'' # s else s)"

section \<open>Parsing\<close>

definition is_digit :: "char \<Rightarrow> bool" where
  "is_digit c \<longleftrightarrow> 48 \<le> (of_char c :: nat) \<and> (of_char c :: nat) \<le> 57"

definition digit_val :: "char \<Rightarrow> nat" where
  "digit_val c = of_char c - 48"

fun leading_int :: "nat \<Rightarrow> string \<Rightarrow> (nat \<times> string) option" where
  "leading_int x [] = Some (x, [])"
| "leading_int x (c # s) =
     (if \<not> is_digit c then Some (x, c # s)
      else if x > 2 ^ 63 div 10 then None
      else let x' = x * 10 + digit_val c in if x' > 2 ^ 63 then None else leading_int x' s)"

fun leading_fraction :: "nat \<Rightarrow> nat \<Rightarrow> bool \<Rightarrow> string \<Rightarrow> nat \<times> nat \<times> string" where
  "leading_fraction x scale ovf [] = (x, scale, [])"
| "leading_fraction x scale ovf (c # s) =
     (if \<not> is_digit c then (x, scale, c # s)
      else if ovf then leading_fraction x scale True s
      else if x > (2 ^ 63 - 1) div 10 then leading_fraction x scale True s
      else let y = x * 10 + digit_val c in
        if y > 2 ^ 63 then leading_fraction x scale True s
        else leading_fraction y (scale * 10) False s)"

definition unit_char :: "char \<Rightarrow> bool" where
  "unit_char c \<longleftrightarrow> c \<noteq> CHR ''.'' \<and> \<not> is_digit c"

definition unit_map :: "(string \<times> nat) list" where
  "unit_map = [(''ns'', 1), (''us'', 1000), (micro_sign @ ''s'', 1000),
     ([CHR 0xCE, CHR 0xBC] @ ''s'', 1000),
     (''ms'', 1000000), (''s'', 1000000000), (''m'', 60000000000), (''h'', 3600000000000)]"

lemma leading_int_length: "leading_int x s = Some (v, s') \<Longrightarrow> length s' \<le> length s"
  by (induction x s rule: leading_int.induct) (auto simp: Let_def split: if_splits)

lemma leading_fraction_length: "leading_fraction x sc b s = (f, sc', s') \<Longrightarrow> length s' \<le> length s"
  by (induction x sc b s rule: leading_fraction.induct) (auto simp: Let_def split: if_splits)

text \<open>One number: integer part, fraction, scale, rest, and whether any digit was there.\<close>

definition parse_number :: "string \<Rightarrow> (nat \<times> nat \<times> nat \<times> string \<times> bool) option" where
  "parse_number s =
     (case leading_int 0 s of
        None \<Rightarrow> None
      | Some (v, s1) \<Rightarrow>
          (case s1 of
             [] \<Rightarrow> Some (v, 0, 1, s1, length s1 \<noteq> length s)
           | c # s2 \<Rightarrow>
               if c = CHR ''.'' then
                 (case leading_fraction 0 1 False s2 of
                    (f, scale, s3) \<Rightarrow>
                      Some (v, f, scale, s3, length s1 \<noteq> length s \<or> length s3 \<noteq> length s2))
               else Some (v, 0, 1, s1, length s1 \<noteq> length s)))"

lemma parse_number_length:
  assumes "parse_number s = Some (v, f, sc, s', b)"
  shows "length s' \<le> length s"
proof (cases "leading_int 0 s")
  case (Some p)
  obtain w s1 where p: "p = (w, s1)" by (cases p)
  with Some have len: "length s1 \<le> length s" by (simp add: leading_int_length)
  show ?thesis
  proof (cases s1)
    case (Cons c s2)
    obtain g k s3 where fr: "leading_fraction 0 1 False s2 = (g, k, s3)"
      by (cases "leading_fraction 0 1 False s2")
    show ?thesis
      using assms len leading_fraction_length[OF fr]
      by (auto simp: parse_number_def Some p Cons fr[simplified] split: if_splits)
  qed (use assms len in \<open>simp add: parse_number_def Some p\<close>)
qed (use assms in \<open>simp add: parse_number_def\<close>)

lemma dropWhile_shorter: "takeWhile P s \<noteq> [] \<Longrightarrow> length (dropWhile P s) < length s"
  by (cases s) (auto intro: le_imp_less_Suc length_dropWhile_le split: if_splits)

function parse_terms :: "nat \<Rightarrow> string \<Rightarrow> nat option" where
  "parse_terms d s =
     (if s = [] then Some d
      else if \<not> (hd s = CHR ''.'' \<or> is_digit (hd s)) then None
      else
        (case parse_number s of
           None \<Rightarrow> None
         | Some (v, f, scale, s', has_digit) \<Rightarrow>
             if \<not> has_digit then None
             else if takeWhile unit_char s' = [] then None
             else
               (case map_of unit_map (takeWhile unit_char s') of
                  None \<Rightarrow> None
                | Some unit \<Rightarrow>
                    if v > 2 ^ 63 div unit then None
                    else
                      (let v' = v * unit + (if f > 0 then f * unit div scale else 0) in
                       if f > 0 \<and> v' > 2 ^ 63 then None
                       else
                         (let d' = (d + v') mod 2 ^ 64 in
                          if d' > 2 ^ 63 then None
                          else parse_terms d' (dropWhile unit_char s'))))))"
  by pat_completeness auto
termination
proof (relation "measure (\<lambda>(d, s). length s)")
  fix d s :: "_" and x :: "nat \<times> nat \<times> nat \<times> string \<times> bool" and v y f ya scale yb s' has_digit
  show "wf (measure (\<lambda>(d :: nat, s :: string). length s))" by simp
next
  fix d s x v y f ya scale yb s' has_digit unit v' d'
  assume "parse_number s = Some x" "(v, y) = x" "(f, ya) = y" "(scale, yb) = ya" "(s', has_digit) = yb"
    and "takeWhile unit_char s' \<noteq> []"
  then have "length s' \<le> length s" "length (dropWhile unit_char s') < length s'"
    using parse_number_length[of s v f scale s' has_digit] dropWhile_shorter by auto
  then show "((d', dropWhile unit_char s'), d, s) \<in> measure (\<lambda>(d, s). length s)" by simp
qed

declare parse_terms.simps [simp del]

definition duration_error :: gerror where
  "duration_error = EExt ''time: invalid duration''"

definition ParseDuration :: "string \<Rightarrow> int outcome" where
  "ParseDuration orig =
     (let neg = (orig \<noteq> [] \<and> hd orig = CHR ''-'');
          s = (if orig \<noteq> [] \<and> (hd orig = CHR ''-'' \<or> hd orig = CHR ''+'') then tl orig else orig)
      in if s = ''0'' then Ret 0
         else if s = [] then Err duration_error
         else
           (case parse_terms 0 s of
              None \<Rightarrow> Err duration_error
            | Some d \<Rightarrow>
                if neg then Ret (i64 (- int d))
                else if d > 2 ^ 63 - 1 then Err duration_error
                else Ret (int d)))"

section \<open>Round trip\<close>

definition digits :: "string \<Rightarrow> bool" where
  "digits ds \<longleftrightarrow> (\<forall>c\<in>set ds. is_digit c)"

definition digits_val :: "nat \<Rightarrow> string \<Rightarrow> nat" where
  "digits_val x ds = foldl (\<lambda>x c. x * 10 + digit_val c) x ds"

lemma digits_val_Nil [simp]: "digits_val x [] = x"
  by (simp add: digits_val_def)

lemma digits_val_Cons [simp]: "digits_val x (c # ds) = digits_val (x * 10 + digit_val c) ds"
  by (simp add: digits_val_def)

lemma digits_val_snoc [simp]: "digits_val x (ds @ [c]) = digits_val x ds * 10 + digit_val c"
  by (simp add: digits_val_def)

lemma digits_val_ge: "x * 10 ^ length ds \<le> digits_val x ds"
proof (induction ds arbitrary: x)
  case (Cons c ds)
  have "x * 10 ^ length (c # ds) \<le> (x * 10 + digit_val c) * 10 ^ length ds"
    by (simp add: algebra_simps)
  also have "\<dots> \<le> digits_val (x * 10 + digit_val c) ds" by (rule Cons)
  finally show ?case by simp
qed simp

lemma digits_val_ge_start: "x \<le> digits_val x ds"
proof -
  have "x * 1 \<le> x * 10 ^ length ds" by (rule mult_le_mono2) simp
  then have "x * 1 \<le> digits_val x ds" using digits_val_ge by (rule order_trans)
  then show ?thesis by simp
qed

lemma digit_char_props [simp]: "d < 10 \<Longrightarrow> is_digit (digit_char d)" "d < 10 \<Longrightarrow> digit_val (digit_char d) = d"
  by (auto simp: is_digit_def digit_val_def digit_char_def)

lemma show_nat_digits: "digits (show_nat n) \<and> digits_val 0 (show_nat n) = n"
proof (induction n rule: show_nat.induct)
  case (1 n)
  then show ?case by (cases "n < 10") (auto simp: show_nat.simps[of n] digits_def)
qed

definition no_digit_first :: "string \<Rightarrow> bool" where
  "no_digit_first s \<longleftrightarrow> (s = [] \<or> \<not> is_digit (hd s))"

lemma leading_int_digits:
  "digits ds \<Longrightarrow> no_digit_first rest \<Longrightarrow> digits_val x ds \<le> 2 ^ 63 \<Longrightarrow>
    leading_int x (ds @ rest) = Some (digits_val x ds, rest)"
proof (induction ds arbitrary: x)
  case Nil
  then show ?case by (cases rest) (auto simp: no_digit_first_def)
next
  case (Cons c ds)
  have "x * 10 + digit_val c \<le> digits_val (x * 10 + digit_val c) ds"
    by (rule digits_val_ge_start)
  with Cons.prems(3) have le: "x * 10 + digit_val c \<le> 2 ^ 63"
    by (simp only: digits_val_Cons)
  then have "\<not> x > 2 ^ 63 div 10" by simp
  with le Cons.prems Cons.IH[of "x * 10 + digit_val c"] show ?case
    by (simp add: digits_def Let_def del: power_numeral)
qed

lemma leading_fraction_digits:
  "digits ds \<Longrightarrow> no_digit_first rest \<Longrightarrow> digits_val x ds < 2 ^ 63 \<Longrightarrow>
    leading_fraction x sc False (ds @ rest) = (digits_val x ds, sc * 10 ^ length ds, rest)"
proof (induction ds arbitrary: x sc)
  case Nil
  then show ?case by (cases rest) (auto simp: no_digit_first_def)
next
  case (Cons c ds)
  have "x * 10 + digit_val c \<le> digits_val (x * 10 + digit_val c) ds"
    by (rule digits_val_ge_start)
  with Cons.prems(3) have le: "x * 10 + digit_val c < 2 ^ 63"
    by (simp only: digits_val_Cons)
  then have "\<not> x > (2 ^ 63 - 1) div 10" by simp
  with le Cons.prems Cons.IH[of "x * 10 + digit_val c" "sc * 10"] show ?case
    by (simp add: digits_def Let_def ac_simps del: power_numeral)
qed

text \<open>What \<^verbatim>\<open>fmtFrac\<close> prints: nothing, or a point and the digits that make up the remainder.\<close>

lemma fmt_frac_print:
  "\<exists>ds. fmt_frac p v True acc = (CHR ''.'' # ds @ acc, v div 10 ^ p) \<and> digits ds \<and> length ds = p
    \<and> digits_val 0 ds = v mod 10 ^ p"
proof (induction p arbitrary: v acc)
  case (Suc p)
  obtain ds where ds: "fmt_frac p (v div 10) True (digit_char (v mod 10) # acc)
      = (CHR ''.'' # ds @ digit_char (v mod 10) # acc, v div 10 div 10 ^ p)"
    "digits ds" "length ds = p" "digits_val 0 ds = v div 10 mod 10 ^ p"
    using Suc.IH[of "v div 10" "digit_char (v mod 10) # acc"] by auto
  have "v mod 10 ^ Suc p = 10 * (v div 10 mod 10 ^ p) + v mod 10"
    using mod_mult2_eq[of v 10 "10 ^ p"] by simp
  with ds show ?case
    by (intro exI[of _ "ds @ [digit_char (v mod 10)]"])
      (simp add: Let_def div_mult2_eq digits_def)
qed (simp add: digits_def)

lemma fmt_frac_cases:
  "(v mod 10 ^ p = 0 \<and> fmt_frac p v False [] = ([], v div 10 ^ p)) \<or>
   (\<exists>ds. fmt_frac p v False [] = (CHR ''.'' # ds, v div 10 ^ p) \<and> digits ds \<and> ds \<noteq> [] \<and> length ds \<le> p
     \<and> 0 < digits_val 0 ds \<and> digits_val 0 ds < 10 ^ length ds
     \<and> digits_val 0 ds * 10 ^ (p - length ds) = v mod 10 ^ p)"
proof (induction p arbitrary: v)
  case (Suc p)
  have m: "v mod 10 ^ Suc p = 10 * (v div 10 mod 10 ^ p) + v mod 10"
    using mod_mult2_eq[of v 10 "10 ^ p"] by simp
  show ?case
  proof (cases "v mod 10 = 0")
    case True
    show ?thesis
      using Suc.IH[of "v div 10"]
    proof
      assume "v div 10 mod 10 ^ p = 0 \<and> fmt_frac p (v div 10) False [] = ([], v div 10 div 10 ^ p)"
      with True m show ?thesis by (simp add: Let_def div_mult2_eq)
    next
      assume "\<exists>ds. fmt_frac p (v div 10) False [] = (CHR ''.'' # ds, v div 10 div 10 ^ p) \<and> digits ds \<and> ds \<noteq> []
        \<and> length ds \<le> p \<and> 0 < digits_val 0 ds \<and> digits_val 0 ds < 10 ^ length ds
        \<and> digits_val 0 ds * 10 ^ (p - length ds) = v div 10 mod 10 ^ p"
      with True m show ?thesis by (auto simp: Let_def div_mult2_eq Suc_diff_le)
    qed
  next
    case False
    obtain ds where ds: "fmt_frac p (v div 10) True [digit_char (v mod 10)]
        = (CHR ''.'' # ds @ [digit_char (v mod 10)], v div 10 div 10 ^ p)"
      "digits ds" "length ds = p" "digits_val 0 ds = v div 10 mod 10 ^ p"
      using fmt_frac_print[of p "v div 10" "[digit_char (v mod 10)]"] by auto
    have "v mod 10 ^ Suc p < 10 ^ Suc p" by simp
    with False m ds show ?thesis
      by (intro disjI2 exI[of _ "ds @ [digit_char (v mod 10)]"])
        (simp add: Let_def div_mult2_eq digits_def)
  qed
qed simp

definition unit_name :: "string \<Rightarrow> nat \<Rightarrow> bool" where
  "unit_name u n \<longleftrightarrow> u \<noteq> [] \<and> (\<forall>c\<in>set u. unit_char c) \<and> map_of unit_map u = Some n"

definition term_end :: "string \<Rightarrow> bool" where
  "term_end rest \<longleftrightarrow> rest = [] \<or> is_digit (hd rest)"

lemma unit_name_units:
  "unit_name ''ns'' 1" "unit_name (micro_sign @ ''s'') 1000" "unit_name ''ms'' 1000000"
  "unit_name ''s'' 1000000000" "unit_name ''m'' 60000000000" "unit_name ''h'' 3600000000000"
  by (simp_all add: unit_name_def unit_map_def unit_char_def is_digit_def micro_sign_def)

lemma unit_name_split:
  assumes "unit_name u n" "term_end rest"
  shows "takeWhile unit_char (u @ rest) = u" "dropWhile unit_char (u @ rest) = rest"
    "no_digit_first (u @ rest)" "hd (u @ rest) \<noteq> CHR ''.''"
proof -
  have r: "takeWhile unit_char rest = []" "dropWhile unit_char rest = rest"
    using assms(2) by (cases rest; simp add: term_end_def unit_char_def)+
  show "takeWhile unit_char (u @ rest) = u" "dropWhile unit_char (u @ rest) = rest"
    using assms(1) r by (simp_all add: unit_name_def takeWhile_append dropWhile_append)
  show "no_digit_first (u @ rest)" "hd (u @ rest) \<noteq> CHR ''.''"
    using assms(1) by (cases u; simp add: unit_name_def no_digit_first_def unit_char_def)+
qed

lemma show_nat_hd: "is_digit (hd (show_nat n @ s))"
  using show_nat_digits[of n] by (cases "show_nat n") (auto simp: digits_def)

lemma parse_number_int:
  assumes "w \<le> 2 ^ 63" "unit_name u n" "term_end rest"
  shows "parse_number (show_nat w @ u @ rest) = Some (w, 0, 1, u @ rest, True)"
proof -
  have "leading_int 0 (show_nat w @ u @ rest) = Some (w, u @ rest)"
    using leading_int_digits[of "show_nat w" "u @ rest" 0] show_nat_digits[of w]
      unit_name_split[OF assms(2,3)] assms(1) by simp
  then show ?thesis
    using unit_name_split(4)[OF assms(2,3)] assms(2)
    by (cases u) (simp_all add: parse_number_def unit_name_def)
qed

lemma parse_number_frac:
  assumes "w \<le> 2 ^ 63" "unit_name u n" "term_end rest" "digits ds" "digits_val 0 ds < 2 ^ 63"
  shows "parse_number (show_nat w @ (CHR ''.'' # ds) @ u @ rest)
    = Some (w, digits_val 0 ds, 10 ^ length ds, u @ rest, True)"
proof -
  have "leading_int 0 (show_nat w @ (CHR ''.'' # ds) @ u @ rest) = Some (w, (CHR ''.'' # ds) @ u @ rest)"
    using leading_int_digits[of "show_nat w" "(CHR ''.'' # ds) @ u @ rest" 0] show_nat_digits[of w] assms(1)
    by (simp add: no_digit_first_def is_digit_def)
  moreover have "leading_fraction 0 1 False (ds @ u @ rest) = (digits_val 0 ds, 10 ^ length ds, u @ rest)"
    using leading_fraction_digits[OF assms(4), of "u @ rest" 0 1] unit_name_split[OF assms(2,3)] assms(5) by simp
  ultimately show ?thesis by (simp add: parse_number_def)
qed

text \<open>One printed term is parsed into its number of nanoseconds.\<close>

lemma parse_terms_step:
  assumes "parse_number s = Some (w, f, scale, u @ rest, True)" "s \<noteq> []" "is_digit (hd s)"
    and u: "unit_name u n" "term_end rest" and "0 < n"
    and x: "x = w * n + (if f > 0 then f * n div scale else 0)" "d + x \<le> 2 ^ 63"
  shows "parse_terms d s = parse_terms (d + x) rest"
proof -
  have w: "\<not> w > 2 ^ 63 div n"
    using x assms(6) by (simp add: not_less less_eq_div_iff_mult_less_eq)
  have m: "(d + x) mod 2 ^ 64 = d + x" "\<not> x > 2 ^ 63" "\<not> d + x > 2 ^ 63"
    using x(2) by auto
  have un: "map_of unit_map u = Some n" "u \<noteq> []" using u(1) by (auto simp: unit_name_def)
  show ?thesis
    using assms(1-3) unit_name_split[OF u] w m un
    by (subst parse_terms.simps) (simp add: Let_def x(1)[symmetric] del: power_numeral)
qed

lemma parse_terms_int:
  assumes "unit_name u n" "term_end rest" "0 < n" "d + w * n \<le> 2 ^ 63"
  shows "parse_terms d (show_nat w @ u @ rest) = parse_terms (d + w * n) rest"
proof -
  have "w \<le> w * n" using assms(3) by simp
  then have "w \<le> 2 ^ 63" using assms(4) by linarith
  from parse_terms_step[OF parse_number_int[OF this assms(1,2)] _ show_nat_hd assms(1-3), of "w * n" d] assms(4)
  show ?thesis by simp
qed

lemma parse_terms_frac:
  assumes u: "unit_name u (10 ^ p)" "term_end rest" and x: "d + x \<le> 2 ^ 63" "p \<le> 9"
  shows "parse_terms d (frac_term p x u @ rest) = parse_terms (d + x) rest"
  using fmt_frac_cases[of x p]
proof
  assume "x mod 10 ^ p = 0 \<and> fmt_frac p x False [] = ([], x div 10 ^ p)"
  then have x0: "x div 10 ^ p * 10 ^ p = x" "frac_term p x u = show_nat (x div 10 ^ p) @ u"
    using div_mult_mod_eq[of x "10 ^ p"] by (auto simp: frac_term_def)
  show ?thesis
    using parse_terms_int[OF u, of d "x div 10 ^ p"] x(1) by (simp add: x0)
next
  assume "\<exists>ds. fmt_frac p x False [] = (CHR ''.'' # ds, x div 10 ^ p) \<and> digits ds \<and> ds \<noteq> [] \<and> length ds \<le> p
    \<and> 0 < digits_val 0 ds \<and> digits_val 0 ds < 10 ^ length ds
    \<and> digits_val 0 ds * 10 ^ (p - length ds) = x mod 10 ^ p"
  then obtain ds where ds: "fmt_frac p x False [] = (CHR ''.'' # ds, x div 10 ^ p)" "digits ds"
    "length ds \<le> p" "0 < digits_val 0 ds" "digits_val 0 ds < 10 ^ length ds"
    "digits_val 0 ds * 10 ^ (p - length ds) = x mod 10 ^ p" by blast
  let ?w = "x div 10 ^ p" and ?f = "digits_val 0 ds"
  have "(10::nat) ^ length ds \<le> 10 ^ 9" using ds(3) x(2) by (intro power_increasing) auto
  with ds(5) have f: "?f < 2 ^ 63" by simp
  have "?w \<le> x" by (rule div_le_dividend)
  then have w: "?w \<le> 2 ^ 63" using x(1) by linarith
  have "(10::nat) ^ p = 10 ^ length ds * 10 ^ (p - length ds)"
    using ds(3) by (simp flip: power_add)
  then have "?f * 10 ^ p div 10 ^ length ds = x mod 10 ^ p"
    using ds(6) by (simp add: mult.left_commute)
  then have "x = ?w * 10 ^ p + (if ?f > 0 then ?f * 10 ^ p div 10 ^ length ds else 0)"
    using ds(4) by (simp only: if_True div_mult_mod_eq)
  from parse_terms_step[OF parse_number_frac[OF w u ds(2) f] _ show_nat_hd u _ this x(1)]
  show ?thesis by (simp add: frac_term_def ds(1))
qed

lemma parse_terms_Nil [simp]: "parse_terms d [] = Some d"
  by (simp add: parse_terms.simps)

lemma frac_term_end: "term_end (frac_term p x u)"
  using show_nat_hd by (auto simp: term_end_def frac_term_def split: prod.splits)

text \<open>The unsigned part of \<^verbatim>\<open>String\<close> is parsed back, whatever branch printed it.\<close>

definition unsigned_string :: "nat \<Rightarrow> string" where
  "unsigned_string u = (if u = 0 then ''0s'' else Duration_String (int u))"

lemma parse_seconds:
  "d + x \<le> 2 ^ 63 \<Longrightarrow> parse_terms d (frac_term 9 x ''s'') = Some (d + x)"
  using parse_terms_frac[of "''s''" 9 "[]" d x] unit_name_units(4) by (simp add: term_end_def)

lemma parse_minutes:
  assumes "d + (m * 60000000000 + x) \<le> 2 ^ 63"
  shows "parse_terms d (show_nat m @ ''m'' @ frac_term 9 x ''s'') = Some (d + (m * 60000000000 + x))"
proof -
  have "parse_terms d (show_nat m @ ''m'' @ frac_term 9 x ''s'')
      = parse_terms (d + m * 60000000000) (frac_term 9 x ''s'')"
    using assms by (intro parse_terms_int unit_name_units frac_term_end) auto
  with parse_seconds[of "d + m * 60000000000" x] assms show ?thesis by simp
qed

lemma parse_hours:
  assumes "h * 3600000000000 + (m * 60000000000 + x) \<le> 2 ^ 63"
  shows "parse_terms 0 (show_nat h @ ''h'' @ show_nat m @ ''m'' @ frac_term 9 x ''s'')
    = Some (h * 3600000000000 + (m * 60000000000 + x))"
proof -
  have "term_end (show_nat m @ ''m'' @ frac_term 9 x ''s'')"
    using show_nat_hd[of m] unfolding term_end_def by blast
  then have "parse_terms 0 (show_nat h @ ''h'' @ show_nat m @ ''m'' @ frac_term 9 x ''s'')
      = parse_terms (0 + h * 3600000000000) (show_nat m @ ''m'' @ frac_term 9 x ''s'')"
    using assms by (intro parse_terms_int unit_name_units) auto
  with parse_minutes[of "h * 3600000000000" m x] assms show ?thesis by simp
qed

lemma hms_sum:
  fixes M :: nat
  shows "M = A * 60 + B \<Longrightarrow> u = M * 60000000000 + ns \<Longrightarrow> A * 3600000000000 + (B * 60000000000 + ns) = u"
  by simp

lemma parse_unsigned:
  assumes "u \<le> 2 ^ 63"
  shows "parse_terms 0 (unsigned_string u) = Some u"
proof -
  let ?ns = "u mod 60000000000" and ?mins = "u div 60000000000"
  have u: "u = ?mins * 60000000000 + ?ns" by (simp only: div_mult_mod_eq)
  have hms: "?mins div 60 * 3600000000000 + (?mins mod 60 * 60000000000 + ?ns) = u"
    by (rule hms_sum[OF div_mult_mod_eq[symmetric] u])
  consider "u = 0" | "0 < u" "u < 1000" | "1000 \<le> u" "u < 1000000" | "1000000 \<le> u" "u < 1000000000"
    | "1000000000 \<le> u" by linarith
  then show ?thesis
  proof cases
    case 1
    moreover have "frac_term 9 0 ''s'' = ''0s''" by code_simp
    ultimately show ?thesis
      using parse_seconds[of 0 0] by (simp add: unsigned_string_def)
  next
    case 2
    then show ?thesis
      using parse_terms_frac[of "''ns''" 0 "[]" 0 u] unit_name_units(1) assms
      by (simp add: unsigned_string_def Duration_String_def term_end_def)
  next
    case 3
    then show ?thesis
      using parse_terms_frac[of "micro_sign @ ''s''" 3 "[]" 0 u] unit_name_units(2) assms
      by (simp add: unsigned_string_def Duration_String_def term_end_def)
  next
    case 4
    then show ?thesis
      using parse_terms_frac[of "''ms''" 6 "[]" 0 u] unit_name_units(3) assms
      by (simp add: unsigned_string_def Duration_String_def term_end_def)
  next
    case 5
    then show ?thesis
      using parse_seconds[of 0 u] parse_minutes[of 0 ?mins ?ns] parse_hours[of "?mins div 60" "?mins mod 60" ?ns]
        u hms assms
      by (simp add: unsigned_string_def Duration_String_def Let_def)
  qed
qed

lemma unsigned_string_hd: "is_digit (hd (unsigned_string u))" "unsigned_string u \<noteq> []"
proof -
  have f: "is_digit (hd (frac_term p x un))" "frac_term p x un \<noteq> []" for p x un
    using show_nat_hd by (auto simp: frac_term_def split: prod.splits)
  have "is_digit (hd (show_nat n))" for n
    using show_nat_hd[of n "[]"] by simp
  with f show "is_digit (hd (unsigned_string u))" "unsigned_string u \<noteq> []"
    by (auto simp: unsigned_string_def Duration_String_def Let_def is_digit_def[of "CHR ''0''"])
qed

lemma Duration_String_unsigned:
  "Duration_String d = (if d < 0 then CHR ''-'' # unsigned_string (nat \<bar>d\<bar>) else unsigned_string (nat \<bar>d\<bar>))"
  by (simp add: Duration_String_def unsigned_string_def Let_def)

lemma ParseDuration_String:
  assumes "is_i64 d"
  shows "ParseDuration (Duration_String d) = Ret d"
proof -
  let ?u = "nat \<bar>d\<bar>" and ?s = "unsigned_string (nat \<bar>d\<bar>)"
  have "\<bar>d\<bar> \<le> 9223372036854775808" using assms by (auto simp: is_i64_def)
  then have p: "parse_terms 0 ?s = Some ?u" by (intro parse_unsigned) simp
  have s: "?s \<noteq> ''0''"
  proof
    assume "?s = ''0''"
    with p show False
      by (simp add: parse_terms.simps[of 0 "''0''"] parse_number_def is_digit_def digit_val_def)
  qed
  have hd: "hd ?s \<noteq> CHR ''-''" "hd ?s \<noteq> CHR ''+''"
    using unsigned_string_hd(1)[of ?u] by (auto simp: is_digit_def)
  show ?thesis
    using p s hd unsigned_string_hd(2)[of ?u] assms
    by (auto simp: ParseDuration_def Duration_String_unsigned Let_def is_i64_def i64_def)
qed

section \<open>The JSON form of a duration\<close>

definition Duration_MarshalJSON :: "int \<Rightarrow> json" where
  "Duration_MarshalJSON d = JStr (Duration_String d)"

text \<open>
  \<^verbatim>\<open>time.Duration(value)\<close> of a \<^verbatim>\<open>float64\<close> truncates towards zero; outside the 64-bit range the
  language leaves the result to the implementation, which is the parameter \<open>oor\<close>.
\<close>

definition trunc_rat :: "rat \<Rightarrow> int" where
  "trunc_rat q = (if q < 0 then - \<lfloor>- q\<rfloor> else \<lfloor>q\<rfloor>)"

definition Duration_UnmarshalJSON :: "(rat \<Rightarrow> int) \<Rightarrow> json \<Rightarrow> int outcome" where
  "Duration_UnmarshalJSON oor b =
     (case any_of_json b of
        None \<Rightarrow> Err unmarshal_error
      | Some (GFloat value) \<Rightarrow>
          Ret (if is_i64 (trunc_rat value) then trunc_rat value else oor value)
      | Some (GStr value) \<Rightarrow> ParseDuration value
      | Some _ \<Rightarrow> Err (EText ''invalid duration''))"

text \<open>
  C39. \<^verbatim>\<open>pkg.Duration\<close> survives its JSON form: whatever 64-bit duration is marshalled, negative
  or with a fraction, unmarshalling the text gives the same number of nanoseconds.
\<close>

theorem duration_json_roundtrip:
  assumes "is_i64 d"
  shows "Duration_UnmarshalJSON oor (Duration_MarshalJSON d) = Ret d"
  using ParseDuration_String[OF assms]
  by (simp add: Duration_UnmarshalJSON_def Duration_MarshalJSON_def)

theorem duration_json_roundtrip_witness:
  "Duration_UnmarshalJSON (\<lambda>q. 0) (Duration_MarshalJSON (- 5400000000001)) = Ret (- 5400000000001)"
proof -
  have "is_i64 (- 5400000000001)" by (simp add: is_i64_def)
  then show ?thesis by (rule duration_json_roundtrip)
qed

lemma Duration_Unmarshal_cases:
  "Duration_UnmarshalJSON oor JNull = Err (EText ''invalid duration'')"
  "Duration_UnmarshalJSON oor (JBool b) = Err (EText ''invalid duration'')"
  by (simp_all add: Duration_UnmarshalJSON_def)

text \<open>A field of type \<^verbatim>\<open>pkg.Duration\<close>: unlike the other types, \<^verbatim>\<open>null\<close> is an error.\<close>

definition dec_duration :: "(rat \<Rightarrow> int) \<Rightarrow> json \<Rightarrow> int option" where
  "dec_duration oor j = (case Duration_UnmarshalJSON oor j of Ret d \<Rightarrow> Some d | _ \<Rightarrow> None)"

end
