(* ===== verification/Plan.thy ===== *)
theory Plan
  imports GoDuration
begin

text \<open>
  \<^verbatim>\<open>pkg/actions/plan.go\<close>: the plan a client loads, the workloads it sends, and what verifying
  and executing them means. The table \<^verbatim>\<open>ACTIONS\<close> is a parameter of both operations; what the
  workload relies on in an action is the locale \<open>action_contract\<close>, which theory \<open>Actions\<close>
  interprets on the table of the modelled actions.
\<close>

section \<open>Data\<close>

record ActionConfig =
  Name :: string
  Config :: gmap

record Workers =
  Instances :: "64 word"
  Duration :: int
  Delay :: int
  Timeout :: int

record Workload =
  WorkloadActions :: "ActionConfig list"

record Client =
  ClientWorkers :: "Workers list"

record Phase =
  PhaseName :: string
  PhaseClient :: Client
  PhaseSetup :: Workload
  PhaseWorkload :: Workload
  PhaseTeardown :: Workload
  Repeat :: "64 word"

record Plan =
  PlanPattern :: string
  Phases :: "Phase list"

text \<open>
  What an action can see and change while a workload runs: at least the log and the error
  state of the request's context. The components that execute actions extend this record.
\<close>

record request =
  req_log :: log
  req_ctx_err :: "gerror option"

definition req_emit :: "level \<Rightarrow> string \<Rightarrow> 'x request_scheme \<Rightarrow> 'x request_scheme" where
  "req_emit l msg w = w\<lparr>req_log := emit l msg (req_log w)\<rparr>"

text \<open>The interface \<^verbatim>\<open>Action\<close>. The parsed config itself is discarded by every caller.\<close>

datatype 'w action = Action (act_execute: "'w \<Rightarrow> gmap \<Rightarrow> 'w \<times> unit outcome") (act_parse: "gmap \<Rightarrow> unit outcome")

type_synonym 'w registry = "string \<Rightarrow> 'w action option"

section \<open>Verification\<close>

fun Workload_Verify_loop :: "'w registry \<Rightarrow> ActionConfig list \<Rightarrow> unit outcome" where
  "Workload_Verify_loop acts [] = Ret ()"
| "Workload_Verify_loop acts (action # rest) =
     (case acts (Name action) of
        None \<Rightarrow> Err (EText (''Unknown action: '' @ Name action))
      | Some a \<Rightarrow> obind (act_parse a (Config action)) (\<lambda>_. Workload_Verify_loop acts rest))"

definition Workload_Verify :: "'w registry \<Rightarrow> Workload \<Rightarrow> unit outcome" where
  "Workload_Verify acts workload = Workload_Verify_loop acts (WorkloadActions workload)"

definition Phase_Verify :: "'w registry \<Rightarrow> Phase \<Rightarrow> unit outcome" where
  "Phase_Verify acts phase =
     obind (Workload_Verify acts (PhaseSetup phase)) (\<lambda>_.
     obind (Workload_Verify acts (PhaseWorkload phase)) (\<lambda>_.
     obind (Workload_Verify acts (PhaseTeardown phase)) (\<lambda>_. Ret ())))"

definition worker_prefix :: "int \<Rightarrow> int \<Rightarrow> string" where
  "worker_prefix i j = ''phase '' @ itoa (i + 1) @ '' worker '' @ itoa (j + 1) @ '': ''"

fun verify_workers :: "int \<Rightarrow> int \<Rightarrow> Workers list \<Rightarrow> unit outcome" where
  "verify_workers i j [] = Ret ()"
| "verify_workers i j (worker # rest) =
     (if Duration worker = 0 then Err (EText (worker_prefix i j @ ''worker duration is required''))
      else if Duration worker < MinPhaseDuration then
        Err (EText (worker_prefix i j @ ''worker duration '' @ Duration_String (Duration worker)
          @ '' is less than minimum allowed duration '' @ Duration_String MinPhaseDuration
          @ '' (this will be adjusted at runtime)''))
      else if Duration worker > MaxPhaseDuration then
        Err (EText (worker_prefix i j @ ''worker duration '' @ Duration_String (Duration worker)
          @ '' exceeds maximum allowed duration '' @ Duration_String MaxPhaseDuration
          @ '' (this will be adjusted at runtime)''))
      else verify_workers i (j + 1) rest)"

fun verify_phases :: "'w registry \<Rightarrow> int \<Rightarrow> Phase list \<Rightarrow> unit outcome" where
  "verify_phases acts i [] = Ret ()"
| "verify_phases acts i (phase # rest) =
     obind (verify_workers i 0 (ClientWorkers (PhaseClient phase))) (\<lambda>_.
     obind (Phase_Verify acts phase) (\<lambda>_. verify_phases acts (i + 1) rest))"

definition Plan_Verify :: "'w registry \<Rightarrow> Plan \<Rightarrow> unit outcome" where
  "Plan_Verify acts plan = verify_phases acts 0 (Phases plan)"

section \<open>Execution\<close>

fun Workload_Execute_loop :: "'x request_scheme registry \<Rightarrow> 'x request_scheme \<Rightarrow> ActionConfig list
    \<Rightarrow> 'x request_scheme \<times> unit outcome" where
  "Workload_Execute_loop acts w [] = (w, Ret ())"
| "Workload_Execute_loop acts w (action # rest) =
     (case acts (Name action) of
        None \<Rightarrow> (w, Panic NilDereference)
      | Some a \<Rightarrow>
          (case act_parse a (Config action) of
             Panic p \<Rightarrow> (w, Panic p)
           | Err e \<Rightarrow> (req_emit Warn (''failed to parse config '' @ Name action) w, Err e)
           | Ret _ \<Rightarrow>
               (let w1 = (if req_ctx_err w \<noteq> None then req_emit Warn (''context error '' @ Name action) w else w);
                    w2 = req_emit Info (''executing action '' @ Name action) w1 in
                (case act_execute a w2 (Config action) of
                   (w3, Ret _) \<Rightarrow> Workload_Execute_loop acts w3 rest
                 | (w3, Err e) \<Rightarrow> (req_emit Warn (''action execution failed '' @ Name action) w3, Err e)
                 | (w3, Panic p) \<Rightarrow> (w3, Panic p)))))"

definition Workload_Execute :: "'x request_scheme registry \<Rightarrow> 'x request_scheme \<Rightarrow> Workload
    \<Rightarrow> 'x request_scheme \<times> unit outcome" where
  "Workload_Execute acts w workload = Workload_Execute_loop acts w (WorkloadActions workload)"

section \<open>What verification guarantees\<close>

definition action_ok :: "'w registry \<Rightarrow> ActionConfig \<Rightarrow> bool" where
  "action_ok acts action \<longleftrightarrow> (\<exists>a. acts (Name action) = Some a \<and> act_parse a (Config action) = Ret ())"

definition workload_ok :: "'w registry \<Rightarrow> Workload \<Rightarrow> bool" where
  "workload_ok acts wl \<longleftrightarrow> (\<forall>a\<in>set (WorkloadActions wl). action_ok acts a)"

definition duration_ok :: "int \<Rightarrow> bool" where
  "duration_ok d \<longleftrightarrow> MinPhaseDuration \<le> d \<and> d \<le> MaxPhaseDuration"

definition phase_valid :: "'w registry \<Rightarrow> Phase \<Rightarrow> bool" where
  "phase_valid acts ph \<longleftrightarrow> (\<forall>w\<in>set (ClientWorkers (PhaseClient ph)). duration_ok (Duration w))
     \<and> workload_ok acts (PhaseSetup ph) \<and> workload_ok acts (PhaseWorkload ph) \<and> workload_ok acts (PhaseTeardown ph)"

lemma Workload_Verify_loop_iff:
  "Workload_Verify_loop acts as = Ret () \<longleftrightarrow> (\<forall>a\<in>set as. action_ok acts a)"
  by (induction as) (auto simp: go_simps action_ok_def split: option.splits)

lemma Workload_Verify_iff: "Workload_Verify acts wl = Ret () \<longleftrightarrow> workload_ok acts wl"
  by (simp add: Workload_Verify_def workload_ok_def Workload_Verify_loop_iff)

lemma verify_workers_iff:
  "verify_workers i j ws = Ret () \<longleftrightarrow> (\<forall>w\<in>set ws. duration_ok (Duration w))"
  by (induction i j ws rule: verify_workers.induct) (auto simp: duration_ok_def)

lemma verify_phases_iff: "verify_phases acts i phs = Ret () \<longleftrightarrow> (\<forall>ph\<in>set phs. phase_valid acts ph)"
  by (induction acts i phs rule: verify_phases.induct)
    (auto simp: go_simps verify_workers_iff Phase_Verify_def Workload_Verify_iff phase_valid_def)

lemma Plan_Verify_iff: "Plan_Verify acts plan = Ret () \<longleftrightarrow> (\<forall>ph\<in>set (Phases plan). phase_valid acts ph)"
  by (simp add: Plan_Verify_def verify_phases_iff)

lemma Workload_Execute_append:
  "Workload_Execute_loop acts w (as @ bs) =
     (case Workload_Execute_loop acts w as of
        (w', Ret _) \<Rightarrow> Workload_Execute_loop acts w' bs
      | (w', r) \<Rightarrow> (w', r))"
  by (induction acts w as rule: Workload_Execute_loop.induct)
    (auto simp: Let_def split: option.splits outcome.splits prod.splits)

text \<open>
  What a workload relies on in the actions it runs: an action whose config passed
  \<^verbatim>\<open>ParseConfig\<close> does not fail because of that config when it is executed.
\<close>

definition config_failure :: "unit outcome \<Rightarrow> bool" where
  "config_failure r \<longleftrightarrow> r = Err unmarshal_error \<or> r = Err marshal_error"

locale action_contract =
  fixes acts :: "'x request_scheme registry" and sound :: "'x request_scheme \<Rightarrow> bool"
  assumes sound_emit: "sound (req_emit l msg w) \<longleftrightarrow> sound w"
    and parsed_runs: "acts n = Some a \<Longrightarrow> act_parse a cfg = Ret () \<Longrightarrow> sound w \<Longrightarrow>
      sound (fst (act_execute a w cfg)) \<and> \<not> config_failure (snd (act_execute a w cfg))"
begin

lemma verified_loop_runs:
  "\<forall>a\<in>set as. action_ok acts a \<Longrightarrow> sound w \<Longrightarrow> \<not> config_failure (snd (Workload_Execute_loop acts w as))"
proof (induction as arbitrary: w)
  case (Cons action rest)
  then obtain a where a: "acts (Name action) = Some a" "act_parse a (Config action) = Ret ()"
    by (auto simp: action_ok_def)
  let ?w1 = "if req_ctx_err w \<noteq> None then req_emit Warn (''context error '' @ Name action) w else w"
  let ?w2 = "req_emit Info (''executing action '' @ Name action) ?w1"
  obtain w3 r where r: "act_execute a ?w2 (Config action) = (w3, r)" by fastforce
  have "sound ?w2" using Cons.prems(2) by (simp add: sound_emit)
  then have "sound w3" "\<not> config_failure r" using parsed_runs[OF a, of ?w2] r by simp_all
  with Cons a r show ?case by (cases r) (auto simp: Let_def config_failure_def)
qed (simp add: config_failure_def)

lemma verified_workload_runs:
  "Workload_Verify acts wl = Ret () \<Longrightarrow> sound w \<Longrightarrow> \<not> config_failure (snd (Workload_Execute acts w wl))"
  by (simp add: Workload_Execute_def Workload_Verify_iff workload_ok_def verified_loop_runs)

end

text \<open>
  C31. \<^verbatim>\<open>Plan.Verify\<close> accepts a plan exactly when every worker of every phase runs between the
  minimum and the maximum duration and every action of every setup, workload and teardown is
  known and its config parses; nothing is adjusted, whatever the error texts say.
\<close>

theorem plan_verify_exact:
  "Plan_Verify acts plan = Ret () \<longleftrightarrow> (\<forall>ph\<in>set (Phases plan).
      (\<forall>w\<in>set (ClientWorkers (PhaseClient ph)). MinPhaseDuration \<le> Duration w \<and> Duration w \<le> MaxPhaseDuration)
      \<and> (\<forall>wl\<in>{PhaseSetup ph, PhaseWorkload ph, PhaseTeardown ph}. \<forall>a\<in>set (WorkloadActions wl).
           \<exists>act. acts (Name a) = Some act \<and> act_parse act (Config a) = Ret ()))"
  by (auto simp: Plan_Verify_iff phase_valid_def duration_ok_def workload_ok_def action_ok_def)

definition echo_action :: "request action" where
  "echo_action = Action (\<lambda>w cfg. (req_emit Info ''echo'' w, Ret ())) (\<lambda>cfg. Ret ())"

definition one_phase_plan :: Plan where
  "one_phase_plan = \<lparr>PlanPattern = '''', Phases = [\<lparr>PhaseName = ''p'',
     PhaseClient = \<lparr>ClientWorkers = [\<lparr>Instances = 2, Duration = 300000000000, Delay = 0, Timeout = 0\<rparr>]\<rparr>,
     PhaseSetup = \<lparr>WorkloadActions = []\<rparr>,
     PhaseWorkload = \<lparr>WorkloadActions = [\<lparr>Name = ''echo'', Config = []\<rparr>]\<rparr>,
     PhaseTeardown = \<lparr>WorkloadActions = []\<rparr>, Repeat = 2\<rparr>]\<rparr>"

theorem plan_verify_exact_witness:
  "Plan_Verify [''echo'' \<mapsto> echo_action] one_phase_plan = Ret ()"
  by (subst plan_verify_exact) (simp add: one_phase_plan_def echo_action_def)

text \<open>
  How one action ends a workload: it is unknown, its config does not parse (the error is
  logged and returned) or its parsing panics, its execution returns an error, which is logged and
  returned, or it panics. A context that is done is logged before an execution and changes nothing else.
\<close>

definition announced :: "ActionConfig \<Rightarrow> 'x request_scheme \<Rightarrow> 'x request_scheme" where
  "announced a w = req_emit Info (''executing action '' @ Name a)
     (if req_ctx_err w = None then w else req_emit Warn (''context error '' @ Name a) w)"

inductive fails_with :: "'x request_scheme registry \<Rightarrow> ActionConfig \<Rightarrow> 'x request_scheme \<Rightarrow> 'x request_scheme
    \<Rightarrow> unit outcome \<Rightarrow> bool" for acts a w where
  unknown_action: "acts (Name a) = None \<Longrightarrow> fails_with acts a w w (Panic NilDereference)"
| bad_config: "acts (Name a) = Some act \<Longrightarrow> act_parse act (Config a) = Err e \<Longrightarrow>
    fails_with acts a w (req_emit Warn (''failed to parse config '' @ Name a) w) (Err e)"
| config_panic: "acts (Name a) = Some act \<Longrightarrow> act_parse act (Config a) = Panic p \<Longrightarrow> fails_with acts a w w (Panic p)"
| execution_error: "acts (Name a) = Some act \<Longrightarrow> act_parse act (Config a) = Ret u \<Longrightarrow>
    act_execute act (announced a w) (Config a) = (w', Err e) \<Longrightarrow>
    fails_with acts a w (req_emit Warn (''action execution failed '' @ Name a) w') (Err e)"
| execution_panic: "acts (Name a) = Some act \<Longrightarrow> act_parse act (Config a) = Ret u \<Longrightarrow>
    act_execute act (announced a w) (Config a) = (w', Panic p) \<Longrightarrow> fails_with acts a w w' (Panic p)"

lemma fails_with_error: "fails_with acts a w w' r \<Longrightarrow> r \<noteq> Ret ()"
  by (auto elim: fails_with.cases)

lemma failing_step:
  "fails_with acts a w w' r \<Longrightarrow> Workload_Execute_loop acts w (a # after) = (w', r)"
  by (auto simp: announced_def Let_def elim!: fails_with.cases)

text \<open>One action either fails, or leaves the world in which the rest of the workload runs.\<close>

lemma action_step:
  obtains w' r where "fails_with acts a w w' r"
  | w1 where "\<And>after. Workload_Execute_loop acts w (a # after) = Workload_Execute_loop acts w1 after"
proof (cases "acts (Name a)")
  case None
  then show ?thesis by (rule that(1)[OF unknown_action])
next
  case act: (Some act)
  show ?thesis
  proof (cases "act_parse act (Config a)")
    case cfg: (Ret u)
    obtain w3 r where x: "act_execute act (announced a w) (Config a) = (w3, r)" by fastforce
    show ?thesis
    proof (cases r)
      case (Ret v)
      with act cfg x show ?thesis by (cases "req_ctx_err w"; intro that(2)[of w3]) (simp_all add: announced_def Let_def)
    next
      case (Err e)
      with act cfg x show ?thesis by (auto intro: that(1) execution_error)
    next
      case (Panic p)
      with act cfg x show ?thesis by (auto intro: that(1) execution_panic)
    qed
  qed (use act in \<open>auto intro: that(1) bad_config config_panic\<close>)
qed

lemma failing_workload:
  "Workload_Execute_loop acts w as = (w', r) \<Longrightarrow> r \<noteq> Ret () \<Longrightarrow>
    \<exists>before a after w1. as = before @ a # after \<and> Workload_Execute_loop acts w before = (w1, Ret ()) \<and> fails_with acts a w1 w' r"
proof (induction as arbitrary: w)
  case (Cons a as)
  show ?case
  proof (rule action_step[of acts a w])
    fix w2 r2 assume f: "fails_with acts a w w2 r2"
    with Cons.prems(1) failing_step[OF f] have "fails_with acts a w w' r" by simp
    then show ?case by (intro exI[of _ "[]"] exI[of _ a] exI[of _ as] exI[of _ w]) simp
  next
    fix w1 assume s: "\<And>after. Workload_Execute_loop acts w (a # after) = Workload_Execute_loop acts w1 after"
    with Cons.prems Cons.IH[of w1] obtain before b after w2 where "as = before @ b # after"
      "Workload_Execute_loop acts w1 before = (w2, Ret ())" "fails_with acts b w2 w' r" by auto
    with s[of before] show ?case by (intro exI[of _ "a # before"] exI[of _ b] exI[of _ after] exI[of _ w2]) simp
  qed
qed simp

text \<open>
  C32. A workload runs its actions in order and fails exactly when one of them does: there is a
  first action that fails (it is unknown, its config does not parse, or its execution returns an
  error or panics, whether or not the context is done), all before it have run, as running
  them alone does, the failure is the workload's result, and no later action is executed.
\<close>

theorem workload_stops_at_first_error:
  "(Workload_Execute acts w wl = (w', r) \<and> r \<noteq> Ret ()) \<longleftrightarrow>
     (\<exists>before a after w1. WorkloadActions wl = before @ a # after
       \<and> Workload_Execute acts w \<lparr>WorkloadActions = before\<rparr> = (w1, Ret ()) \<and> fails_with acts a w1 w' r)"
proof (intro iffI conjI; (elim exE conjE)?)
  fix before a after w1
  assume a: "WorkloadActions wl = before @ a # after" "Workload_Execute acts w \<lparr>WorkloadActions = before\<rparr> = (w1, Ret ())"
    "fails_with acts a w1 w' r"
  from a(1,2) failing_step[OF a(3)] show "Workload_Execute acts w wl = (w', r)"
    by (simp add: Workload_Execute_def Workload_Execute_append)
  from a(3) show "r \<noteq> Ret ()" by (rule fails_with_error)
qed (use failing_workload[of acts w "WorkloadActions wl" w' r] in \<open>auto simp: Workload_Execute_def\<close>)

definition fail_action :: "request action" where
  "fail_action = Action (\<lambda>w cfg. (w, Err (EText ''boom''))) (\<lambda>cfg. Ret ())"

definition echo_fail_table :: "request registry" where
  "echo_fail_table = [''echo'' \<mapsto> echo_action, ''fail'' \<mapsto> fail_action]"

text \<open>A failure after the context has been cancelled is returned all the same.\<close>

theorem workload_stops_at_first_error_witness:
  "Workload_Execute echo_fail_table \<lparr>req_log = [], req_ctx_err = Some ECanceled\<rparr>
     \<lparr>WorkloadActions = [\<lparr>Name = ''echo'', Config = []\<rparr>, \<lparr>Name = ''fail'', Config = []\<rparr>, \<lparr>Name = ''echo'', Config = []\<rparr>]\<rparr>
   = (\<lparr>req_log = [(Warn, ''context error echo''), (Info, ''executing action echo''), (Info, ''echo''),
        (Warn, ''context error fail''), (Info, ''executing action fail''), (Warn, ''action execution failed fail'')],
        req_ctx_err = Some ECanceled\<rparr>, Err (EText ''boom''))"
proof -
  let ?echo = "\<lparr>Name = ''echo'', Config = []\<rparr>" and ?fail = "\<lparr>Name = ''fail'', Config = []\<rparr>"
  let ?w = "\<lparr>req_log = [], req_ctx_err = Some ECanceled\<rparr>"
  let ?w1 = "req_emit Info ''echo'' (announced ?echo ?w)"
  have "Workload_Execute echo_fail_table ?w \<lparr>WorkloadActions = [?echo]\<rparr> = (?w1, Ret ())"
    by (simp add: Workload_Execute_def echo_fail_table_def echo_action_def req_emit_def announced_def Let_def)
  moreover have "fails_with echo_fail_table ?fail ?w1 (req_emit Warn ''action execution failed fail'' (announced ?fail ?w1))
      (Err (EText ''boom''))"
    using execution_error[of echo_fail_table ?fail fail_action "()" ?w1 "announced ?fail ?w1" "EText ''boom''"]
    by (simp add: echo_fail_table_def fail_action_def)
  ultimately have "Workload_Execute echo_fail_table ?w \<lparr>WorkloadActions = [?echo] @ ?fail # [?echo]\<rparr>
      = (req_emit Warn ''action execution failed fail'' (announced ?fail ?w1), Err (EText ''boom''))"
    using workload_stops_at_first_error[of echo_fail_table ?w "\<lparr>WorkloadActions = [?echo] @ ?fail # [?echo]\<rparr>"
        "req_emit Warn ''action execution failed fail'' (announced ?fail ?w1)" "Err (EText ''boom'')"]
    by (metis Workload.select_convs(1))
  then show ?thesis by (simp add: req_emit_def announced_def)
qed

end
