(* ===== verification/Durations.thy ===== *)
theory Durations
  imports Pattern Plan
begin

text \<open>
  \<^verbatim>\<open>pkg/actions/durations.go\<close>: how long each execution of a phase may take. The record has the
  cache of the source; a method that fills it returns the new record next to its result.
\<close>

section \<open>The calculations\<close>

record PhaseDurations =
  RuntimeDuration :: int
  pd_plan :: Plan
  pd_repeats :: PhaseRepeats
  cachedDurations :: "(int \<times> int) list"
  AdjustedRuntimeDuration :: int

definition num_phases :: "Plan \<Rightarrow> int" where
  "num_phases plan = int (length (Phases plan))"

definition NewPhaseDurations :: "int \<Rightarrow> Plan \<Rightarrow> PhaseRepeats \<Rightarrow> PhaseDurations" where
  "NewPhaseDurations runtimeDuration plan repeats =
     (let pd = \<lparr>RuntimeDuration = runtimeDuration, pd_plan = plan, pd_repeats = repeats,
            cachedDurations = [], AdjustedRuntimeDuration = 0\<rparr>;
          totalExecutions = GetTotalRepeats repeats (num_phases plan)
      in if runtimeDuration > 0 then
           (let minTotalRuntime = i64 (MinPhaseDuration * totalExecutions);
                maxTotalRuntime = MaxPhaseDuration
            in if runtimeDuration < minTotalRuntime then pd\<lparr>AdjustedRuntimeDuration := minTotalRuntime\<rparr>
               else if runtimeDuration > maxTotalRuntime then pd\<lparr>AdjustedRuntimeDuration := maxTotalRuntime\<rparr>
               else pd\<lparr>AdjustedRuntimeDuration := runtimeDuration\<rparr>)
         else pd)"

text \<open>The loop over the workers; a missing duration resets the maximum to the minimum.\<close>

fun max_worker_duration :: "int \<Rightarrow> Workers list \<Rightarrow> int" where
  "max_worker_duration maxDuration [] = maxDuration"
| "max_worker_duration maxDuration (w # ws) =
     (if Duration w = 0 then max_worker_duration MinPhaseDuration ws
      else if Duration w > maxDuration then max_worker_duration (Duration w) ws
      else max_worker_duration maxDuration ws)"

definition clamp_duration :: "int \<Rightarrow> int" where
  "clamp_duration duration =
     (let d1 = (if duration < MinPhaseDuration then MinPhaseDuration else duration)
      in if d1 > MaxPhaseDuration then MaxPhaseDuration else d1)"

definition GetPhaseDuration :: "PhaseDurations \<Rightarrow> int \<Rightarrow> (PhaseDurations \<times> int) outcome" where
  "GetPhaseDuration d phaseIndex =
     (case map_of (cachedDurations d) phaseIndex of
        Some duration \<Rightarrow> Ret (d, duration)
      | None \<Rightarrow>
          obind
            (if RuntimeDuration d > 0 then
               go_div (AdjustedRuntimeDuration d) (GetTotalRepeats (pd_repeats d) (num_phases (pd_plan d)))
             else
               obind (idx (Phases (pd_plan d)) phaseIndex) (\<lambda>ph.
                 Ret (max_worker_duration 0 (ClientWorkers (PhaseClient ph)))))
            (\<lambda>duration.
               let c = clamp_duration duration in
               Ret (d\<lparr>cachedDurations := AList.update phaseIndex c (cachedDurations d)\<rparr>, c)))"

definition GetPhaseTotalDuration :: "PhaseDurations \<Rightarrow> int \<Rightarrow> (PhaseDurations \<times> int) outcome" where
  "GetPhaseTotalDuration pd phaseIndex =
     obind (GetPhaseDuration pd phaseIndex) (\<lambda>(pd', x).
       Ret (pd', i64 (x * GetRepeat (pd_repeats pd) phaseIndex)))"

fun total_duration_loop :: "PhaseDurations \<Rightarrow> int \<Rightarrow> nat list \<Rightarrow> (PhaseDurations \<times> int) outcome" where
  "total_duration_loop pd tot [] = Ret (pd, tot)"
| "total_duration_loop pd tot (i # is) =
     obind (GetPhaseDuration pd (int i)) (\<lambda>(pd', x).
       total_duration_loop pd' (i64 (tot + i64 (x * GetRepeat (pd_repeats pd) (int i)))) is)"

definition GetTotalDuration :: "PhaseDurations \<Rightarrow> (PhaseDurations \<times> int) outcome" where
  "GetTotalDuration pd =
     (if RuntimeDuration pd > 0 then Ret (pd, AdjustedRuntimeDuration pd)
      else total_duration_loop pd 0 [0..<length (Phases (pd_plan pd))])"

fun durations_string_loop :: "PhaseDurations \<Rightarrow> string \<Rightarrow> nat \<Rightarrow> Phase list \<Rightarrow> (PhaseDurations \<times> string) outcome" where
  "durations_string_loop pd s i [] = Ret (pd, s)"
| "durations_string_loop pd s i (phase # rest) =
     obind (GetPhaseDuration pd (int i)) (\<lambda>(pd', duration).
       durations_string_loop pd'
         (s @ ''Phase '' @ itoa (int i + 1) @ '' ('' @ PhaseName phase @ ''): '' @ Duration_String duration @ ''\<newline>'')
         (Suc i) rest)"

definition PhaseDurations_String :: "PhaseDurations \<Rightarrow> (PhaseDurations \<times> string) outcome" where
  "PhaseDurations_String pd =
     (if RuntimeDuration pd > 0 then
        (if AdjustedRuntimeDuration pd \<noteq> RuntimeDuration pd then
           Ret (pd, ''Runtime duration: '' @ Duration_String (AdjustedRuntimeDuration pd) @ '' (adjusted from ''
             @ Duration_String (RuntimeDuration pd) @ '' due to minimum/maximum limits)'')
         else Ret (pd, ''Runtime duration: '' @ Duration_String (RuntimeDuration pd)))
      else durations_string_loop pd [] 0 (Phases (pd_plan pd)))"

fun sum_worker_durations :: "int \<Rightarrow> Workers list \<Rightarrow> int" where
  "sum_worker_durations duration [] = duration"
| "sum_worker_durations duration (w # ws) = sum_worker_durations (i64 (duration + Duration w)) ws"

definition calculatePhaseDuration :: "Phase \<Rightarrow> int" where
  "calculatePhaseDuration phase = sum_worker_durations 0 (ClientWorkers (PhaseClient phase))"

section \<open>The cache\<close>

text \<open>What a phase's duration is when nothing is cached.\<close>

definition fresh_duration :: "PhaseDurations \<Rightarrow> int \<Rightarrow> int outcome" where
  "fresh_duration d i = obind (GetPhaseDuration (d\<lparr>cachedDurations := []\<rparr>) i) (\<lambda>(d', x). Ret x)"

definition cache_ok :: "PhaseDurations \<Rightarrow> bool" where
  "cache_ok d \<longleftrightarrow> (\<forall>i x. map_of (cachedDurations d) i = Some x \<longrightarrow> fresh_duration d i = Ret x)"

lemma clamp_duration_range: "MinPhaseDuration \<le> clamp_duration x \<and> clamp_duration x \<le> MaxPhaseDuration"
  by (simp add: clamp_duration_def Let_def)

lemma clamp_duration_id: "MinPhaseDuration \<le> x \<Longrightarrow> x \<le> MaxPhaseDuration \<Longrightarrow> clamp_duration x = x"
  by (simp add: clamp_duration_def Let_def)

lemma fresh_duration_range: "fresh_duration d i = Ret x \<Longrightarrow> MinPhaseDuration \<le> x \<and> x \<le> MaxPhaseDuration"
  using clamp_duration_range
  by (auto simp: fresh_duration_def GetPhaseDuration_def go_simps Let_def simp del: MinPhaseDuration_eq MaxPhaseDuration_eq)

lemma fresh_duration_cache [simp]: "fresh_duration (d\<lparr>cachedDurations := c\<rparr>) i = fresh_duration d i"
  by (simp add: fresh_duration_def)

lemma cache_ok_New [simp]: "cache_ok (NewPhaseDurations r p reps)"
  by (simp add: cache_ok_def NewPhaseDurations_def Let_def)

lemma GetPhaseDuration_fresh:
  assumes "cache_ok d"
  shows "GetPhaseDuration d i =
    obind (fresh_duration d i) (\<lambda>x. Ret (d\<lparr>cachedDurations := AList.update i x (cachedDurations d)\<rparr>, x))"
proof (cases "map_of (cachedDurations d) i")
  case (Some x)
  with assms have "fresh_duration d i = Ret x" by (simp add: cache_ok_def)
  moreover have "AList.update i x (cachedDurations d) = cachedDurations d"
    using Some by (rule AList.update_triv)
  ultimately show ?thesis using Some by (simp add: GetPhaseDuration_def)
qed (simp add: GetPhaseDuration_def fresh_duration_def Let_def)

lemma cache_ok_update:
  "cache_ok d \<Longrightarrow> fresh_duration d i = Ret x \<Longrightarrow>
    cache_ok (d\<lparr>cachedDurations := AList.update i x (cachedDurations d)\<rparr>)"
  by (auto simp: cache_ok_def update_conv' split: if_splits)

text \<open>Fields other than the cache never change.\<close>

definition same_setup :: "PhaseDurations \<Rightarrow> PhaseDurations \<Rightarrow> bool" where
  "same_setup d d' \<longleftrightarrow> d'\<lparr>cachedDurations := []\<rparr> = d\<lparr>cachedDurations := []\<rparr>"

lemma same_setup_fresh: "same_setup d d' \<Longrightarrow> fresh_duration d' i = fresh_duration d i"
  by (simp add: same_setup_def fresh_duration_def)

lemma GetPhaseDuration_keeps:
  assumes "cache_ok d" "GetPhaseDuration d i = Ret (d', x)"
  shows "cache_ok d' \<and> same_setup d d' \<and> fresh_duration d i = Ret x"
  using assms by (auto simp: GetPhaseDuration_fresh go_simps same_setup_def intro: cache_ok_update)

text \<open>
  The cache is invisible and the bounds always hold: from a cache that agrees with the
  calculation (a new one does), asking for a phase's duration gives what an empty cache would
  give, between the minimum and the maximum, and leaves such a cache, so that asking again
  gives the same answer and changes nothing.
\<close>

theorem phase_duration_cached:
  assumes "cache_ok d" and "GetPhaseDuration d i = Ret (d', x)"
  shows "fresh_duration d i = Ret x \<and> MinPhaseDuration \<le> x \<and> x \<le> MaxPhaseDuration
    \<and> cache_ok d' \<and> GetPhaseDuration d' i = Ret (d', x)"
proof -
  have k: "cache_ok d'" "same_setup d d'" "fresh_duration d i = Ret x"
    using GetPhaseDuration_keeps[OF assms] by auto
  have "map_of (cachedDurations d') i = Some x"
    using assms k(3) by (auto simp: GetPhaseDuration_fresh go_simps update_conv')
  then have "GetPhaseDuration d' i = Ret (d', x)" by (simp add: GetPhaseDuration_def)
  with k fresh_duration_range[OF k(3)] show ?thesis by simp
qed

definition one_phase_durations :: PhaseDurations where
  "one_phase_durations = NewPhaseDurations 0 one_phase_plan (NewPhaseRepeats 1)"

theorem phase_duration_cached_witness:
  "\<exists>d'. GetPhaseDuration one_phase_durations 0 = Ret (d', 300000000000)
    \<and> GetPhaseDuration d' 0 = Ret (d', 300000000000)"
proof -
  have g: "GetPhaseDuration one_phase_durations 0 =
      Ret (one_phase_durations\<lparr>cachedDurations := [(0, 300000000000)]\<rparr>, 300000000000)"
    by (simp add: one_phase_durations_def NewPhaseDurations_def GetPhaseDuration_def one_phase_plan_def
        clamp_duration_def idx_def Let_def)
  have "cache_ok one_phase_durations" by (simp add: one_phase_durations_def)
  from phase_duration_cached[OF this g] g show ?thesis by auto
qed

section \<open>A runtime override\<close>

lemma total_repeats_range:
  assumes "repeats_ok reps n" "int n = num_phases plan" "0 < n" "n \<le> 300000"
  shows "0 < GetTotalRepeats reps (num_phases plan)" "GetTotalRepeats reps (num_phases plan) \<le> 150000000"
  using rep.total_range[OF assms(1)] assms(2-4) by auto

lemma AdjustedRuntimeDuration_eq:
  assumes "repeats_ok reps n" "int n = num_phases plan" "0 < n" "n \<le> 300000"
    and "0 < rt" "rt \<le> MaxPhaseDuration"
  shows "AdjustedRuntimeDuration (NewPhaseDurations rt plan reps)
    = max rt (MinPhaseDuration * GetTotalRepeats reps (num_phases plan))"
proof -
  note t = total_repeats_range[OF assms(1-4)]
  then have "is_i64 (MinPhaseDuration * GetTotalRepeats reps (num_phases plan))"
    by (simp add: is_i64_def)
  with assms(5,6) t show ?thesis by (auto simp: NewPhaseDurations_def Let_def)
qed

lemma override_duration:
  assumes r: "repeats_ok reps n" "int n = num_phases plan" "0 < n" "n \<le> 300000"
    and rt: "0 < rt" "rt \<le> MaxPhaseDuration"
  defines "d \<equiv> NewPhaseDurations rt plan reps"
  shows "fresh_duration d i = Ret (AdjustedRuntimeDuration d div GetTotalRepeats reps (num_phases plan))"
proof -
  let ?T = "GetTotalRepeats reps (num_phases plan)" and ?A = "AdjustedRuntimeDuration d"
  note t = total_repeats_range[OF r]
  have A: "?A = max rt (MinPhaseDuration * ?T)"
    unfolding d_def by (rule AdjustedRuntimeDuration_eq[OF r]) (use rt in auto)
  have f: "RuntimeDuration d = rt" "pd_plan d = plan" "pd_repeats d = reps" "cachedDurations d = []"
    by (simp_all add: d_def NewPhaseDurations_def Let_def)
  have "MinPhaseDuration * ?T \<le> ?A" "?A \<le> MaxPhaseDuration * ?T"
    using A t rt by (auto intro: order_trans[OF rt(2)])
  then have range: "MinPhaseDuration \<le> ?A div ?T" "?A div ?T \<le> MaxPhaseDuration"
    using zdiv_mono1[of "MinPhaseDuration * ?T" ?A ?T] zdiv_mono1[of ?A "MaxPhaseDuration * ?T" ?T] t(1)
    by auto
  have "is_i64 ?A" "0 \<le> ?A" using A t rt by (auto simp: is_i64_def max_def)
  then have "go_div ?A ?T = Ret (?A div ?T)" using t(1) by (simp add: go_simps)
  with range f rt show ?thesis
    by (simp add: fresh_duration_def GetPhaseDuration_def clamp_duration_id Let_def)
qed

lemma GetPhaseTotalDuration_fresh:
  assumes "cache_ok d" "fresh_duration d i = Ret x" "is_i64 (x * GetRepeat (pd_repeats d) i)"
  shows "\<exists>d'. GetPhaseTotalDuration d i = Ret (d', x * GetRepeat (pd_repeats d) i)"
  using assms by (simp add: GetPhaseTotalDuration_def GetPhaseDuration_fresh)

lemma sum_member_le:
  fixes f :: "nat \<Rightarrow> int"
  assumes "i < n" "\<And>j. j < n \<Longrightarrow> 0 \<le> f j"
  shows "f i \<le> (\<Sum>j<n. f j)"
  using assms by (intro member_le_sum) auto

text \<open>
  C28. With a runtime override the whole run stays inside one budget, however often the phases
  repeat: the budget is the override, raised to the minimum duration times the number of
  executions, and the phases' total durations add up to at most that budget and miss it by less
  than one nanosecond for each execution.
\<close>

theorem runtime_override_is_a_budget:
  assumes "repeats_ok reps n" "int n = num_phases plan" "0 < n" "n \<le> 300000"
    and "0 < rt" "rt \<le> MaxPhaseDuration"
  shows "\<exists>per. (\<forall>i<n. \<exists>d'. GetPhaseTotalDuration (NewPhaseDurations rt plan reps) (int i) = Ret (d', per i))
    \<and> (\<Sum>i<n. per i) \<le> max rt (MinPhaseDuration * GetTotalRepeats reps (int n))
    \<and> max rt (MinPhaseDuration * GetTotalRepeats reps (int n)) < (\<Sum>i<n. per i) + GetTotalRepeats reps (int n)"
proof -
  let ?d = "NewPhaseDurations rt plan reps" and ?T = "GetTotalRepeats reps (int n)"
  let ?A = "max rt (MinPhaseDuration * ?T)"
  let ?per = "\<lambda>i. GetRepeat reps (int i) * (?A div ?T)"
  note T = total_repeats_range[OF assms(1-4), folded assms(2)]
  have A: "AdjustedRuntimeDuration ?d = ?A"
    using AdjustedRuntimeDuration_eq[OF assms] assms(2) by simp
  note fits = rep.share_fits[OF assms(1,3), of ?A]
  have pos: "0 \<le> ?per i" if "i < n" for i
    using rep.get_range[OF assms(1) that] T assms(5) by (auto simp: pos_imp_zdiv_nonneg_iff)
  have "is_i64 (?per i)" if "i < n" for i
  proof -
    have "?per i \<le> ?A" using sum_member_le[of i n ?per] that pos fits by force
    then show ?thesis using pos[OF that] T assms(5,6) by (auto simp: is_i64_def max_def split: if_splits)
  qed
  moreover have "fresh_duration ?d i = Ret (?A div ?T)" for i
    using override_duration[OF assms] A assms(2) by simp
  moreover have "pd_repeats ?d = reps" by (simp add: NewPhaseDurations_def Let_def)
  ultimately have "\<forall>i<n. \<exists>d'. GetPhaseTotalDuration ?d (int i) = Ret (d', ?per i)"
    using GetPhaseTotalDuration_fresh[OF cache_ok_New, of rt plan reps] by (simp add: mult.commute)
  with fits show ?thesis by (intro exI[of _ ?per]) auto
qed

theorem runtime_override_is_a_budget_witness:
  "\<exists>d'. GetPhaseTotalDuration (NewPhaseDurations 600000000000 one_phase_plan (NewPhaseRepeats 4)) 0 = Ret (d', 600000000000)"
proof -
  have T: "GetTotalRepeats (NewPhaseRepeats 4) 1 = 4"
    by (simp add: GetTotalRepeats_def NewPhaseRepeats_def is_i64_def)
  have "repeats_ok (NewPhaseRepeats 4) 1" "int 1 = num_phases one_phase_plan"
    by (simp_all add: repeats_ok_def num_phases_def one_phase_plan_def)
  note budget = runtime_override_is_a_budget[OF this, of 600000000000]
  let ?d = "NewPhaseDurations 600000000000 one_phase_plan (NewPhaseRepeats 4)"
  have "\<exists>d' x. GetPhaseTotalDuration ?d 0 = Ret (d', x) \<and> x \<le> 600000000000 \<and> 600000000000 < x + 4"
    using budget by (auto simp: T)
  then show ?thesis
    by (auto simp: GetPhaseTotalDuration_def GetPhaseDuration_def NewPhaseDurations_def T
        num_phases_def one_phase_plan_def go_simps clamp_duration_def Let_def is_i64_def)
qed

section \<open>Without an override\<close>

definition planned_duration :: "Phase \<Rightarrow> int" where
  "planned_duration ph = clamp_duration (max_worker_duration 0 (ClientWorkers (PhaseClient ph)))"

lemma planned_duration_range: "MinPhaseDuration \<le> planned_duration ph" "planned_duration ph \<le> MaxPhaseDuration"
  using clamp_duration_range by (simp_all add: planned_duration_def)

lemma max_worker_duration_Max:
  "\<forall>w\<in>set ws. 0 < Duration w \<Longrightarrow> max_worker_duration m ws = Max (insert m (Duration ` set ws))"
proof (induction ws arbitrary: m)
  case (Cons w ws)
  have "max_worker_duration m (w # ws) = max_worker_duration (max m (Duration w)) ws"
    using Cons.prems by (auto simp: max_def)
  also have "\<dots> = Max (insert (max m (Duration w)) (Duration ` set ws))"
    using Cons by simp
  also have "\<dots> = Max (insert m (Duration ` set (w # ws)))"
    by (cases "set ws = {}") (simp_all add: max.assoc)
  finally show ?case .
qed simp

text \<open>A verified phase with a worker lasts as long as its longest worker.\<close>

lemma planned_duration_verified:
  assumes "\<forall>w\<in>set (ClientWorkers (PhaseClient ph)). duration_ok (Duration w)" "ClientWorkers (PhaseClient ph) \<noteq> []"
  shows "planned_duration ph = Max (Duration ` set (ClientWorkers (PhaseClient ph)))"
proof -
  let ?D = "Duration ` set (ClientWorkers (PhaseClient ph))"
  have D: "finite ?D" "?D \<noteq> {}" "\<forall>x\<in>?D. MinPhaseDuration \<le> x \<and> x \<le> MaxPhaseDuration"
    using assms by (auto simp: duration_ok_def)
  then have M: "MinPhaseDuration \<le> Max ?D" "Max ?D \<le> MaxPhaseDuration" using Max_in[OF D(1,2)] by blast+
  have "max_worker_duration 0 (ClientWorkers (PhaseClient ph)) = Max (insert 0 ?D)"
    by (rule max_worker_duration_Max) (use D in force)
  also have "\<dots> = Max ?D" using D M by (simp add: Max_insert max_def)
  finally show ?thesis using M by (simp add: planned_duration_def clamp_duration_id)
qed

lemma fresh_planned:
  "RuntimeDuration d \<le> 0 \<Longrightarrow> i < length (Phases (pd_plan d)) \<Longrightarrow>
    fresh_duration d (int i) = Ret (planned_duration (Phases (pd_plan d) ! i))"
  by (simp add: fresh_duration_def GetPhaseDuration_def planned_duration_def Let_def)

lemma total_duration_loop_eq:
  assumes "cache_ok d" "RuntimeDuration d \<le> 0" "\<forall>i\<in>set is. i < length (Phases (pd_plan d))"
  shows "\<exists>d'. total_duration_loop d t is = Ret (d',
    foldl (\<lambda>s i. i64 (s + i64 (planned_duration (Phases (pd_plan d) ! i) * GetRepeat (pd_repeats d) (int i)))) t is)"
  using assms
proof (induction "is" arbitrary: d t)
  case (Cons i "is")
  let ?x = "planned_duration (Phases (pd_plan d) ! i)"
  have f: "fresh_duration d (int i) = Ret ?x" using Cons.prems by (simp add: fresh_planned)
  then obtain d1 where d1: "GetPhaseDuration d (int i) = Ret (d1, ?x)"
    by (simp add: GetPhaseDuration_fresh[OF Cons.prems(1)])
  from GetPhaseDuration_keeps[OF Cons.prems(1) this]
  have k: "cache_ok d1" "RuntimeDuration d1 = RuntimeDuration d" "pd_plan d1 = pd_plan d" "pd_repeats d1 = pd_repeats d"
    by (cases d; cases d1; simp add: same_setup_def)+
  show ?case using Cons.IH[OF k(1)] Cons.prems(2,3) d1 by (simp add: k(2-4))
qed simp

text \<open>A phase that repeats at most 500 times takes at most 14000 days, a seventh of the range.\<close>

lemma phase_share_range:
  assumes "1 \<le> r" "r \<le> 500"
  shows "0 \<le> planned_duration ph * r" "planned_duration ph * r \<le> 1209600000000000000"
  using planned_duration_range[of ph] assms mult_mono[of "planned_duration ph" MaxPhaseDuration r 500]
  by auto

lemma foldl_shares:
  assumes "repeats_ok reps n" "m \<le> n" "m \<le> 7"
  shows "foldl (\<lambda>s i. i64 (s + i64 (planned_duration (phs ! i) * GetRepeat reps (int i)))) 0 [0..<m]
      = (\<Sum>i<m. planned_duration (phs ! i) * GetRepeat reps (int i))
    \<and> 0 \<le> (\<Sum>i<m. planned_duration (phs ! i) * GetRepeat reps (int i))
    \<and> (\<Sum>i<m. planned_duration (phs ! i) * GetRepeat reps (int i)) \<le> 1209600000000000000 * int m"
  using assms(2,3)
proof (induction m)
  case (Suc m)
  let ?x = "planned_duration (phs ! m) * GetRepeat reps (int m)"
  have x: "0 \<le> ?x" "?x \<le> 1209600000000000000"
    using phase_share_range rep.get_range[OF assms(1), of m] Suc.prems by auto
  from Suc have IH: "0 \<le> (\<Sum>i<m. planned_duration (phs ! i) * GetRepeat reps (int i))"
    "(\<Sum>i<m. planned_duration (phs ! i) * GetRepeat reps (int i)) \<le> 1209600000000000000 * int m" "int m \<le> 6"
    by auto
  then have "is_i64 ((\<Sum>i<m. planned_duration (phs ! i) * GetRepeat reps (int i)) + ?x)" "is_i64 ?x"
    using x by (simp_all add: is_i64_def)
  with Suc IH x show ?case by simp
qed simp

text \<open>
  Without a runtime override a verified plan of at most seven phases (with a worker each)
  is announced with the exact total: for every phase the duration of its longest worker, once
  for each repeat.
\<close>

theorem total_duration_exact:
  assumes "Plan_Verify acts plan = Ret ()" and "\<forall>ph\<in>set (Phases plan). ClientWorkers (PhaseClient ph) \<noteq> []"
    and "repeats_ok reps (length (Phases plan))" and "length (Phases plan) \<le> 7"
  shows "\<exists>d'. GetTotalDuration (NewPhaseDurations 0 plan reps) = Ret (d',
    \<Sum>i<length (Phases plan). Max (Duration ` set (ClientWorkers (PhaseClient (Phases plan ! i)))) * GetRepeat reps (int i))"
proof -
  let ?d = "NewPhaseDurations 0 plan reps"
  have d: "RuntimeDuration ?d = 0" "pd_plan ?d = plan" "pd_repeats ?d = reps"
    by (simp_all add: NewPhaseDurations_def Let_def)
  have p: "planned_duration (Phases plan ! i) = Max (Duration ` set (ClientWorkers (PhaseClient (Phases plan ! i))))"
    if "i < length (Phases plan)" for i
    using assms(1,2) nth_mem[OF that]
    by (intro planned_duration_verified) (auto simp: Plan_Verify_iff phase_valid_def)
  have "\<exists>d'. GetTotalDuration ?d = Ret (d', \<Sum>i<length (Phases plan). planned_duration (Phases plan ! i) * GetRepeat reps (int i))"
    using total_duration_loop_eq[OF cache_ok_New, of 0 plan reps "[0..<length (Phases plan)]" 0]
      foldl_shares[OF assms(3) order_refl assms(4), of "Phases plan"] d
    by (simp add: GetTotalDuration_def)
  with p show ?thesis by simp
qed

theorem total_duration_exact_witness:
  "\<exists>d'. GetTotalDuration (NewPhaseDurations 0 one_phase_plan (NewPhaseRepeats 4)) = Ret (d', 1200000000000)"
proof -
  have "Plan_Verify [''echo'' \<mapsto> echo_action] one_phase_plan = Ret ()"
    by (simp add: Plan_Verify_iff phase_valid_def duration_ok_def workload_ok_def action_ok_def
        one_phase_plan_def echo_action_def)
  from total_duration_exact[OF this, of "NewPhaseRepeats 4"] show ?thesis
    by (simp add: one_phase_plan_def repeats_ok_def)
qed

definition long_plan :: "nat \<Rightarrow> Plan" where
  "long_plan n = \<lparr>PlanPattern = '''', Phases = replicate n \<lparr>PhaseName = ''p'',
     PhaseClient = \<lparr>ClientWorkers = [\<lparr>Instances = 1, Duration = MaxPhaseDuration, Delay = 0, Timeout = 0\<rparr>]\<rparr>,
     PhaseSetup = \<lparr>WorkloadActions = []\<rparr>, PhaseWorkload = \<lparr>WorkloadActions = []\<rparr>,
     PhaseTeardown = \<lparr>WorkloadActions = []\<rparr>, Repeat = 500\<rparr>\<rparr>"

lemma long_plan_planned:
  "i < n \<Longrightarrow> planned_duration (Phases (long_plan n) ! i) = 2419200000000000"
  by (simp add: long_plan_def planned_duration_def clamp_duration_def Let_def)

text \<open>
  The bound of seven is sharp: a plan of eight phases of the longest accepted duration,
  each with the most repeats, passes Verify and is announced with a negative total runtime.
\<close>

theorem total_duration_overflows:
  "Plan_Verify acts (long_plan 8) = Ret ()
   \<and> (\<exists>d' x. GetTotalDuration (NewPhaseDurations 0 (long_plan 8) (NewPhaseRepeats 500)) = Ret (d', x) \<and> x < 0)"
proof
  show "Plan_Verify acts (long_plan 8) = Ret ()"
    by (simp add: Plan_Verify_iff phase_valid_def duration_ok_def workload_ok_def long_plan_def)
  let ?d = "NewPhaseDurations 0 (long_plan 8) (NewPhaseRepeats 500)"
  have d: "RuntimeDuration ?d = 0" "pd_plan ?d = long_plan 8" "pd_repeats ?d = NewPhaseRepeats 500"
    by (simp_all add: NewPhaseDurations_def Let_def)
  have l: "length (Phases (long_plan 8)) = 8" by (simp add: long_plan_def)
  have "foldl (\<lambda>s i. i64 (s + i64 (planned_duration (Phases (long_plan 8) ! i) * 500))) 0 [0..<8]
      = i64 (8 * 1209600000000000000)"
    by (simp add: upt_rec long_plan_planned i64_def)
  then have "\<exists>d'. GetTotalDuration ?d = Ret (d', i64 (8 * 1209600000000000000))"
    using total_duration_loop_eq[OF cache_ok_New, of 0 "long_plan 8" "NewPhaseRepeats 500" "[0..<8]" 0] d l
    by (simp add: GetTotalDuration_def)
  then show "\<exists>d' x. GetTotalDuration ?d = Ret (d', x) \<and> x < 0" by (auto simp: i64_def)
qed

end
