(* ===== verification/Reporter.thy ===== *)
theory Reporter
  imports Durations
begin

text \<open>
  \<^verbatim>\<open>pkg/actions/reporter.go\<close>: the lines the client logs about its plan and its phases. The
  record holds what the source's struct points to; since the durations keep a cache, every
  operation returns the reporter it leaves. The logger is the log it has written.
\<close>

section \<open>Data\<close>

record Reporter =
  rp_plan :: Plan
  rp_repeats :: PhaseRepeats
  rp_durations :: PhaseDurations

definition NewReporter :: "Plan \<Rightarrow> PhaseRepeats \<Rightarrow> PhaseDurations \<Rightarrow> Reporter" where
  "NewReporter plan repeats durations = \<lparr>rp_plan = plan, rp_repeats = repeats, rp_durations = durations\<rparr>"

text \<open>The status codes are listed in the order in which ranging over the map visits them.\<close>

record PhaseStats =
  Requests :: "64 word"
  Errors :: "64 word"
  AverageDuration :: int
  StatusCodes :: "(int \<times> int) list"
  PhaseStart :: int
  PhaseEnd :: int

text \<open>\<^verbatim>\<open>Time.Sub\<close> saturates.\<close>

definition Time_Sub :: "int \<Rightarrow> int \<Rightarrow> int" where
  "Time_Sub t u = max (- 9223372036854775808) (min 9223372036854775807 (t - u))"

definition show_u64 :: "64 word \<Rightarrow> string" where
  "show_u64 x = show_nat (unat x)"

section \<open>Operations\<close>

definition LogRuntimeOverrides :: "Reporter \<Rightarrow> int \<Rightarrow> int \<Rightarrow> string \<Rightarrow> log \<Rightarrow> log" where
  "LogRuntimeOverrides r runtimeDuration repeatsPerPhase phasePattern lg =
     (let d = rp_durations r;
          lg1 = (if runtimeDuration > 0 then
                   (if AdjustedRuntimeDuration d \<noteq> RuntimeDuration d then
                      emit Info (''Runtime duration override: '' @ Duration_String (AdjustedRuntimeDuration d)
                        @ '' (adjusted from '' @ Duration_String (RuntimeDuration d) @ '' due to minimum/maximum limits)'') lg
                    else emit Info (''Runtime duration override: '' @ Duration_String (RuntimeDuration d)) lg)
                 else lg);
          lg2 = (if repeatsPerPhase > 0 then
                   emit Info (''Repeats override: '' @ itoa repeatsPerPhase @ '' repeats per phase'') lg1
                 else if repeatsPerPhase = 0 then
                   emit Info (''Repeats override: unlimited (capped at maximum '' @ itoa MaxRepeatsPerPhase @ '')'') lg1
                 else lg1)
      in if phasePattern \<noteq> [] then emit Info (''Phase pattern override: '' @ phasePattern) lg2 else lg2)"

definition phase_line :: "int \<Rightarrow> string \<Rightarrow> int \<Rightarrow> int \<Rightarrow> int \<Rightarrow> string" where
  "phase_line i name repeats phaseDuration phaseTotalDuration =
     ''Phase '' @ itoa (i + 1) @ '': '' @ name @ '', '' @ itoa repeats @ '' repeats, '' @ Duration_String phaseDuration
       @ '' per phase, '' @ Duration_String phaseTotalDuration @ '' total''"

fun summary_loop :: "Reporter \<Rightarrow> log \<Rightarrow> nat \<Rightarrow> Phase list \<Rightarrow> (Reporter \<times> log) outcome" where
  "summary_loop r lg i [] = Ret (r, lg)"
| "summary_loop r lg i (phase # rest) =
     obind (GetPhaseDuration (rp_durations r) (int i)) (\<lambda>(d1, phaseDuration).
     obind (GetPhaseTotalDuration d1 (int i)) (\<lambda>(d2, phaseTotalDuration).
       summary_loop (r\<lparr>rp_durations := d2\<rparr>)
         (emit Info (phase_line (int i) (PhaseName phase) (GetRepeat (rp_repeats r) (int i)) phaseDuration phaseTotalDuration) lg)
         (Suc i) rest))"

definition summary_line :: "int \<Rightarrow> int \<Rightarrow> string \<Rightarrow> string" where
  "summary_line n totalDuration pattern =
     ''Plan summary: '' @ itoa n @ '' phases, '' @ Duration_String totalDuration @ '' total runtime, '' @ pattern @ '' pattern''"

definition LogPlanSummary :: "Reporter \<Rightarrow> log \<Rightarrow> (Reporter \<times> log) outcome" where
  "LogPlanSummary r lg =
     (let lg1 = emit Info ''Successfully loaded execution plan'' lg in
      obind (GetTotalDuration (rp_durations r)) (\<lambda>(d, totalDuration).
      obind (summary_loop (r\<lparr>rp_durations := d\<rparr>)
          (emit Info (summary_line (num_phases (rp_plan r)) totalDuration (PlanPattern (rp_plan r))) lg1)
          0 (Phases (rp_plan r))) (\<lambda>(r', lg2).
        Ret (r', emit Info [] lg2))))"

definition LogPhaseStart :: "Reporter \<Rightarrow> int \<Rightarrow> log \<Rightarrow> (Reporter \<times> log) outcome" where
  "LogPhaseStart r phaseIndex lg =
     obind (idx (Phases (rp_plan r)) phaseIndex) (\<lambda>phase.
     obind (GetPhaseDuration (rp_durations r) phaseIndex) (\<lambda>(d, phaseDuration).
       Ret (r\<lparr>rp_durations := d\<rparr>,
         emit Info (''Starting phase: '' @ PhaseName phase @ '' (duration: '' @ Duration_String phaseDuration @ '')'') lg)))"

fun status_lines :: "(int \<times> int) list \<Rightarrow> log \<Rightarrow> log" where
  "status_lines [] lg = lg"
| "status_lines ((code, count) # rest) lg =
     status_lines rest (emit Info (''    '' @ itoa code @ '': '' @ itoa count) lg)"

definition LogPhaseEnd :: "Reporter \<Rightarrow> int \<Rightarrow> PhaseStats \<Rightarrow> log \<Rightarrow> log outcome" where
  "LogPhaseEnd r phaseIndex stats lg =
     obind (idx (Phases (rp_plan r)) phaseIndex) (\<lambda>phase.
       let lg1 = emit Info [] lg;
           lg2 = emit Info (''Phase complete: '' @ PhaseName phase) lg1;
           lg3 = emit Info (''  Duration: '' @ Duration_String (Time_Sub (PhaseEnd stats) (PhaseStart stats))) lg2;
           lg4 = emit Info (''  Requests: '' @ show_u64 (Requests stats) @ '' ('' @ show_u64 (Errors stats) @ '' errors)'') lg3;
           lg5 = emit Info (''  Average request duration: '' @ Duration_String (AverageDuration stats)) lg4;
           lg6 = (if length (StatusCodes stats) > 0 then status_lines (StatusCodes stats) (emit Info ''  Status codes:'' lg5)
                  else lg5)
       in Ret (emit Info [] lg6))"

section \<open>The summary\<close>

text \<open>A reporter whose cache agrees with the calculations, and what it shares with another.\<close>

definition reporter_ok :: "Reporter \<Rightarrow> bool" where
  "reporter_ok r \<longleftrightarrow> cache_ok (rp_durations r) \<and> pd_plan (rp_durations r) = rp_plan r
     \<and> pd_repeats (rp_durations r) = rp_repeats r"

definition same_reporter :: "Reporter \<Rightarrow> Reporter \<Rightarrow> bool" where
  "same_reporter r r' \<longleftrightarrow> rp_plan r' = rp_plan r \<and> rp_repeats r' = rp_repeats r
     \<and> same_setup (rp_durations r) (rp_durations r')"

lemma same_setup_fields:
  "same_setup d d' \<Longrightarrow> RuntimeDuration d' = RuntimeDuration d \<and> AdjustedRuntimeDuration d' = AdjustedRuntimeDuration d
    \<and> pd_plan d' = pd_plan d \<and> pd_repeats d' = pd_repeats d"
  by (cases d; cases d') (simp add: same_setup_def)

lemma same_setup_refl [simp]: "same_setup d d"
  by (simp add: same_setup_def)

lemma same_setup_trans: "same_setup a b \<Longrightarrow> same_setup b c \<Longrightarrow> same_setup a c"
  by (simp add: same_setup_def)

lemma reporter_ok_step:
  assumes "reporter_ok r" "GetPhaseDuration (rp_durations r) i = Ret (d, x)"
  shows "reporter_ok (r\<lparr>rp_durations := d\<rparr>) \<and> same_reporter r (r\<lparr>rp_durations := d\<rparr>)
    \<and> fresh_duration (rp_durations r) i = Ret x"
  using GetPhaseDuration_keeps[of "rp_durations r" i d x] assms same_setup_fields
  by (fastforce simp: reporter_ok_def same_reporter_def)

lemma GetPhaseDuration_total:
  assumes "reporter_ok r" "fresh_duration (rp_durations r) i = Ret x"
  shows "\<exists>d. GetPhaseDuration (rp_durations r) i = Ret (d, x)"
  using assms by (simp add: reporter_ok_def GetPhaseDuration_fresh)

lemma summary_loop_eq:
  assumes "reporter_ok r" "\<forall>k<length phs. fresh_duration (rp_durations r) (int (i + k)) = Ret (f (i + k))"
  shows "\<exists>r'. summary_loop r lg i phs = Ret (r', lg @ map (\<lambda>k. (Info, phase_line (int (i + k)) (PhaseName (phs ! k))
      (GetRepeat (rp_repeats r) (int (i + k))) (f (i + k))
      (i64 (f (i + k) * GetRepeat (rp_repeats r) (int (i + k)))))) [0..<length phs])
    \<and> reporter_ok r' \<and> same_reporter r r'"
  using assms
proof (induction phs arbitrary: r lg i)
  case (Cons ph phs)
  from Cons.prems(2) have f: "fresh_duration (rp_durations r) (int i) = Ret (f i)" by fastforce
  then obtain d1 where d1: "GetPhaseDuration (rp_durations r) (int i) = Ret (d1, f i)"
    using GetPhaseDuration_total[OF Cons.prems(1)] by auto
  note s1 = reporter_ok_step[OF Cons.prems(1) d1]
  then have f1: "fresh_duration d1 (int i) = Ret (f i)"
    using f by (auto simp: same_reporter_def same_setup_fresh)
  then obtain d2 where d2: "GetPhaseDuration d1 (int i) = Ret (d2, f i)"
    using GetPhaseDuration_total[of "r\<lparr>rp_durations := d1\<rparr>"] s1 by auto
  have s2: "reporter_ok (r\<lparr>rp_durations := d2\<rparr>) \<and> same_reporter r (r\<lparr>rp_durations := d2\<rparr>)"
    using reporter_ok_step[of "r\<lparr>rp_durations := d1\<rparr>" "int i" d2 "f i"] s1 d2
    by (auto simp: same_reporter_def intro: same_setup_trans)
  have rp: "pd_repeats d1 = rp_repeats r" using s1 by (simp add: reporter_ok_def)
  have fr: "\<forall>k<length phs. fresh_duration d2 (int (Suc i + k)) = Ret (f (Suc i + k))"
    using Cons.prems(2) s2 by (fastforce simp: same_reporter_def same_setup_fresh dest: spec[of _ "Suc _"])
  let ?lg = "lg @ [(Info, phase_line (int i) (PhaseName ph) (GetRepeat (rp_repeats r) (int i)) (f i)
    (i64 (f i * GetRepeat (rp_repeats r) (int i))))]"
  from Cons.IH[of "r\<lparr>rp_durations := d2\<rparr>" "Suc i" ?lg] fr s2
  obtain r' where r': "summary_loop (r\<lparr>rp_durations := d2\<rparr>) ?lg (Suc i) phs = Ret (r', ?lg @ map (\<lambda>k. (Info,
      phase_line (int (Suc i + k)) (PhaseName (phs ! k)) (GetRepeat (rp_repeats r) (int (Suc i + k))) (f (Suc i + k))
      (i64 (f (Suc i + k) * GetRepeat (rp_repeats r) (int (Suc i + k)))))) [0..<length phs])"
    "reporter_ok r'" "same_reporter (r\<lparr>rp_durations := d2\<rparr>) r'"
    by auto
  have "same_reporter r r'" using s2 r'(3) by (auto simp: same_reporter_def intro: same_setup_trans)
  moreover have "summary_loop r lg i (ph # phs) = summary_loop (r\<lparr>rp_durations := d2\<rparr>) ?lg (Suc i) phs"
    using d1 d2 rp by (simp add: GetPhaseTotalDuration_def)
  ultimately show ?case using r' by (simp add: upt_conv_Cons map_Suc_upt[symmetric] add_ac del: upt_Suc)
qed (simp add: same_reporter_def)

lemma total_duration_loop_keeps:
  "cache_ok d \<Longrightarrow> total_duration_loop d t is = Ret (d', x) \<Longrightarrow> cache_ok d' \<and> same_setup d d'"
proof (induction "is" arbitrary: d t)
  case (Cons i "is")
  then obtain d1 y where d1: "GetPhaseDuration d (int i) = Ret (d1, y)"
    "total_duration_loop d1 (i64 (t + i64 (y * GetRepeat (pd_repeats d) (int i)))) is = Ret (d', x)"
    by (auto simp: go_simps)
  from GetPhaseDuration_keeps[OF Cons.prems(1) d1(1)] Cons.IH[OF _ d1(2)] show ?case
    by (auto intro: same_setup_trans)
qed simp

lemma GetTotalDuration_keeps:
  assumes "reporter_ok r" "GetTotalDuration (rp_durations r) = Ret (d, x)"
  shows "reporter_ok (r\<lparr>rp_durations := d\<rparr>) \<and> same_reporter r (r\<lparr>rp_durations := d\<rparr>)"
proof -
  have "cache_ok d \<and> same_setup (rp_durations r) d"
    using assms total_duration_loop_keeps
    by (fastforce simp: GetTotalDuration_def reporter_ok_def split: if_splits)
  with assms(1) same_setup_fields show ?thesis by (fastforce simp: reporter_ok_def same_reporter_def)
qed

lemma LogPlanSummary_inv:
  assumes "reporter_ok r" and "GetTotalDuration (rp_durations r) = Ret (d, total_time)"
    and "\<forall>i<length (Phases (rp_plan r)). \<exists>x. fresh_duration (rp_durations r) (int i) = Ret x"
  shows "\<exists>r' lg'. LogPlanSummary r lg = Ret (r', lg') \<and> reporter_ok r' \<and> same_reporter r r'"
proof -
  note k = GetTotalDuration_keeps[OF assms(1,2)]
  let ?r = "r\<lparr>rp_durations := d\<rparr>"
  obtain f where f: "\<forall>i<length (Phases (rp_plan r)). fresh_duration (rp_durations r) (int i) = Ret (f i)"
    using assms(3) by metis
  then have "\<forall>i<length (Phases (rp_plan r)). fresh_duration (rp_durations ?r) (int (0 + i)) = Ret (f (0 + i))"
    using k by (auto simp: same_reporter_def same_setup_fresh)
  from summary_loop_eq[OF k[THEN conjunct1] this]
  obtain r' lg' where "summary_loop ?r (lg @ [(Info, ''Successfully loaded execution plan''),
      (Info, summary_line (num_phases (rp_plan r)) total_time (PlanPattern (rp_plan r)))]) 0 (Phases (rp_plan r)) = Ret (r', lg')"
    "reporter_ok r'" "same_reporter ?r r'" by blast
  with k show ?thesis
    by (auto simp: LogPlanSummary_def assms(2) same_reporter_def intro: same_setup_trans)
qed

text \<open>
  The plan summary is one line for the plan and then one line for every phase, in plan
  order, with its repeats, its duration and its total, whatever was cached before; asking for it
  changes nothing but the cache.
\<close>

theorem plan_summary_lines:
  assumes "reporter_ok r" and "GetTotalDuration (rp_durations r) = Ret (d, total_time)"
    and "\<forall>i<length (Phases (rp_plan r)). fresh_duration (rp_durations r) (int i) = Ret (f i)"
  shows "\<exists>r'. LogPlanSummary r lg = Ret (r',
      lg @ [(Info, ''Successfully loaded execution plan''),
            (Info, summary_line (num_phases (rp_plan r)) total_time (PlanPattern (rp_plan r)))]
         @ map (\<lambda>i. (Info, phase_line (int i) (PhaseName (Phases (rp_plan r) ! i)) (GetRepeat (rp_repeats r) (int i))
               (f i) (i64 (f i * GetRepeat (rp_repeats r) (int i))))) [0..<length (Phases (rp_plan r))]
         @ [(Info, [])])
    \<and> reporter_ok r' \<and> same_reporter r r'"
proof -
  note k = GetTotalDuration_keeps[OF assms(1,2)]
  let ?r = "r\<lparr>rp_durations := d\<rparr>"
  have fr: "\<forall>i<length (Phases (rp_plan r)). fresh_duration (rp_durations ?r) (int (0 + i)) = Ret (f (0 + i))"
    using assms(3) k by (auto simp: same_reporter_def same_setup_fresh)
  define l2 where "l2 = lg @ [(Info, ''Successfully loaded execution plan''),
    (Info, summary_line (num_phases (rp_plan r)) total_time (PlanPattern (rp_plan r)))]"
  from summary_loop_eq[OF k[THEN conjunct1] fr, of l2, simplified]
  obtain r' where r': "summary_loop ?r l2 0 (Phases (rp_plan r))
    = Ret (r', l2 @ map (\<lambda>i. (Info, phase_line (int i) (PhaseName (Phases (rp_plan r) ! i)) (GetRepeat (rp_repeats r) (int i))
               (f i) (i64 (f i * GetRepeat (rp_repeats r) (int i))))) [0..<length (Phases (rp_plan r))])"
    "reporter_ok r'" "same_reporter ?r r'" by blast
  have "same_reporter r r'" using k r'(3) by (auto simp: same_reporter_def intro: same_setup_trans)
  then show ?thesis using r'(1,2) by (simp add: LogPlanSummary_def assms(2) l2_def)
qed

definition one_phase_reporter :: Reporter where
  "one_phase_reporter = NewReporter one_phase_plan (NewPhaseRepeats 4)
     (NewPhaseDurations 600000000000 one_phase_plan (NewPhaseRepeats 4))"

theorem plan_summary_lines_witness:
  "\<exists>r'. LogPlanSummary one_phase_reporter [] = Ret (r',
     [(Info, ''Successfully loaded execution plan''),
      (Info, ''Plan summary: 1 phases, 10m0s total runtime,  pattern''),
      (Info, ''Phase 1: p, 4 repeats, 2m30s per phase, 10m0s total''), (Info, [])])"
proof -
  let ?d = "NewPhaseDurations 600000000000 one_phase_plan (NewPhaseRepeats 4)"
  have T: "GetTotalRepeats (NewPhaseRepeats 4) 1 = 4"
    by (simp add: GetTotalRepeats_def NewPhaseRepeats_def is_i64_def)
  have ok: "reporter_ok one_phase_reporter"
    by (simp add: reporter_ok_def one_phase_reporter_def NewReporter_def) (simp add: NewPhaseDurations_def Let_def)
  have d: "GetTotalDuration ?d = Ret (?d, 600000000000)"
    by (simp add: GetTotalDuration_def NewPhaseDurations_def Let_def T num_phases_def one_phase_plan_def is_i64_def)
  have f: "fresh_duration ?d 0 = Ret 150000000000"
    by (simp add: fresh_duration_def GetPhaseDuration_def NewPhaseDurations_def T num_phases_def one_phase_plan_def
        go_simps clamp_duration_def Let_def is_i64_def)
  have s: "Duration_String 600000000000 = ''10m0s''" "Duration_String 150000000000 = ''2m30s''"
    by (simp_all add: Duration_String_def frac_term_def Let_def show_eval)
  have i: "itoa 1 = ''1''" "itoa 4 = ''4''" by (simp_all add: itoa_def show_eval)
  from plan_summary_lines[OF ok, of ?d 600000000000 "\<lambda>_. 150000000000" "[]"] d f show ?thesis
    by (simp add: one_phase_reporter_def NewReporter_def num_phases_def one_phase_plan_def phase_line_def
        summary_line_def s i is_i64_def) blast
qed

end
