(* ===== verification/Http.thy ===== *)
theory Http
  imports Plan
begin

text \<open>
  The HTTP requests of the client (\<^verbatim>\<open>cmd/chaosmania/client.go\<close>: \<^verbatim>\<open>doRequest\<close>, \<^verbatim>\<open>sendRequest\<close> and the
  request \<^verbatim>\<open>runWorker\<close> builds), with \<^verbatim>\<open>pkg/tracing.go\<close>. A body is the JSON value the code
  marshals. The parsing of URLs and the network itself are parameters: \<open>parse_url\<close> gives the
  host of a URL or the error of \<^verbatim>\<open>http.NewRequest\<close>, and \<open>net\<close> answers a request.
\<close>

section \<open>Tracing switches\<close>

definition IsDatadogEnabled :: "(string \<Rightarrow> string) \<Rightarrow> bool" where
  "IsDatadogEnabled getenv \<longleftrightarrow> getenv ''DATADOG_ENABLED'' = ''true''"

definition IsOpenTelemetryEnabled :: "(string \<Rightarrow> string) \<Rightarrow> bool" where
  "IsOpenTelemetryEnabled getenv \<longleftrightarrow> getenv ''OTEL_ENABLED'' = ''true''"

section \<open>Headers\<close>

text \<open>
  \<^verbatim>\<open>Header.Set\<close> stores under the canonical key: upper case at the start and after a hyphen,
  lower case elsewhere, and unchanged when some byte may not occur in a header name.
\<close>

definition upper_char :: "char \<Rightarrow> char" where
  "upper_char c = (if CHR ''a'' \<le> c \<and> c \<le> CHR ''z'' then char_of (of_char c - 32 :: nat) else c)"

definition header_byte :: "char \<Rightarrow> bool" where
  "header_byte c \<longleftrightarrow> (CHR ''a'' \<le> c \<and> c \<le> CHR ''z'') \<or> (CHR ''A'' \<le> c \<and> c \<le> CHR ''Z'') \<or> is_digit c
     \<or> c \<in> set ''!#$%&*+-.^_`|~'' \<or> c = CHR 0x27"

fun canonical_from :: "bool \<Rightarrow> string \<Rightarrow> string" where
  "canonical_from up [] = []"
| "canonical_from up (c # cs) = (if up then upper_char c else lower_char c) # canonical_from (c = CHR ''-'') cs"

definition canonical_key :: "string \<Rightarrow> string" where
  "canonical_key k = (if list_all header_byte k then canonical_from True k else k)"

type_synonym headers = "(string \<times> string) list"

definition Header_Set :: "string \<Rightarrow> string \<Rightarrow> headers \<Rightarrow> headers" where
  "Header_Set k v h = AList.update (canonical_key k) v h"

section \<open>Requests\<close>

record http_req =
  rq_method :: string
  rq_url :: string
  rq_host :: string
  rq_header :: headers
  rq_body :: json

definition target_url :: "string \<Rightarrow> int \<Rightarrow> string" where
  "target_url host port = ''http://'' @ host @ '':'' @ itoa port @ ''/''"

definition NewRequest :: "(string \<Rightarrow> string outcome) \<Rightarrow> string \<Rightarrow> string \<Rightarrow> json \<Rightarrow> http_req outcome" where
  "NewRequest parse_url meth url body =
     obind (parse_url url) (\<lambda>h. Ret \<lparr>rq_method = meth, rq_url = url, rq_host = h, rq_header = [], rq_body = body\<rparr>)"

definition json_request :: "http_req \<Rightarrow> http_req" where
  "json_request req = req\<lparr>rq_header := Header_Set ''Content-Type'' ''application/json'' (rq_header req)\<rparr>"

text \<open>The header loops: \<^verbatim>\<open>runWorker\<close> turns a \<^verbatim>\<open>Host\<close> header into the request's host, \<^verbatim>\<open>sendRequest\<close> does not.\<close>

fun worker_headers :: "headers \<Rightarrow> http_req \<Rightarrow> http_req" where
  "worker_headers [] req = req"
| "worker_headers ((k, v) # rest) req =
     worker_headers rest (if k = ''Host'' then req\<lparr>rq_host := v\<rparr> else req\<lparr>rq_header := Header_Set k v (rq_header req)\<rparr>)"

fun section_headers :: "headers \<Rightarrow> http_req \<Rightarrow> http_req" where
  "section_headers [] req = req"
| "section_headers ((k, v) # rest) req = section_headers rest (req\<lparr>rq_header := Header_Set k v (rq_header req)\<rparr>)"

definition worker_request :: "(string \<Rightarrow> string outcome) \<Rightarrow> string \<Rightarrow> int \<Rightarrow> json \<Rightarrow> headers \<Rightarrow> http_req outcome" where
  "worker_request parse_url host port payload hs =
     obind (NewRequest parse_url ''POST'' (target_url host port) payload) (\<lambda>req. Ret (worker_headers hs (json_request req)))"

section \<open>Sending\<close>

datatype transport = DefaultTransport | OtelTransport | DatadogTransport

datatype http_result = Failed gerror | Response int "string outcome"

text \<open>
  The network: a state, the transport, the client's timeout (zero is none) and the request, to
  the new state and what \<^verbatim>\<open>client.Do\<close> returns.
\<close>

type_synonym 'n net = "'n \<Rightarrow> transport \<Rightarrow> int \<Rightarrow> http_req \<Rightarrow> 'n \<times> http_result"

definition doRequest :: "(string \<Rightarrow> string) \<Rightarrow> 'n net \<Rightarrow> 'n \<Rightarrow> http_req \<Rightarrow> int option \<Rightarrow> 'n \<times> http_result" where
  "doRequest getenv net n req timeout =
     (let client_timeout = (case timeout of None \<Rightarrow> 0 | Some t \<Rightarrow> t) in
      if IsDatadogEnabled getenv then net n DatadogTransport client_timeout req
      else if IsOpenTelemetryEnabled getenv then net n OtelTransport client_timeout req
      else net n DefaultTransport client_timeout req)"

definition sendRequest ::
  "(string \<Rightarrow> string) \<Rightarrow> (string \<Rightarrow> string outcome) \<Rightarrow> 'n net \<Rightarrow> 'n \<Rightarrow> log \<Rightarrow> gmap \<Rightarrow> string \<Rightarrow> int \<Rightarrow> headers
    \<Rightarrow> 'n \<times> log \<times> unit outcome" where
  "sendRequest getenv parse_url net n lg payload host port hs =
     (case Marshal (GMapS payload) of
        Err e \<Rightarrow> (n, lg, Err e)
      | Panic p \<Rightarrow> (n, lg, Panic p)
      | Ret body \<Rightarrow>
          (case NewRequest parse_url ''POST'' (target_url host port) body of
             Err e \<Rightarrow> (n, emit Error ''failed to create request'' lg, Err e)
           | Panic p \<Rightarrow> (n, lg, Panic p)
           | Ret req \<Rightarrow>
               (case doRequest getenv net n (section_headers hs (json_request req)) None of
                  (n', Failed e) \<Rightarrow> (n', emit Error ''Request failed'' lg, Err e)
                | (n', Response status body) \<Rightarrow>
                    if status = 400 then
                      (case body of
                         Ret s \<Rightarrow> (n', emit Warn s (emit Warn ''Request failed with 400 status:'' lg), Ret ())
                       | Err e \<Rightarrow> (n', lg, Err e)
                       | Panic p \<Rightarrow> (n', lg, Panic p))
                    else (n', lg, Ret ()))))"

text \<open>An HTTP status is not a failure of the section: only the transport and the body of a 400 are.\<close>

lemma sendRequest_status:
  assumes "Marshal (GMapS payload) = Ret body" "parse_url (target_url host port) = Ret h"
    and "doRequest getenv net n (section_headers hs (json_request \<lparr>rq_method = ''POST'',
      rq_url = target_url host port, rq_host = h, rq_header = [], rq_body = body\<rparr>)) None = (n', Response status b)"
    and "status \<noteq> 400"
  shows "sendRequest getenv parse_url net n lg payload host port hs = (n', lg, Ret ())"
  using assms by (simp add: sendRequest_def NewRequest_def)

section \<open>The host header\<close>

lemma section_headers_fields [simp]:
  "rq_host (section_headers hs r) = rq_host r" "rq_url (section_headers hs r) = rq_url r"
  "rq_body (section_headers hs r) = rq_body r" "rq_method (section_headers hs r) = rq_method r"
  by (induction hs r rule: section_headers.induct) auto

lemma worker_headers_fields [simp]:
  "rq_url (worker_headers hs r) = rq_url r" "rq_body (worker_headers hs r) = rq_body r"
  "rq_method (worker_headers hs r) = rq_method r"
  by (induction hs r rule: worker_headers.induct) auto

lemma worker_headers_host:
  "distinct (map fst hs) \<Longrightarrow> rq_host (worker_headers hs r) = (case map_of hs ''Host'' of Some h \<Rightarrow> h | None \<Rightarrow> rq_host r)"
proof (induction hs r rule: worker_headers.induct)
  case (2 k v rest req)
  then show ?case by (cases "k = ''Host''") (auto simp: map_of_eq_None_iff[THEN iffD2] split: option.splits)
qed simp

text \<open>
  The \<^verbatim>\<open>Host\<close> header given on the command line reaches the workload and not the setup and
  teardown sections: a worker's request goes to that host, the request \<^verbatim>\<open>sendRequest\<close> hands to
  the network keeps the host of the URL and differs from it.
\<close>

theorem host_header_only_for_workers:
  assumes "distinct (map fst hs)" and "map_of hs ''Host'' = Some h"
    and "parse_url (target_url host port) = Ret u" and "Marshal (GMapS payload) = Ret body"
  shows "(\<exists>req. worker_request parse_url host port body hs = Ret req \<and> rq_host req = h \<and> rq_body req = body)
    \<and> (\<exists>req. rq_host req = u \<and> rq_body req = body \<and>
        sendRequest getenv parse_url (\<lambda>sent tr t r. (sent @ [r], Response 200 (Ret []))) [] lg payload host port hs
          = ([req], lg, Ret ()))"
  using assms
  by (simp add: worker_request_def NewRequest_def worker_headers_host json_request_def sendRequest_def doRequest_def Let_def)

theorem host_header_only_for_workers_witness:
  "\<exists>req. worker_request (\<lambda>u. Ret ''10.0.0.1:80'') ''10.0.0.1'' 80 (JObj []) [(''Host'', ''shop.local'')] = Ret req
     \<and> rq_host req = ''shop.local''"
  using host_header_only_for_workers[where hs = "[(''Host'', ''shop.local'')]" and h = "''shop.local''" and host = "''10.0.0.1''"
      and port = 80 and parse_url = "\<lambda>u. Ret ''10.0.0.1:80''" and u = "''10.0.0.1:80''" and payload = "[]" and body = "JObj []"
      and getenv = "\<lambda>_. []" and lg = "[]"]
  by (simp add: sort_key_def) blast

end
