(* ===== verification/Worker.thy ===== *)
theory Worker
  imports Http
begin

text \<open>
  The workers of a phase and the statistics they share (\<^verbatim>\<open>cmd/chaosmania/client.go\<close>:
  \<^verbatim>\<open>statistics\<close>, \<^verbatim>\<open>runWorker\<close> and the statistics reporter started by \<^verbatim>\<open>executePhase\<close>).

  A worker is its local map of status codes, where it is in its loop (at the \<^verbatim>\<open>select\<close>, waiting
  for an answer, gone), and the operations it still has to perform before it is there. Every
  operation on shared state is one step, so all interleavings of the atomic additions, of the
  critical section and of the reporter's reads are runs of the step relation. What the
  environment decides (the timer, the answers, the end of the context) is an event of a step.
\<close>

section \<open>Statistics\<close>

record statisticCounters =
  ctrErrors :: "64 word"
  ctrRequests :: "64 word"
  ctrDurationMicroseconds :: "64 word"

type_synonym codes = "(int \<times> int) list"

record statistics =
  counters :: statisticCounters
  allStatusCodes :: codes
  st_log :: log
  st_sent :: "(int \<times> http_req) list"

definition no_counters :: statisticCounters where
  "no_counters = \<lparr>ctrErrors = 0, ctrRequests = 0, ctrDurationMicroseconds = 0\<rparr>"

text \<open>\<^verbatim>\<open>m[k] += c\<close> on a map of counts, where a missing key counts as zero.\<close>

definition code_count :: "codes \<Rightarrow> int \<Rightarrow> int" where
  "code_count m k = (case map_of m k of Some c \<Rightarrow> c | None \<Rightarrow> 0)"

definition bump :: "int \<Rightarrow> int \<Rightarrow> codes \<Rightarrow> codes" where
  "bump k c m = AList.update k (i64 (code_count m k + c)) m"

fun merge_codes :: "codes \<Rightarrow> codes \<Rightarrow> codes" where
  "merge_codes [] total_codes = total_codes"
| "merge_codes ((k, v) # rest) total_codes = merge_codes rest (bump k v total_codes)"

section \<open>The worker\<close>

datatype worker_mode = Selecting | InFlight | Gone

datatype worker_op =
    Say level string
  | Send http_req
  | AddErrors
  | AddDuration "64 word"
  | AddRequests
  | CountCode int
  | Merge

record worker =
  wk_ops :: "worker_op list"
  wk_codes :: codes
  wk_mode :: worker_mode
  wk_timeout :: int

text \<open>
  Events: the context's \<^verbatim>\<open>Done\<close> channel with the error the context has, the timer, a request that
  failed (with the context's error at that time, if any), an answer with its status, the
  result of reading its body and the nanoseconds it took.
\<close>

datatype worker_event =
    CtxDone gerror
  | Timer
  | RequestFailed "gerror option"
  | Answered int "string outcome" int

fun stop_msg :: "gerror \<Rightarrow> string" where
  "stop_msg ECanceled = ''Worker stopping due to command completion''"
| "stop_msg EDeadlineExceeded = ''Worker stopping due to timeout''"
| "stop_msg _ = ''Worker stopping due to context error''"

fun cancel_msg :: "gerror \<Rightarrow> string" where
  "cancel_msg ECanceled = ''Request cancelled due to command completion''"
| "cancel_msg EDeadlineExceeded = ''Request cancelled due to timeout''"
| "cancel_msg _ = ''Request cancelled due to context error''"

definition microseconds :: "int \<Rightarrow> 64 word" where
  "microseconds took = of_int (sgn took * (\<bar>took\<bar> div 1000))"

text \<open>One pass of the loop up to the next wait: what is performed, and where the worker is then.\<close>

fun worker_react :: "http_req outcome \<Rightarrow> worker_mode \<Rightarrow> worker_event \<Rightarrow> (worker_op list \<times> worker_mode) option" where
  "worker_react req Selecting (CtxDone e) = Some ([Say Debug (stop_msg e), Merge], Gone)"
| "worker_react req Selecting Timer =
     (case req of
        Ret r \<Rightarrow> Some ([Send r], InFlight)
      | _ \<Rightarrow> Some ([Say Error ''failed to create request''], Gone))"
| "worker_react req InFlight (RequestFailed (Some e)) = Some ([Say Debug (cancel_msg e), Merge], Gone)"
| "worker_react req InFlight (RequestFailed None) = Some ([AddErrors], Selecting)"
| "worker_react req InFlight (Answered status body took) =
     (let count = [AddDuration (microseconds took), AddRequests, CountCode status] in
      if status = 400 then
        (case body of Ret s \<Rightarrow> Some (Say Warn s # count, Selecting) | _ \<Rightarrow> Some ([], Selecting))
      else if status > 400 then Some (AddErrors # count, Selecting)
      else Some (count, Selecting))"
| "worker_react req _ _ = None"

fun perform :: "worker_op \<Rightarrow> worker \<Rightarrow> statistics \<Rightarrow> worker \<times> statistics" where
  "perform (Say l msg) w st = (w, st\<lparr>st_log := emit l msg (st_log st)\<rparr>)"
| "perform (Send r) w st = (w, st\<lparr>st_sent := st_sent st @ [(wk_timeout w, r)]\<rparr>)"
| "perform AddErrors w st = (w, st\<lparr>counters := (counters st)\<lparr>ctrErrors := ctrErrors (counters st) + 1\<rparr>\<rparr>)"
| "perform (AddDuration d) w st =
     (w, st\<lparr>counters := (counters st)\<lparr>ctrDurationMicroseconds := ctrDurationMicroseconds (counters st) + d\<rparr>\<rparr>)"
| "perform AddRequests w st = (w, st\<lparr>counters := (counters st)\<lparr>ctrRequests := ctrRequests (counters st) + 1\<rparr>\<rparr>)"
| "perform (CountCode k) w st = (w\<lparr>wk_codes := bump k 1 (wk_codes w)\<rparr>, st)"
| "perform Merge w st = (w, st\<lparr>allStatusCodes := merge_codes (wk_codes w) (allStatusCodes st)\<rparr>)"

text \<open>The timeout of each request: ten seconds unless the plan sets one.\<close>

definition worker_timeout :: "int \<Rightarrow> int" where
  "worker_timeout timeout = (if timeout \<noteq> 0 then timeout else 10 * Second)"

definition new_worker :: "int \<Rightarrow> worker" where
  "new_worker timeout = \<lparr>wk_ops = [], wk_codes = [], wk_mode = Selecting, wk_timeout = worker_timeout timeout\<rparr>"

definition worker_done :: "worker \<Rightarrow> bool" where
  "worker_done w \<longleftrightarrow> wk_mode w = Gone \<and> wk_ops w = []"

section \<open>The statistics reporter\<close>

datatype ticker_mode = Waiting | ReadErrors | ReadRequests | ReadDuration | Ended

record ticker =
  tk_mode :: ticker_mode
  tk_last :: statisticCounters
  tk_current :: statisticCounters

definition new_ticker :: ticker where
  "new_ticker = \<lparr>tk_mode = Waiting, tk_last = no_counters, tk_current = no_counters\<rparr>"

text \<open>\<^verbatim>\<open>%.1f\<close> of a non-negative number.\<close>

definition show_fixed1 :: "rat \<Rightarrow> string" where
  "show_fixed1 q = (let n = nat (round_even (q * 10)) in show_nat (n div 10) @ ''.'' @ show_nat (n mod 10))"

definition tick_numbers :: "statisticCounters \<Rightarrow> statisticCounters \<Rightarrow> 64 word \<times> 64 word \<times> int \<times> 64 word" where
  "tick_numbers prev current =
     (let duration = ctrDurationMicroseconds current - ctrDurationMicroseconds prev;
          requests = ctrRequests current - ctrRequests prev;
          errors = ctrErrors current - ctrErrors prev
      in if requests > 0 then
           (requests, errors, i64 (sint (duration div requests) * 1000), if errors > requests then 0 else requests - errors)
         else (requests, errors, 0, 0))"

definition tick_line :: "statisticCounters \<Rightarrow> statisticCounters \<Rightarrow> string" where
  "tick_line prev current =
     (case tick_numbers prev current of (requests, errors, latency, ok) \<Rightarrow>
        show_fixed1 (f64 (f64 (of_nat (unat requests)) / 10)) @ '' req/s, avg latency '' @ Duration_String latency
          @ '', '' @ show_nat (unat errors) @ '' errors, '' @ show_nat (unat ok) @ '' ok'')"

text \<open>One step of the reporter: a tick, three reads, and then either the first sample or a line.\<close>

definition ticker_step :: "ticker \<Rightarrow> statistics \<Rightarrow> (ticker \<times> statistics) option" where
  "ticker_step t st =
     (case tk_mode t of
        Waiting \<Rightarrow> Some (t\<lparr>tk_mode := ReadErrors\<rparr>, st)
      | ReadErrors \<Rightarrow> Some (t\<lparr>tk_current := (tk_current t)\<lparr>ctrErrors := ctrErrors (counters st)\<rparr>, tk_mode := ReadRequests\<rparr>, st)
      | ReadRequests \<Rightarrow> Some (t\<lparr>tk_current := (tk_current t)\<lparr>ctrRequests := ctrRequests (counters st)\<rparr>, tk_mode := ReadDuration\<rparr>, st)
      | ReadDuration \<Rightarrow>
          (let current = (tk_current t)\<lparr>ctrDurationMicroseconds := ctrDurationMicroseconds (counters st)\<rparr> in
           Some (t\<lparr>tk_mode := Waiting, tk_last := current, tk_current := current\<rparr>,
             if ctrRequests (tk_last t) = 0 then st
             else st\<lparr>st_log := emit Info (tick_line (tk_last t) current) (st_log st)\<rparr>))
      | Ended \<Rightarrow> None)"

definition ticker_end :: "int \<Rightarrow> ticker \<Rightarrow> statistics \<Rightarrow> (ticker \<times> statistics) option" where
  "ticker_end i t st =
     (if tk_mode t = Waiting then
        Some (t\<lparr>tk_mode := Ended\<rparr>, st\<lparr>st_log := emit Debug (''Worker group '' @ itoa (i + 1) @ '' completed'') (st_log st)\<rparr>)
      else None)"

end
