(* ===== verification/WorkerRuns.thy ===== *)
theory WorkerRuns
  imports Worker
begin

text \<open>
  All runs of the workers and reporters of a phase: the labelled step relation, the executable
  version that follows a schedule, and the conservation laws that tie the shared counters to
  the status codes, whatever the interleaving.
\<close>

section \<open>Steps\<close>

record system =
  sy_workers :: "worker list"
  sy_tickers :: "ticker list"
  sy_stats :: statistics

datatype label =
    Start Workers
  | MainSay level string
  | Op nat
  | Event nat worker_event
  | Tick nat
  | TickEnd nat

definition phase_system :: "log \<Rightarrow> system" where
  "phase_system lg = \<lparr>sy_workers = [], sy_tickers = [],
     sy_stats = \<lparr>counters = no_counters, allStatusCodes = [], st_log = lg, st_sent = []\<rparr>\<rparr>"

definition main_say :: "level \<Rightarrow> string \<Rightarrow> system \<Rightarrow> system" where
  "main_say l msg s = s\<lparr>sy_stats := (sy_stats s)\<lparr>st_log := emit l msg (st_log (sy_stats s))\<rparr>\<rparr>"

text \<open>Starting a group adds its reporter and its workers.\<close>

definition start_group :: "Workers \<Rightarrow> system \<Rightarrow> system" where
  "start_group g s = s\<lparr>sy_workers := sy_workers s @ replicate (unat (Instances g)) (new_worker (Timeout g)),
     sy_tickers := sy_tickers s @ [new_ticker]\<rparr>"

inductive run :: "http_req outcome \<Rightarrow> system \<Rightarrow> label list \<Rightarrow> system \<Rightarrow> bool" for req :: "http_req outcome" where
  run_nil: "run req s [] s"
| run_start: "run req (start_group g s) ls s' \<Longrightarrow> run req s (Start g # ls) s'"
| run_main: "run req (main_say l msg s) ls s' \<Longrightarrow> run req s (MainSay l msg # ls) s'"
| run_op: "i < length (sy_workers s) \<Longrightarrow> wk_ops (sy_workers s ! i) = o1 # os \<Longrightarrow>
    perform o1 ((sy_workers s ! i)\<lparr>wk_ops := os\<rparr>) (sy_stats s) = (w, st) \<Longrightarrow>
    run req (s\<lparr>sy_workers := (sy_workers s)[i := w], sy_stats := st\<rparr>) ls s' \<Longrightarrow> run req s (Op i # ls) s'"
| run_event: "i < length (sy_workers s) \<Longrightarrow> wk_ops (sy_workers s ! i) = [] \<Longrightarrow>
    worker_react req (wk_mode (sy_workers s ! i)) ev = Some (os, m) \<Longrightarrow>
    run req (s\<lparr>sy_workers := (sy_workers s)[i := (sy_workers s ! i)\<lparr>wk_ops := os, wk_mode := m\<rparr>]\<rparr>) ls s' \<Longrightarrow>
    run req s (Event i ev # ls) s'"
| run_tick: "i < length (sy_tickers s) \<Longrightarrow> ticker_step (sy_tickers s ! i) (sy_stats s) = Some (t, st) \<Longrightarrow>
    run req (s\<lparr>sy_tickers := (sy_tickers s)[i := t], sy_stats := st\<rparr>) ls s' \<Longrightarrow> run req s (Tick i # ls) s'"
| run_tick_end: "i < length (sy_tickers s) \<Longrightarrow> ticker_end (int i) (sy_tickers s ! i) (sy_stats s) = Some (t, st) \<Longrightarrow>
    run req (s\<lparr>sy_tickers := (sy_tickers s)[i := t], sy_stats := st\<rparr>) ls s' \<Longrightarrow> run req s (TickEnd i # ls) s'"

inductive_simps run_Nil_iff: "run req s [] s'"
inductive_simps run_Start_iff: "run req s (Start g # ls) s'"
inductive_simps run_Main_iff: "run req s (MainSay l msg # ls) s'"
inductive_simps run_Op_iff: "run req s (Op i # ls) s'"
inductive_simps run_Event_iff: "run req s (Event i ev # ls) s'"
inductive_simps run_Tick_iff: "run req s (Tick i # ls) s'"
inductive_simps run_TickEnd_iff: "run req s (TickEnd i # ls) s'"

lemmas run_iffs = run_Nil_iff run_Start_iff run_Main_iff run_Op_iff run_Event_iff run_Tick_iff run_TickEnd_iff

fun sys_step :: "http_req outcome \<Rightarrow> label \<Rightarrow> system \<Rightarrow> system option" where
  "sys_step req (Start g) s = Some (start_group g s)"
| "sys_step req (MainSay l msg) s = Some (main_say l msg s)"
| "sys_step req (Op i) s =
     (if i < length (sy_workers s) then
        (case wk_ops (sy_workers s ! i) of
           [] \<Rightarrow> None
         | o1 # os \<Rightarrow>
             (case perform o1 ((sy_workers s ! i)\<lparr>wk_ops := os\<rparr>) (sy_stats s) of
                (w, st) \<Rightarrow> Some (s\<lparr>sy_workers := (sy_workers s)[i := w], sy_stats := st\<rparr>)))
      else None)"
| "sys_step req (Event i ev) s =
     (if i < length (sy_workers s) \<and> wk_ops (sy_workers s ! i) = [] then
        (case worker_react req (wk_mode (sy_workers s ! i)) ev of
           None \<Rightarrow> None
         | Some (os, m) \<Rightarrow> Some (s\<lparr>sy_workers := (sy_workers s)[i := (sy_workers s ! i)\<lparr>wk_ops := os, wk_mode := m\<rparr>]\<rparr>))
      else None)"
| "sys_step req (Tick i) s =
     (if i < length (sy_tickers s) then
        (case ticker_step (sy_tickers s ! i) (sy_stats s) of
           None \<Rightarrow> None
         | Some (t, st) \<Rightarrow> Some (s\<lparr>sy_tickers := (sy_tickers s)[i := t], sy_stats := st\<rparr>))
      else None)"
| "sys_step req (TickEnd i) s =
     (if i < length (sy_tickers s) then
        (case ticker_end (int i) (sy_tickers s ! i) (sy_stats s) of
           None \<Rightarrow> None
         | Some (t, st) \<Rightarrow> Some (s\<lparr>sy_tickers := (sy_tickers s)[i := t], sy_stats := st\<rparr>))
      else None)"

fun exec_schedule :: "http_req outcome \<Rightarrow> label list \<Rightarrow> system \<Rightarrow> system option" where
  "exec_schedule req [] s = Some s"
| "exec_schedule req (l # ls) s = (case sys_step req l s of None \<Rightarrow> None | Some s' \<Rightarrow> exec_schedule req ls s')"

text \<open>The executable version follows the relation.\<close>

lemma run_Cons_iff: "run req s (l # ls) s' \<longleftrightarrow> (\<exists>s1. sys_step req l s = Some s1 \<and> run req s1 ls s')"
  by (cases l) (auto simp: run_iffs split: list.splits option.splits prod.splits if_splits)

lemma run_iff_exec: "run req s ls s' \<longleftrightarrow> exec_schedule req ls s = Some s'"
proof (induction ls arbitrary: s)
  case Nil
  show ?case by (auto simp: run_Nil_iff)
next
  case (Cons l ls)
  then show ?case by (auto simp: run_Cons_iff split: option.splits)
qed

section \<open>Conservation\<close>

fun codes_sum :: "(int \<Rightarrow> bool) \<Rightarrow> codes \<Rightarrow> int" where
  "codes_sum P [] = 0"
| "codes_sum P ((k, c) # rest) = (if P k then c else 0) + codes_sum P rest"

fun counts_code :: "(int \<Rightarrow> bool) \<Rightarrow> worker_op \<Rightarrow> bool" where
  "counts_code P (CountCode k) = P k"
| "counts_code P _ = False"

fun quiet :: "worker_op \<Rightarrow> bool" where
  "quiet (Say l m) = True"
| "quiet Merge = True"
| "quiet _ = False"

definition unmerged :: "worker \<Rightarrow> bool" where
  "unmerged w \<longleftrightarrow> wk_mode w \<noteq> Gone \<or> Merge \<in> set (wk_ops w)"

text \<open>
  What a worker has counted but not yet added to the shared map, less what it has counted but
  not yet added to a shared counter.
\<close>

definition balance :: "(int \<Rightarrow> bool) \<Rightarrow> worker_op \<Rightarrow> worker \<Rightarrow> 64 word" where
  "balance P a w = (if unmerged w then of_int (codes_sum P (wk_codes w)) else 0)
     + of_nat (length (filter (counts_code P) (wk_ops w))) - of_nat (length (filter ((=) a) (wk_ops w)))"

definition counter_of :: "worker_op \<Rightarrow> statistics \<Rightarrow> 64 word" where
  "counter_of a st = (if a = AddErrors then ctrErrors (counters st) else ctrRequests (counters st))"

definition gap :: "(int \<Rightarrow> bool) \<Rightarrow> worker_op \<Rightarrow> system \<Rightarrow> 64 word" where
  "gap P a s = counter_of a (sy_stats s) - of_int (codes_sum P (allStatusCodes (sy_stats s)))
     - sum_list (map (balance P a) (sy_workers s))"

lemma codes_sum_bump:
  "(of_int (codes_sum P (bump k c m)) :: 64 word) = of_int (codes_sum P m) + (if P k then of_int c else 0)"
  by (induction m) (auto simp: bump_def code_count_def)

lemma codes_sum_merge:
  "(of_int (codes_sum P (merge_codes m a)) :: 64 word) = of_int (codes_sum P a) + of_int (codes_sum P m)"
  by (induction m a rule: merge_codes.induct) (auto simp: codes_sum_bump)

text \<open>The shape of a worker's pending operations.\<close>

definition wf_worker :: "http_req outcome \<Rightarrow> worker \<Rightarrow> bool" where
  "wf_worker req w \<longleftrightarrow> Merge \<notin> set (butlast (wk_ops w))
     \<and> (if wk_mode w = Gone then list_all quiet (wk_ops w) else Merge \<notin> set (wk_ops w))
     \<and> (\<not> is_ret req \<longrightarrow> wk_codes w = [] \<and> wk_mode w \<noteq> InFlight \<and> list_all quiet (wk_ops w))"

definition wf_system :: "http_req outcome \<Rightarrow> system \<Rightarrow> bool" where
  "wf_system req s \<longleftrightarrow> list_all (wf_worker req) (sy_workers s)"

lemma quiet_not_code: "quiet o1 \<Longrightarrow> \<not> counts_code P o1"
  by (cases o1) auto

lemma quiet_no_code: "list_all quiet os \<Longrightarrow> filter (counts_code P) os = []"
  by (induction os) (auto simp: quiet_not_code)

lemma wf_worker_op:
  assumes "wf_worker req w" "wk_ops w = o1 # os" "perform o1 (w\<lparr>wk_ops := os\<rparr>) st = (w', st')"
  shows "wf_worker req w'"
  using assms by (cases o1; cases os) (auto simp: wf_worker_def split: if_splits)

lemma wf_worker_event:
  assumes "wf_worker req w" "wk_ops w = []" "worker_react req (wk_mode w) ev = Some (os, m)"
  shows "wf_worker req (w\<lparr>wk_ops := os, wk_mode := m\<rparr>)"
  using assms
  by (induction req "wk_mode w" ev rule: worker_react.induct)
    (auto simp: wf_worker_def Let_def split: if_splits outcome.splits)

text \<open>An operation moves a count from one side to the other.\<close>

lemma balance_op:
  assumes "wf_worker req w" "wk_ops w = o1 # os" "perform o1 (w\<lparr>wk_ops := os\<rparr>) st = (w', st')"
    and "a = AddErrors \<or> a = AddRequests"
  shows "counter_of a st' - of_int (codes_sum P (allStatusCodes st')) - balance P a w'
    = counter_of a st - of_int (codes_sum P (allStatusCodes st)) - balance P a w"
  using assms
  by (cases o1) (auto simp: balance_def counter_of_def unmerged_def wf_worker_def codes_sum_bump codes_sum_merge
      quiet_no_code split: if_splits)

text \<open>An event adds as much to the one side as to the other, except that a failed request is only counted as an error.\<close>

fun lost_request :: "label \<Rightarrow> nat" where
  "lost_request (Event i (RequestFailed None)) = 1"
| "lost_request _ = 0"

lemma balance_event_requests:
  assumes "wf_worker req w" "wk_ops w = []" "worker_react req (wk_mode w) ev = Some (os, m)"
  shows "balance (\<lambda>_. True) AddRequests (w\<lparr>wk_ops := os, wk_mode := m\<rparr>) = balance (\<lambda>_. True) AddRequests w"
  using assms
  by (induction req "wk_mode w" ev rule: worker_react.induct)
    (auto simp: balance_def unmerged_def wf_worker_def Let_def split: if_splits outcome.splits)

lemma balance_event_errors:
  assumes "wf_worker req w" "wk_ops w = []" "worker_react req (wk_mode w) ev = Some (os, m)"
  shows "balance (\<lambda>k. 400 < k) AddErrors (w\<lparr>wk_ops := os, wk_mode := m\<rparr>)
    = balance (\<lambda>k. 400 < k) AddErrors w - of_nat (lost_request (Event i ev))"
  using assms
  by (induction req "wk_mode w" ev rule: worker_react.induct)
    (auto simp: balance_def unmerged_def wf_worker_def Let_def split: if_splits outcome.splits)

lemma balance_new [simp]: "balance P a (new_worker t) = 0"
  by (simp add: balance_def new_worker_def)

lemma wf_worker_new [simp]: "wf_worker req (new_worker t)"
  by (simp add: wf_worker_def new_worker_def)

lemma ticker_step_stats:
  assumes "ticker_step t st = Some (t', st')"
  shows "counters st' = counters st \<and> allStatusCodes st' = allStatusCodes st"
  using assms by (auto simp: ticker_step_def Let_def split: ticker_mode.splits)

lemma ticker_end_stats:
  assumes "ticker_end i t st = Some (t', st')"
  shows "counters st' = counters st \<and> allStatusCodes st' = allStatusCodes st"
  using assms by (auto simp: ticker_end_def split: if_splits)

lemma gap_worker_update:
  assumes "i < length (sy_workers s)"
  shows "gap P a (s\<lparr>sy_workers := (sy_workers s)[i := w], sy_stats := st\<rparr>)
    = counter_of a st - of_int (codes_sum P (allStatusCodes st))
      - (sum_list (map (balance P a) (sy_workers s)) - balance P a (sy_workers s ! i) + balance P a w)"
  using sum_list_map_update[OF assms, of "balance P a" w] by (simp add: gap_def)

lemma wf_system_update:
  "wf_system req s \<Longrightarrow> wf_worker req w \<Longrightarrow> wf_system req (s\<lparr>sy_workers := (sy_workers s)[i := w], sy_stats := st\<rparr>)"
  by (auto simp: wf_system_def list_all_iff dest: set_update_subset_insert[THEN subsetD])

lemma wf_system_nth: "wf_system req s \<Longrightarrow> i < length (sy_workers s) \<Longrightarrow> wf_worker req (sy_workers s ! i)"
  by (simp add: wf_system_def list_all_length)

lemma gap_op:
  assumes "wf_system req s" "sys_step req (Op i) s = Some s'" "a = AddErrors \<or> a = AddRequests"
  shows "wf_system req s' \<and> gap P a s' = gap P a s"
proof -
  from assms(2) obtain o1 os w st where i: "i < length (sy_workers s)" and ops: "wk_ops (sy_workers s ! i) = o1 # os"
    and p: "perform o1 ((sy_workers s ! i)\<lparr>wk_ops := os\<rparr>) (sy_stats s) = (w, st)"
    and s': "s' = s\<lparr>sy_workers := (sy_workers s)[i := w], sy_stats := st\<rparr>"
    by (auto split: if_splits list.splits prod.splits)
  note wf = wf_system_nth[OF assms(1) i]
  have "gap P a s' = gap P a s"
    using balance_op[OF wf ops p assms(3), of P] by (simp add: s' gap_worker_update[OF i]) (simp add: gap_def algebra_simps)
  with wf_system_update[OF assms(1) wf_worker_op[OF wf ops p]] s' show ?thesis by simp
qed

lemma gap_event:
  assumes "wf_system req s" "sys_step req (Event i ev) s = Some s'"
  shows "wf_system req s' \<and> gap (\<lambda>_. True) AddRequests s' = gap (\<lambda>_. True) AddRequests s
    \<and> gap (\<lambda>k. 400 < k) AddErrors s' = gap (\<lambda>k. 400 < k) AddErrors s + of_nat (lost_request (Event i ev))"
proof -
  let ?w = "sy_workers s ! i"
  from assms(2) obtain os m where i: "i < length (sy_workers s)" and ops: "wk_ops ?w = []"
    and r: "worker_react req (wk_mode ?w) ev = Some (os, m)"
    and s': "s' = s\<lparr>sy_workers := (sy_workers s)[i := ?w\<lparr>wk_ops := os, wk_mode := m\<rparr>], sy_stats := sy_stats s\<rparr>"
    by (auto split: if_splits option.splits)
  note wf = wf_system_nth[OF assms(1) i]
  have "gap (\<lambda>_. True) AddRequests s' = gap (\<lambda>_. True) AddRequests s"
    unfolding s' gap_worker_update[OF i] balance_event_requests[OF wf ops r] by (simp add: gap_def)
  moreover have "gap (\<lambda>k. 400 < k) AddErrors s' = gap (\<lambda>k. 400 < k) AddErrors s + of_nat (lost_request (Event i ev))"
    unfolding s' gap_worker_update[OF i] balance_event_errors[OF wf ops r, of i] by (simp add: gap_def)
  ultimately show ?thesis
    using wf_system_update[OF assms(1) wf_worker_event[OF wf ops r], where i = i and st = "sy_stats s"] s' by simp
qed

lemma gap_step:
  assumes "wf_system req s" "sys_step req l s = Some s'"
  shows "wf_system req s' \<and> gap (\<lambda>_. True) AddRequests s' = gap (\<lambda>_. True) AddRequests s
    \<and> gap (\<lambda>k. 400 < k) AddErrors s' = gap (\<lambda>k. 400 < k) AddErrors s + of_nat (lost_request l)"
proof (cases l)
  case (Start g)
  then show ?thesis using assms
    by (auto simp: gap_def start_group_def wf_system_def list_all_iff sum_list_replicate)
next
  case (MainSay lv msg)
  then show ?thesis using assms by (auto simp: gap_def main_say_def wf_system_def counter_of_def)
next
  case (Op i)
  note step = gap_op[OF assms(1) assms(2)[unfolded this]]
  from step[of AddRequests "\<lambda>_. True"] step[of AddErrors "\<lambda>k. 400 < k"] Op show ?thesis by simp
next
  case (Event i ev)
  show ?thesis using gap_event[OF assms(1) assms(2)[unfolded Event]] by (simp only: Event)
next
  case (Tick i)
  then show ?thesis using assms
    by (auto simp: gap_def wf_system_def counter_of_def dest!: ticker_step_stats split: if_splits option.splits)
next
  case (TickEnd i)
  then show ?thesis using assms
    by (auto simp: gap_def wf_system_def counter_of_def dest!: ticker_end_stats split: if_splits option.splits)
qed

lemma gap_run:
  assumes "wf_system req s" "exec_schedule req ls s = Some s'"
  shows "wf_system req s' \<and> gap (\<lambda>_. True) AddRequests s' = gap (\<lambda>_. True) AddRequests s
    \<and> gap (\<lambda>k. 400 < k) AddErrors s' = gap (\<lambda>k. 400 < k) AddErrors s + of_nat (sum_list (map lost_request ls))"
  using assms
proof (induction ls arbitrary: s)
  case (Cons l ls)
  then obtain s1 where s1: "sys_step req l s = Some s1" "exec_schedule req ls s1 = Some s'"
    by (auto split: option.splits)
  with gap_step[OF Cons.prems(1) s1(1)] Cons.IH[OF _ s1(2)] show ?case by simp
qed simp

lemma balance_done: "wf_worker req w \<Longrightarrow> worker_done w \<Longrightarrow> balance P a w = 0"
  by (simp add: balance_def worker_done_def unmerged_def)

lemma gap_done:
  assumes "wf_system req s" "list_all worker_done (sy_workers s)"
  shows "gap P a s = counter_of a (sy_stats s) - of_int (codes_sum P (allStatusCodes (sy_stats s)))"
proof -
  have "map (balance P a) (sy_workers s) = map (\<lambda>_. 0) (sy_workers s)"
    using assms by (intro map_cong refl) (auto simp: wf_system_def list_all_iff intro: balance_done)
  then show ?thesis by (simp only: gap_def) simp
qed

lemma phase_system_start [simp]: "wf_system req (phase_system lg)" "gap P a (phase_system lg) = 0"
  by (simp_all add: wf_system_def phase_system_def gap_def counter_of_def no_counters_def)

text \<open>
  C2. Every run of a phase, however its workers, groups and reporters interleave, ends with
  consistent statistics: once all workers have stopped, the request counter is the number of
  answers in the status-code map, and the error counter is the number of answers above 400 plus
  the number of requests that failed without an answer (both modulo 2^64).
\<close>

theorem statistics_conserved:
  assumes "run req (phase_system lg) ls s" and "list_all worker_done (sy_workers s)"
  shows "ctrRequests (counters (sy_stats s)) = of_int (codes_sum (\<lambda>_. True) (allStatusCodes (sy_stats s)))
    \<and> ctrErrors (counters (sy_stats s))
      = of_int (codes_sum (\<lambda>k. 400 < k) (allStatusCodes (sy_stats s))) + of_nat (sum_list (map lost_request ls))"
proof -
  have e: "exec_schedule req ls (phase_system lg) = Some s" using assms(1) by (simp add: run_iff_exec)
  note g = gap_run[OF phase_system_start(1) e]
  have "gap (\<lambda>_. True) AddRequests s = 0" "gap (\<lambda>k. 400 < k) AddErrors s = of_nat (sum_list (map lost_request ls))"
    using g by simp_all
  with gap_done[OF conjunct1[OF g] assms(2), of "\<lambda>_. True" AddRequests]
    gap_done[OF conjunct1[OF g] assms(2), of "\<lambda>k. 400 < k" AddErrors] show ?thesis
    by (simp add: counter_of_def algebra_simps)
qed

definition two_workers :: Workers where
  "two_workers = \<lparr>Instances = 2, Duration = 60000000000, Delay = 0, Timeout = 0\<rparr>"

definition plain_request :: http_req where
  "plain_request = \<lparr>rq_method = ''POST'', rq_url = ''http://h:80/'', rq_host = ''h'', rq_header = [], rq_body = JNull\<rparr>"

text \<open>Two workers: one is answered 200 and 500 around the other's failed request.\<close>

definition mixed_steps :: "label list" where
  "mixed_steps = [Event 0 Timer, Op 0, Event 1 Timer, Event 0 (Answered 200 (Ret []) 3000000), Op 0,
     Op 1, Event 1 (RequestFailed None), Op 0, Op 1, Op 0, Event 0 Timer, Op 0, Event 0 (Answered 500 (Ret []) 1000000),
     Op 0, Op 0, Tick 0, Op 0, Op 0, Event 0 (CtxDone EDeadlineExceeded), Event 1 (CtxDone EDeadlineExceeded),
     Op 1, Op 0, Op 1, Op 0]"

definition mixed_schedule :: "label list" where
  "mixed_schedule = Start two_workers # mixed_steps @ [Tick 0, Tick 0, Tick 0, TickEnd 0]"

theorem statistics_conserved_witness:
  "\<exists>s. run (Ret plain_request) (phase_system []) mixed_schedule s \<and> list_all worker_done (sy_workers s)
     \<and> ctrRequests (counters (sy_stats s)) = 2 \<and> ctrErrors (counters (sy_stats s)) = 2
     \<and> allStatusCodes (sy_stats s) = [(200, 1), (500, 1)]"
proof -
  have two: "replicate 2 x = [x, x]" for x :: worker by (simp add: numeral_2_eq_2)
  obtain s where s: "exec_schedule (Ret plain_request) mixed_schedule (phase_system []) = Some s"
    "list_all worker_done (sy_workers s)" "allStatusCodes (sy_stats s) = [(200, 1), (500, 1)]"
    by (simp add: mixed_schedule_def mixed_steps_def phase_system_def start_group_def new_worker_def two_workers_def two
        bump_def code_count_def worker_done_def ticker_step_def ticker_end_def new_ticker_def no_counters_def is_i64_def Let_def)
  then have "run (Ret plain_request) (phase_system []) mixed_schedule s" by (simp add: run_iff_exec)
  with statistics_conserved[OF this s(2)] s(2,3) show ?thesis
    by (auto simp: mixed_schedule_def mixed_steps_def)
qed

end
