(* ===== verification/PhaseRun.thy ===== *)
theory PhaseRun
  imports WorkerRuns Reporter
begin

text \<open>
  One execution of a phase: \<^verbatim>\<open>executePhase\<close> in \<^verbatim>\<open>cmd/chaosmania/client.go\<close>. What the
  environment decides during it is a record: the steps of workers and reporters while each
  group runs, the state of the phase's context after each group and at the end, the answers
  of the network, the clock, and the order in which ranging over a map visits it. A run in which some wait never ends gives \<open>Panic Blocked\<close>.
\<close>

section \<open>The average\<close>

definition phase_average :: "statisticCounters \<Rightarrow> int" where
  "phase_average c =
     (let successfulRequests = ctrRequests c - ctrErrors c in
      if successfulRequests > 0 then i64 (sint (ctrDurationMicroseconds c div successfulRequests) * 1000) else 0)"

section \<open>The phase\<close>

record group_env =
  ge_steps :: "label list"
  ge_ctx_err :: "gerror option"

record phase_env =
  pe_groups :: "nat \<Rightarrow> group_env"
  pe_rest :: "label list"
  pe_start :: int
  pe_end :: int
  pe_err :: "gerror option"
  pe_order :: "codes \<Rightarrow> codes"

record 'n client_world =
  cw_net :: 'n
  cw_log :: log
  cw_reporter :: Reporter
  cw_sent :: "(int \<times> http_req) list"
  cw_runs :: nat

record 'n client_config =
  cc_getenv :: "string \<Rightarrow> string"
  cc_parse_url :: "string \<Rightarrow> string outcome"
  cc_net :: "'n net"
  cc_host :: string
  cc_port :: int
  cc_headers :: headers

fun by_main :: "label \<Rightarrow> bool" where
  "by_main (Start g) = True"
| "by_main (MainSay l msg) = True"
| "by_main _ = False"

text \<open>
  The loop over the groups. \<^verbatim>\<open>wg.Add\<close> gets the instances as a signed number; \<^verbatim>\<open>wg.Wait\<close> returns
  when the group's workers are done; a context that is done by then ends the loop.
\<close>

fun run_groups ::
  "http_req outcome \<Rightarrow> json outcome \<Rightarrow> (nat \<Rightarrow> group_env) \<Rightarrow> nat \<Rightarrow> Workers list \<Rightarrow> system
    \<Rightarrow> (system \<times> gerror option) outcome" where
  "run_groups req payload env i [] s = Ret (s, None)"
| "run_groups req payload env i (w # ws) s =
     (let s1 = main_say Info (''Starting workers: '' @ show_u64 (Instances w)) s in
      if sint (Instances w) < 0 then Panic NegativeWaitGroup
      else case payload of Panic p \<Rightarrow> Panic p | Err x \<Rightarrow> Ret (s1, Some x) | Ret _ \<Rightarrow>
        if list_ex by_main (ge_steps (env i)) then Panic Blocked
        else case exec_schedule req (ge_steps (env i)) (start_group w s1) of
          None \<Rightarrow> Panic Blocked
        | Some s2 \<Rightarrow>
            if \<not> list_all worker_done (drop (length (sy_workers s1)) (sy_workers s2)) then Panic Blocked
            else if ge_ctx_err (env i) \<noteq> None then
              Ret (main_say Debug ''Phase completed'' s2, None)
            else run_groups req payload env (Suc i) ws s2)"

text \<open>The final wait for all workers and reporters.\<close>

definition wait_all :: "http_req outcome \<Rightarrow> label list \<Rightarrow> system \<Rightarrow> system outcome" where
  "wait_all req rest s =
     (if list_ex by_main rest then Panic Blocked
      else case exec_schedule req rest s of
        None \<Rightarrow> Panic Blocked
      | Some s' \<Rightarrow>
          if list_all worker_done (sy_workers s') \<and> list_all (\<lambda>t. tk_mode t = Ended) (sy_tickers s') then Ret s'
          else Panic Blocked)"

fun as_map :: "gval \<Rightarrow> gmap outcome" where
  "as_map (GMapS m) = Ret m"
| "as_map _ = Panic TypeAssertion"

definition send_section :: "'n client_config \<Rightarrow> gval \<Rightarrow> 'n client_world \<Rightarrow> ('n client_world \<times> unit outcome) outcome" where
  "send_section c v cw =
     obind (as_map v) (\<lambda>payload.
       case sendRequest (cc_getenv c) (cc_parse_url c) (cc_net c) (cw_net cw) (cw_log cw) payload
           (cc_host c) (cc_port c) (cc_headers c) of
         (n', lg', Panic p) \<Rightarrow> Panic p
       | (n', lg', r) \<Rightarrow> Ret (cw\<lparr>cw_net := n', cw_log := lg'\<rparr>, r))"

definition say_in :: "level \<Rightarrow> string \<Rightarrow> 'n client_world \<Rightarrow> 'n client_world" where
  "say_in l msg cw = cw\<lparr>cw_log := emit l msg (cw_log cw)\<rparr>"

definition run_setup :: "'n client_config \<Rightarrow> gmap \<Rightarrow> 'n client_world \<Rightarrow> ('n client_world \<times> gerror option) outcome" where
  "run_setup c raw cw =
     (case map_of raw ''setup'' of
        None \<Rightarrow> Ret (cw, None)
      | Some s \<Rightarrow>
          obind (send_section c s (say_in Info ''Executing setup section'' cw)) (\<lambda>(cw1, r).
            case r of
              Err e \<Rightarrow> Ret (say_in Error ''Setup section failed'' cw1, Some e)
            | _ \<Rightarrow> Ret (say_in Info ''Setup section completed successfully'' cw1, None)))"

definition run_teardown :: "'n client_config \<Rightarrow> gmap \<Rightarrow> 'n client_world \<Rightarrow> 'n client_world outcome" where
  "run_teardown c raw cw =
     (case map_of raw ''teardown'' of
        None \<Rightarrow> Ret cw
      | Some t \<Rightarrow>
          obind (send_section c t (say_in Info ''Executing teardown section'' cw)) (\<lambda>(cw1, r).
            case r of
              Err e \<Rightarrow> Ret (say_in Error ''Teardown section failed'' cw1)
            | _ \<Rightarrow> Ret (say_in Info ''Teardown section completed successfully'' cw1)))"

definition phase_payload :: "gmap \<Rightarrow> json outcome" where
  "phase_payload raw = Marshal (case map_of raw ''workload'' of Some v \<Rightarrow> v | None \<Rightarrow> GNil)"

definition phase_request :: "'n client_config \<Rightarrow> gmap \<Rightarrow> http_req outcome" where
  "phase_request c raw =
     obind (phase_payload raw) (\<lambda>body. worker_request (cc_parse_url c) (cc_host c) (cc_port c) body (cc_headers c))"

definition phase_stats :: "phase_env \<Rightarrow> statistics \<Rightarrow> PhaseStats" where
  "phase_stats e st =
     \<lparr>Requests = ctrRequests (counters st), Errors = ctrErrors (counters st),
      AverageDuration = phase_average (counters st), StatusCodes = pe_order e (allStatusCodes st),
      PhaseStart = pe_start e, PhaseEnd = pe_end e\<rparr>"

definition executePhase ::
  "'n client_config \<Rightarrow> phase_env \<Rightarrow> Phase \<Rightarrow> gmap \<Rightarrow> int \<Rightarrow> 'n client_world \<Rightarrow> ('n client_world \<times> gerror option) outcome" where
  "executePhase c e phase raw phaseIndex cw =
     obind (run_setup c raw cw) (\<lambda>(cw1, err).
       if err \<noteq> None then Ret (cw1, err)
       else
         obind (LogPhaseStart (cw_reporter cw1) phaseIndex (cw_log cw1)) (\<lambda>(rp, lg2).
         obind (run_groups (phase_request c raw) (phase_payload raw) (pe_groups e) 0 (ClientWorkers (PhaseClient phase))
             (phase_system lg2)) (\<lambda>(s3, marshal_err).
           if marshal_err \<noteq> None then Ret (cw1\<lparr>cw_reporter := rp, cw_log := st_log (sy_stats s3)\<rparr>, marshal_err)
           else
             obind (wait_all (phase_request c raw) (pe_rest e) s3) (\<lambda>s4.
             obind (LogPhaseEnd rp phaseIndex (phase_stats e (sy_stats s4)) (st_log (sy_stats s4))) (\<lambda>lg5.
             obind (run_teardown c raw
                 (cw1\<lparr>cw_reporter := rp, cw_log := lg5, cw_sent := cw_sent cw1 @ st_sent (sy_stats s4)\<rparr>)) (\<lambda>cw6.
               Ret (cw6, pe_err e)))))))"

section \<open>What a phase is as a run\<close>

lemma run_append: "run req s ls s1 \<Longrightarrow> run req s1 ls' s2 \<Longrightarrow> run req s (ls @ ls') s2"
  by (induction rule: run.induct) (auto intro: run.intros)

text \<open>
  The groups a run starts; and that a group is only started when all workers of the earlier
  ones are done.
\<close>

fun started :: "label list \<Rightarrow> Workers list" where
  "started [] = []"
| "started (Start g # ls) = g # started ls"
| "started (_ # ls) = started ls"

fun one_by_one :: "http_req outcome \<Rightarrow> system \<Rightarrow> label list \<Rightarrow> bool" where
  "one_by_one req s [] = True"
| "one_by_one req s (l # ls) =
     ((case l of Start g \<Rightarrow> list_all worker_done (sy_workers s) | _ \<Rightarrow> True)
      \<and> (case sys_step req l s of None \<Rightarrow> False | Some s1 \<Rightarrow> one_by_one req s1 ls))"

lemma started_append [simp]: "started (a @ b) = started a @ started b"
  by (induction a rule: started.induct) auto

lemma started_none: "\<not> list_ex by_main ls \<Longrightarrow> started ls = []"
  by (induction ls rule: started.induct) auto

lemma one_by_one_append:
  "run req s a s1 \<Longrightarrow> one_by_one req s (a @ b) \<longleftrightarrow> one_by_one req s a \<and> one_by_one req s1 b"
  by (induction a arbitrary: s) (auto simp: run_Nil_iff run_Cons_iff)

lemma one_by_one_steps: "run req s ls s' \<Longrightarrow> \<not> list_ex by_main ls \<Longrightarrow> one_by_one req s ls"
  by (induction ls arbitrary: s) (auto simp: run_Cons_iff split: label.split)

text \<open>A worker that is done stays done.\<close>

lemma done_step:
  assumes "sys_step req l s = Some s'" "i < length (sy_workers s)" "worker_done (sy_workers s ! i)"
  shows "i < length (sy_workers s') \<and> worker_done (sy_workers s' ! i)"
proof (cases l)
  case (Op j)
  with assms show ?thesis by (cases "j = i") (auto simp: worker_done_def split: if_splits list.splits prod.splits)
next
  case (Event j ev)
  with assms show ?thesis by (cases "j = i"; cases ev) (auto simp: worker_done_def split: if_splits option.splits)
qed (use assms in \<open>auto simp: start_group_def main_say_def nth_append split: if_splits option.splits\<close>)

lemma done_run:
  "run req s ls s' \<Longrightarrow> i < length (sy_workers s) \<Longrightarrow> worker_done (sy_workers s ! i) \<Longrightarrow>
    i < length (sy_workers s') \<and> worker_done (sy_workers s' ! i)"
proof (induction ls arbitrary: s)
  case (Cons l ls)
  then obtain s1 where s1: "sys_step req l s = Some s1" "run req s1 ls s'" by (auto simp: run_Cons_iff)
  from Cons.IH[OF s1(2)] done_step[OF s1(1) Cons.prems(2,3)] show ?case by blast
qed (auto simp: run_Nil_iff)

lemma all_done_run:
  assumes "run req s ls s'" "list_all worker_done (sy_workers s)"
    and "list_all worker_done (drop (length (sy_workers s)) (sy_workers s'))"
  shows "list_all worker_done (sy_workers s')"
  unfolding list_all_length
proof (intro allI impI)
  fix k assume k: "k < length (sy_workers s')"
  show "worker_done (sy_workers s' ! k)"
  proof (cases "k < length (sy_workers s)")
    case True
    with done_run[OF assms(1)] assms(2) show ?thesis by (simp add: list_all_length)
  next
    case False
    have "\<forall>n<length (sy_workers s') - length (sy_workers s). worker_done (sy_workers s' ! (length (sy_workers s) + n))"
      using assms(3) by (simp add: list_all_length)
    moreover have "k - length (sy_workers s) < length (sy_workers s') - length (sy_workers s)" using k False by simp
    ultimately have "worker_done (sy_workers s' ! (length (sy_workers s) + (k - length (sy_workers s))))" by blast
    with False k show ?thesis by simp
  qed
qed

text \<open>
  How far the loop over the groups gets: \<open>n\<close> groups are started, one more only while the context
  of the phase is not done, and fewer than all only because it is.
\<close>

definition groups_reached :: "(nat \<Rightarrow> group_env) \<Rightarrow> nat \<Rightarrow> nat \<Rightarrow> nat \<Rightarrow> bool" where
  "groups_reached env i n total_groups \<longleftrightarrow> n \<le> total_groups \<and> (\<forall>k. Suc k < n \<longrightarrow> ge_ctx_err (env (i + k)) = None)
     \<and> (n < total_groups \<longrightarrow> (\<exists>k. n = Suc k \<and> ge_ctx_err (env (i + k)) \<noteq> None))"

lemma groups_reached_Suc:
  assumes "groups_reached env (Suc i) n m" "ge_ctx_err (env i) = None"
  shows "groups_reached env i (Suc n) (Suc m)"
  unfolding groups_reached_def
proof (intro conjI allI impI)
  show "Suc n \<le> Suc m" using assms(1) by (simp add: groups_reached_def)
next
  fix k assume "Suc k < Suc n"
  with assms show "ge_ctx_err (env (i + k)) = None" by (cases k) (auto simp: groups_reached_def)
next
  assume "Suc n < Suc m"
  with assms(1) obtain k where "n = Suc k" "ge_ctx_err (env (Suc i + k)) \<noteq> None" by (auto simp: groups_reached_def)
  then show "\<exists>k. Suc n = Suc k \<and> ge_ctx_err (env (i + k)) \<noteq> None" by (intro exI[of _ n]) simp
qed

text \<open>One group: its start and the steps until its workers are done.\<close>

lemma run_group:
  assumes "exec_schedule req steps (start_group w (main_say m msg s)) = Some s2" "\<not> list_ex by_main steps"
    and "list_all worker_done (drop (length (sy_workers s)) (sy_workers s2))" "list_all worker_done (sy_workers s)"
  shows "run req s (MainSay m msg # Start w # steps) s2" "list_all worker_done (sy_workers s2)"
    "one_by_one req s (MainSay m msg # Start w # steps)"
proof -
  have e: "run req (start_group w (main_say m msg s)) steps s2" using assms(1) by (simp add: run_iff_exec)
  then show r: "run req s (MainSay m msg # Start w # steps) s2" by (simp add: run_Main_iff run_Start_iff)
  show "list_all worker_done (sy_workers s2)" using all_done_run[OF r] assms(3,4) by simp
  show "one_by_one req s (MainSay m msg # Start w # steps)"
    using one_by_one_steps[OF e assms(2)] assms(4) by (simp add: main_say_def)
qed

lemma run_groups_run:
  "run_groups req payload env i ws s = Ret (s', None) \<Longrightarrow> list_all worker_done (sy_workers s) \<Longrightarrow>
    \<exists>ls n. run req s ls s' \<and> one_by_one req s ls \<and> started ls = take n ws \<and> groups_reached env i n (length ws)"
proof (induction ws arbitrary: i s)
  case Nil
  then show ?case by (intro exI[of _ "[]"] exI[of _ 0]) (auto simp: groups_reached_def intro: run_nil)
next
  case (Cons w ws)
  let ?m = "Info" and ?msg = "''Starting workers: '' @ show_u64 (Instances w)"
  let ?s1 = "main_say ?m ?msg s"
  obtain body where "payload = Ret body" using Cons.prems(1) by (cases payload) (auto simp: Let_def split: if_splits)
  with Cons.prems(1) obtain s2 where s2: "exec_schedule req (ge_steps (env i)) (start_group w ?s1) = Some s2"
      "\<not> list_ex by_main (ge_steps (env i))" "list_all worker_done (drop (length (sy_workers ?s1)) (sy_workers s2))"
    and rest: "(if ge_ctx_err (env i) \<noteq> None then Ret (main_say Debug ''Phase completed'' s2, None)
      else run_groups req payload env (Suc i) ws s2) = Ret (s', None)"
    by (auto simp: Let_def split: if_splits option.splits)
  have "list_all worker_done (drop (length (sy_workers s)) (sy_workers s2))" using s2(3) by (simp add: main_say_def)
  note g = run_group[OF s2(1,2) this Cons.prems(2)]
  let ?g = "MainSay ?m ?msg # Start w # ge_steps (env i)"
  have sg: "started ?g = [w]" using started_none[OF s2(2)] by simp
  show ?case
  proof (cases "ge_ctx_err (env i)")
    case None
    with rest Cons.IH[of "Suc i" s2, OF _ g(2)] obtain ls n where ls: "run req s2 ls s'" "one_by_one req s2 ls"
      "started ls = take n ws" "groups_reached env (Suc i) n (length ws)" by auto
    show ?thesis
      using run_append[OF g(1) ls(1)] one_by_one_append[OF g(1), of ls] g(3) ls(2,3) sg groups_reached_Suc[OF ls(4) None]
      by (intro exI[of _ "?g @ ls"] exI[of _ "Suc n"]) simp
  next
    case (Some x)
    with rest have "s' = main_say Debug ''Phase completed'' s2" by simp
    then have "run req s2 [MainSay Debug ''Phase completed''] s'" by (auto intro: run_main run_nil)
    moreover have "groups_reached env i 1 (length (w # ws))" using Some by (auto simp: groups_reached_def)
    ultimately show ?thesis
      using run_append[OF g(1)] one_by_one_append[OF g(1), of "[MainSay Debug ''Phase completed'']"] g(3) sg
      by (intro exI[of _ "?g @ [MainSay Debug ''Phase completed'']"] exI[of _ "1 :: nat"]) simp
  qed
qed

lemma run_groups_status:
  "run_groups req payload env i ws s = Ret (s', Some e) \<Longrightarrow> payload = Err e"
proof (induction ws arbitrary: i s)
  case (Cons w ws)
  then show ?case
    by (auto simp: Let_def split: if_splits option.splits outcome.splits)
qed simp

text \<open>A payload that cannot be marshalled ends the phase at its first group.\<close>

lemma run_groups_unmarshalled:
  assumes "run_groups req payload env i ws s = Ret (s', Some e)"
  shows "payload = Err e \<and> (\<exists>w rest. ws = w # rest
    \<and> s' = main_say Info (''Starting workers: '' @ show_u64 (Instances w)) s)"
  using assms run_groups_status[OF assms] by (cases ws) (auto simp: Let_def split: if_splits)

text \<open>
  A complete run of a phase's groups: they are started in the order of the plan, each when the
  workers of the one before are done, all of them or those before the context was found done;
  and in the end all workers and all reporters have ended.
\<close>

definition complete_run :: "http_req outcome \<Rightarrow> (nat \<Rightarrow> group_env) \<Rightarrow> Workers list \<Rightarrow> log \<Rightarrow> system \<Rightarrow> bool" where
  "complete_run req env ws lg s \<longleftrightarrow>
     (\<exists>ls n. run req (phase_system lg) ls s \<and> one_by_one req (phase_system lg) ls
        \<and> started ls = take n ws \<and> groups_reached env 0 n (length ws))
     \<and> list_all worker_done (sy_workers s) \<and> list_all (\<lambda>t. tk_mode t = Ended) (sy_tickers s)"

lemma wait_all_run:
  assumes "wait_all req rest s = Ret s'"
  shows "run req s rest s'" "\<not> list_ex by_main rest" "list_all worker_done (sy_workers s')"
    "list_all (\<lambda>t. tk_mode t = Ended) (sy_tickers s')"
  using assms by (auto simp: wait_all_def run_iff_exec split: if_splits option.splits)

lemma groups_complete:
  assumes "run_groups req payload env 0 ws (phase_system lg) = Ret (s3, None)" "wait_all req rest s3 = Ret s4"
  shows "complete_run req env ws lg s4"
proof -
  have "list_all worker_done (sy_workers (phase_system lg))" by (simp add: phase_system_def)
  from run_groups_run[OF assms(1) this] obtain ls n where ls: "run req (phase_system lg) ls s3"
    "one_by_one req (phase_system lg) ls" "started ls = take n ws" "groups_reached env 0 n (length ws)" by blast
  note w = wait_all_run[OF assms(2)]
  have "run req (phase_system lg) (ls @ rest) s4" by (rule run_append[OF ls(1) w(1)])
  moreover have "one_by_one req (phase_system lg) (ls @ rest)"
    using one_by_one_append[OF ls(1)] ls(2) one_by_one_steps[OF w(1,2)] by blast
  moreover have "started (ls @ rest) = take n ws" using ls(3) started_none[OF w(2)] by simp
  ultimately show ?thesis unfolding complete_run_def using w(3,4) ls(4) by blast
qed

lemma complete_run_conserves:
  assumes "complete_run req env ws lg s"
  shows "ctrRequests (counters (sy_stats s)) = of_int (codes_sum (\<lambda>_. True) (allStatusCodes (sy_stats s)))"
proof -
  obtain ls where "run req (phase_system lg) ls s" "list_all worker_done (sy_workers s)"
    using assms by (auto simp: complete_run_def)
  with gap_run[OF phase_system_start(1)] gap_done[of req s "\<lambda>_. True" AddRequests] show ?thesis
    by (fastforce simp: run_iff_exec counter_of_def)
qed

text \<open>
  C6. What an execution of a phase that returns has done, whatever the schedule. A failing setup
  is the phase's error and nothing else happens. A workload that cannot be marshalled ends the phase with that
  error at its first group, before a worker is started, and without a teardown. Otherwise the
  groups run to the end: started in the plan's order, each after the workers of the one before,
  all of them or those before the context was found done. Once all workers and all
  statistics reporters have ended, the phase is reported with the statistics they left, in which
  the requests are the status codes counted; then the teardown is sent, whatever the state of
  the context, and the error of the context is the result even when the teardown failed.
\<close>

theorem executePhase_result:
  assumes "executePhase c e phase raw i cw = Ret (cw', r)"
  shows "(\<exists>err. run_setup c raw cw = Ret (cw', Some err) \<and> r = Some err)
    \<or> (\<exists>cw1 rp lg2. run_setup c raw cw = Ret (cw1, None)
        \<and> LogPhaseStart (cw_reporter cw1) i (cw_log cw1) = Ret (rp, lg2)
        \<and> ((\<exists>err w rest. phase_payload raw = Err err \<and> ClientWorkers (PhaseClient phase) = w # rest \<and> r = Some err
              \<and> cw' = cw1\<lparr>cw_reporter := rp, cw_log := emit Info (''Starting workers: '' @ show_u64 (Instances w)) lg2\<rparr>)
          \<or> (\<exists>s lg5. complete_run (phase_request c raw) (pe_groups e) (ClientWorkers (PhaseClient phase)) lg2 s
              \<and> ctrRequests (counters (sy_stats s)) = of_int (codes_sum (\<lambda>_. True) (allStatusCodes (sy_stats s)))
              \<and> LogPhaseEnd rp i (phase_stats e (sy_stats s)) (st_log (sy_stats s)) = Ret lg5
              \<and> run_teardown c raw (cw1\<lparr>cw_reporter := rp, cw_log := lg5, cw_sent := cw_sent cw1 @ st_sent (sy_stats s)\<rparr>) = Ret cw'
              \<and> r = pe_err e)))"
proof -
  from assms obtain cw1 err where su: "run_setup c raw cw = Ret (cw1, err)"
    by (auto simp: executePhase_def go_simps)
  show ?thesis
  proof (cases err)
    case (Some x)
    with su assms show ?thesis by (auto simp: executePhase_def)
  next
    case None
    with su assms obtain rp lg2 s3 me where st: "LogPhaseStart (cw_reporter cw1) i (cw_log cw1) = Ret (rp, lg2)"
      and groups: "run_groups (phase_request c raw) (phase_payload raw) (pe_groups e) 0 (ClientWorkers (PhaseClient phase))
        (phase_system lg2) = Ret (s3, me)"
      by (auto simp: executePhase_def go_simps)
    show ?thesis
    proof (cases me)
      case me: (Some x)
      from run_groups_unmarshalled[OF groups[unfolded me]] obtain w rest where p: "phase_payload raw = Err x"
        "ClientWorkers (PhaseClient phase) = w # rest"
        "st_log (sy_stats s3) = emit Info (''Starting workers: '' @ show_u64 (Instances w)) lg2"
        by (auto simp: main_say_def phase_system_def)
      have "Ret (cw', r) = (Ret (cw1\<lparr>cw_reporter := rp, cw_log := st_log (sy_stats s3)\<rparr>, Some x) :: ('a client_world \<times> gerror option) outcome)"
        using assms su None st groups me by (simp add: executePhase_def)
      with su None st p show ?thesis by (auto simp del: emit_visible)
    next
      case me: None
      with su None st groups assms obtain s4 lg5 where w: "wait_all (phase_request c raw) (pe_rest e) s3 = Ret s4"
        and lg5: "LogPhaseEnd rp i (phase_stats e (sy_stats s4)) (st_log (sy_stats s4)) = Ret lg5"
        and td: "run_teardown c raw (cw1\<lparr>cw_reporter := rp, cw_log := lg5, cw_sent := cw_sent cw1 @ st_sent (sy_stats s4)\<rparr>) = Ret cw'"
        and r: "r = pe_err e"
        by (auto simp: executePhase_def go_simps)
      note all = groups_complete[OF groups[unfolded me] w]
      from su None st all complete_run_conserves[OF all] lg5 td r show ?thesis by blast
    qed
  qed
qed

text \<open>A phase whose teardown fails: two workers, one answered 200 and 500, the other not at all.\<close>

definition demo_config :: "nat client_config" where
  "demo_config = \<lparr>cc_getenv = (\<lambda>_. []), cc_parse_url = (\<lambda>u. Ret ''h:80''),
     cc_net = (\<lambda>n tr t r. (Suc n, if n = 0 then Response 200 (Ret []) else Failed (EExt ''refused''))),
     cc_host = ''h'', cc_port = 80, cc_headers = []\<rparr>"

definition demo_env :: phase_env where
  "demo_env = \<lparr>pe_groups = (\<lambda>_. \<lparr>ge_steps = mixed_steps, ge_ctx_err = Some EDeadlineExceeded\<rparr>),
     pe_rest = [Tick 0, Tick 0, Tick 0, TickEnd 0], pe_start = 0, pe_end = 300000000000,
     pe_err = Some EDeadlineExceeded, pe_order = (\<lambda>m. m)\<rparr>"

definition demo_raw :: gmap where
  "demo_raw = [(''setup'', GMapS []), (''workload'', GMapS []), (''teardown'', GMapS [])]"

definition demo_world :: "nat client_world" where
  "demo_world = \<lparr>cw_net = 0, cw_log = [], cw_reporter = one_phase_reporter, cw_sent = [], cw_runs = 0\<rparr>"

definition demo_phase :: Phase where
  "demo_phase = hd (Phases one_phase_plan)"

lemma demo_setup: "run_setup demo_config demo_raw demo_world = Ret (demo_world\<lparr>cw_net := 1,
    cw_log := [(Info, ''Executing setup section''), (Info, ''Setup section completed successfully'')]\<rparr>, None)"
  by (simp add: run_setup_def demo_raw_def demo_config_def demo_world_def send_section_def sendRequest_def doRequest_def
      NewRequest_def say_in_def sort_key_def IsDatadogEnabled_def IsOpenTelemetryEnabled_def Let_def)

lemma demo_groups:
  "\<exists>s s4. run_groups (Ret r) (Ret body) (pe_groups demo_env) 0 (ClientWorkers (PhaseClient demo_phase)) (phase_system lg) = Ret (s, None)
    \<and> wait_all (Ret r) (pe_rest demo_env) s = Ret s4"
proof -
  have two: "replicate 2 x = [x, x]" for x :: worker by (simp add: numeral_2_eq_2)
  show ?thesis
    by (simp add: demo_env_def demo_phase_def one_phase_plan_def mixed_steps_def phase_system_def start_group_def main_say_def
        new_worker_def two wait_all_def bump_def code_count_def worker_done_def ticker_step_def ticker_end_def
        new_ticker_def no_counters_def is_i64_def Let_def)
qed

lemma demo_teardown: "cw_net cw = 1 \<Longrightarrow> \<exists>cw'. run_teardown demo_config demo_raw cw = Ret cw'"
  by (simp add: run_teardown_def demo_raw_def demo_config_def send_section_def sendRequest_def doRequest_def
      NewRequest_def say_in_def sort_key_def IsDatadogEnabled_def IsOpenTelemetryEnabled_def Let_def)

theorem executePhase_result_witness:
  "\<exists>cw' lg s. executePhase demo_config demo_env demo_phase demo_raw 0 demo_world = Ret (cw', Some EDeadlineExceeded)
    \<and> complete_run (phase_request demo_config demo_raw) (pe_groups demo_env) (ClientWorkers (PhaseClient demo_phase)) lg s"
proof -
  let ?ex = "executePhase demo_config demo_env demo_phase demo_raw 0 demo_world"
  have p: "phase_payload demo_raw = Ret (JObj [])" by (simp add: phase_payload_def demo_raw_def sort_key_def)
  obtain req where q: "phase_request demo_config demo_raw = Ret req"
    by (simp add: phase_request_def p worker_request_def demo_config_def NewRequest_def)
  obtain rp lg where st: "LogPhaseStart one_phase_reporter 0 [(Info, ''Executing setup section''),
      (Info, ''Setup section completed successfully'')] = Ret (rp, lg)" and rp: "rp_plan rp = one_phase_plan"
    by (simp add: LogPhaseStart_def one_phase_reporter_def NewReporter_def GetPhaseDuration_def NewPhaseDurations_def
        Let_def num_phases_def one_phase_plan_def GetTotalRepeats_def NewPhaseRepeats_def go_simps is_i64_def idx_def)
  obtain s s4 where g: "run_groups (Ret req) (Ret (JObj [])) (pe_groups demo_env) 0 (ClientWorkers (PhaseClient demo_phase))
      (phase_system lg) = Ret (s, None)" "wait_all (Ret req) (pe_rest demo_env) s = Ret s4"
    using demo_groups by blast
  obtain lg5 where e: "LogPhaseEnd rp 0 (phase_stats demo_env (sy_stats s4)) (st_log (sy_stats s4)) = Ret lg5"
    by (simp add: LogPhaseEnd_def rp one_phase_plan_def idx_def Let_def)
  let ?cw = "demo_world\<lparr>cw_net := 1, cw_reporter := rp, cw_log := lg5, cw_sent := st_sent (sy_stats s4)\<rparr>"
  obtain cw' where t: "run_teardown demo_config demo_raw ?cw = Ret cw'" using demo_teardown[of ?cw] by auto
  have "cw_reporter demo_world = one_phase_reporter" "cw_sent demo_world = []" by (simp_all add: demo_world_def)
  then have "?ex = Ret (cw', pe_err demo_env)"
    using st g e t by (simp add: executePhase_def demo_setup p q)
  then have ex: "?ex = Ret (cw', Some EDeadlineExceeded)" by (simp add: demo_env_def)
  from executePhase_result[OF ex] demo_setup p ex show ?thesis by auto
qed

section \<open>The average of a phase\<close>

lemma unat_minus_le: "b \<le> a \<Longrightarrow> unat (a - b :: 64 word) = unat a - unat b"
  by (rule unat_sub)

lemma unat_minus_gt: "a < b \<Longrightarrow> unat (a - b :: 64 word) = 18446744073709551616 - (unat b - unat a)"
proof -
  assume "a < b"
  then have "\<not> unat b \<le> unat a" by (simp add: word_less_nat_alt)
  then show ?thesis by (simp add: unat_sub_if')
qed

lemma average_scaled:
  assumes "unat q < 9223372036854775"
  shows "i64 (sint (q :: 64 word) * 1000) = int (unat q) * 1000"
proof -
  have s: "sint q = int (unat q)" using assms by (intro sint_small) linarith
  have "int (unat q) < int 9223372036854775" using assms by (rule of_nat_less_iff[THEN iffD2])
  then have "int (unat q) < 9223372036854775" unfolding of_nat_numeral .
  then have "is_i64 (int (unat q) * 1000)" unfolding is_i64_def by linarith
  then show ?thesis unfolding s by (rule i64_id)
qed

text \<open>
  The average a phase reports: the microseconds divided by the answers that were not
  errors. A failed request is an error without being a request, so there can be more errors than
  requests; the difference then wraps and the reported average is zero, whatever the requests
  took.
\<close>

theorem phase_average_cases:
  assumes "unat (ctrDurationMicroseconds c) < 9223372036854775"
    and "unat (ctrErrors c) - unat (ctrRequests c) \<le> 9223372036854775808"
  shows "phase_average c =
    (if ctrErrors c < ctrRequests c
     then int (unat (ctrDurationMicroseconds c) div (unat (ctrRequests c) - unat (ctrErrors c))) * 1000 else 0)"
proof -
  let ?D = "ctrDurationMicroseconds c" and ?n = "ctrRequests c - ctrErrors c"
  have q: "unat (?D div ?n) = unat ?D div unat ?n" by (simp add: unat_div)
  then have "unat (?D div ?n) < 9223372036854775"
    using assms(1) le_less_trans[OF div_le_dividend[of "unat ?D" "unat ?n"]] by simp
  note avg = average_scaled[OF this, unfolded q]
  consider "ctrErrors c < ctrRequests c" | "ctrErrors c = ctrRequests c" | "ctrRequests c < ctrErrors c" by force
  then show ?thesis
  proof cases
    case 1
    then have "unat ?n = unat (ctrRequests c) - unat (ctrErrors c)" by (intro unat_minus_le) simp
    moreover have "0 < ?n" using 1 by (simp add: word_gt_0)
    ultimately show ?thesis using 1 avg by (simp add: phase_average_def Let_def)
  next
    case 2
    then show ?thesis by (simp add: phase_average_def)
  next
    case 3
    have "9223372036854775808 \<le> unat ?n" unfolding unat_minus_gt[OF 3] using assms(2) by linarith
    then have "unat ?D < unat ?n" using assms(1) by linarith
    then have "unat ?D div unat ?n = 0" by (rule div_less)
    then have "phase_average c = 0" unfolding phase_average_def Let_def avg by simp
    then show ?thesis using 3 by simp
  qed
qed

theorem phase_average_cases_witness:
  "phase_average \<lparr>ctrErrors = 1, ctrRequests = 3, ctrDurationMicroseconds = 500\<rparr> = 250000
   \<and> phase_average \<lparr>ctrErrors = 2, ctrRequests = 1, ctrDurationMicroseconds = 500\<rparr> = 0"
  by (simp add: phase_average_cases)

section \<open>Groups run one after another\<close>

fun stop_event :: "label \<Rightarrow> bool" where
  "stop_event (Event i (CtxDone e)) = True"
| "stop_event (Event i (RequestFailed (Some e))) = True"
| "stop_event _ = False"

definition alive :: "nat \<Rightarrow> system \<Rightarrow> bool" where
  "alive i s \<longleftrightarrow> i < length (sy_workers s) \<and> wk_mode (sy_workers s ! i) \<noteq> Gone"

lemma perform_mode: "perform o1 w st = (w', st') \<Longrightarrow> wk_mode w' = wk_mode w"
  by (cases o1) auto

lemma react_alive:
  "worker_react (Ret r) m ev = Some (os, m') \<Longrightarrow> \<not> stop_event (Event i ev) \<Longrightarrow> m' \<noteq> Gone"
  by (induction "Ret r :: http_req outcome" m ev rule: worker_react.induct) (auto simp: Let_def split: if_splits outcome.splits)

lemma alive_step:
  assumes "alive i s" "sys_step (Ret r) l s = Some s'" "\<not> stop_event l"
  shows "alive i s'"
proof (cases l)
  case (Op j)
  with assms show ?thesis
    by (auto simp: alive_def nth_list_update dest!: perform_mode split: if_splits list.splits prod.splits)
next
  case (Event j ev)
  with assms show ?thesis
    by (auto simp: alive_def nth_list_update dest: react_alive[where i = j] split: if_splits option.splits)
qed (use assms in \<open>auto simp: alive_def start_group_def main_say_def nth_append split: if_splits option.splits\<close>)

lemma alive_run:
  "alive i s \<Longrightarrow> exec_schedule (Ret r) ls s = Some s' \<Longrightarrow> list_all (\<lambda>l. \<not> stop_event l) ls \<Longrightarrow> alive i s'"
proof (induction ls arbitrary: s)
  case (Cons l ls)
  then obtain s1 where s1: "sys_step (Ret r) l s = Some s1" "exec_schedule (Ret r) ls s1 = Some s'"
    by (auto split: option.splits)
  with Cons.IH[OF alive_step[OF Cons.prems(1) s1(1)] s1(2)] Cons.prems(3) show ?case by simp
qed simp

text \<open>A group of at least one worker is only over after some worker was stopped by its context.\<close>

lemma group_needs_stop:
  assumes "exec_schedule (Ret r) ls (start_group w s) = Some s'" "Instances w \<noteq> 0"
    and "list_all worker_done (drop (length (sy_workers s)) (sy_workers s'))"
  shows "list_ex stop_event ls"
proof (rule ccontr)
  assume "\<not> list_ex stop_event ls"
  then have n: "list_all (\<lambda>l. \<not> stop_event l) ls" by (induction ls) auto
  have "0 < unat (Instances w)" using assms(2) by (simp add: unat_gt_0)
  then have "alive (length (sy_workers s)) (start_group w s)"
    by (simp add: alive_def start_group_def nth_append new_worker_def)
  from alive_run[OF this assms(1) n] have a: "length (sy_workers s) < length (sy_workers s')"
    "wk_mode (sy_workers s' ! length (sy_workers s)) \<noteq> Gone" by (auto simp: alive_def)
  have "sy_workers s' ! length (sy_workers s) \<in> set (drop (length (sy_workers s)) (sy_workers s'))"
    using a(1) by (metis Cons_nth_drop_Suc list.set_intros(1))
  with assms(3) a(2) show False by (auto simp: list_all_iff worker_done_def)
qed

text \<open>
  The documented behaviour of \<^verbatim>\<open>context.WithTimeout\<close> the loop runs into: when the deadline of the
  parent comes before the one asked for, the context is equivalent to its parent, so that it is done
  only when the parent is.
\<close>

definition child_contexts :: "(nat \<Rightarrow> group_env) \<Rightarrow> (nat \<Rightarrow> int) \<Rightarrow> Workers list \<Rightarrow> bool" where
  "child_contexts env remaining ws \<longleftrightarrow> (\<forall>i<length ws. remaining i < Duration (ws ! i) \<longrightarrow>
     list_ex stop_event (ge_steps (env i)) \<longrightarrow> ge_ctx_err (env i) \<noteq> None)"

lemma run_groups_cut:
  assumes "Instances w \<noteq> 0" "list_ex stop_event (ge_steps (env (i + length ws1))) \<longrightarrow> ge_ctx_err (env (i + length ws1)) \<noteq> None"
  shows "run_groups (Ret r) payload env i (ws1 @ w # ws2) s = run_groups (Ret r) payload env i (ws1 @ [w]) s"
  using assms(2)
proof (induction ws1 arbitrary: i s)
  case Nil
  have "ge_ctx_err (env i) \<noteq> None"
    if "exec_schedule (Ret r) (ge_steps (env i)) (start_group w s1) = Some s2"
      "list_all worker_done (drop (length (sy_workers s1)) (sy_workers s2))" for s1 s2
    using group_needs_stop[OF that(1) assms(1) that(2)] Nil by simp
  note stopped = this
  show ?case
  proof (cases "ge_ctx_err (env i)")
    case None
    with stopped show ?thesis by (auto simp: Let_def split: option.split outcome.split)
  next
    case (Some e)
    then show ?thesis by (simp add: Let_def split: option.split outcome.split)
  qed
next
  case (Cons v ws1)
  then have "run_groups (Ret r) payload env (Suc i) (ws1 @ w # ws2) s2 = run_groups (Ret r) payload env (Suc i) (ws1 @ [w]) s2" for s2
    by simp
  then show ?case by (simp only: append_Cons run_groups.simps(2))
qed

text \<open>
  C9. Worker groups run one after another inside the time of the phase, and without a runtime
  override that time is the longest group's. In a plan that verification accepts, when a longest
  group has a worker, the request of the workers can be built and some time has passed since
  the context of the phase was made, whatever groups the plan lists after that group
  are never started: the phase is the same as without them.
\<close>

theorem longest_group_is_the_last:
  assumes "phase_valid acts ph" and "ClientWorkers (PhaseClient ph) = ws1 @ w # ws2"
    and "\<forall>v\<in>set (ws1 @ ws2). Duration v \<le> Duration w" and "Instances w \<noteq> 0"
    and "child_contexts env remaining (ClientWorkers (PhaseClient ph))" and "remaining (length ws1) < planned_duration ph"
  shows "run_groups (Ret r) payload env 0 (ClientWorkers (PhaseClient ph)) s = run_groups (Ret r) payload env 0 (ws1 @ [w]) s"
proof -
  have "planned_duration ph = Max (Duration ` set (ClientWorkers (PhaseClient ph)))"
    using assms(1,2) by (intro planned_duration_verified) (auto simp: phase_valid_def)
  also have "\<dots> = Duration w" using assms(2,3) by (intro Max_eqI) auto
  finally have "remaining (length ws1) < Duration w" using assms(6) by simp
  with assms(2,5) have "list_ex stop_event (ge_steps (env (0 + length ws1))) \<longrightarrow> ge_ctx_err (env (0 + length ws1)) \<noteq> None"
    by (auto simp: child_contexts_def)
  from run_groups_cut[of w env 0 ws1 r payload ws2 s, OF assms(4) this] assms(2) show ?thesis by simp
qed

definition two_group_phase :: Phase where
  "two_group_phase = demo_phase\<lparr>PhaseClient := \<lparr>ClientWorkers = [two_workers, two_workers]\<rparr>, PhaseWorkload := \<lparr>WorkloadActions = []\<rparr>\<rparr>"

theorem longest_group_is_the_last_witness:
  "run_groups (Ret plain_request) (Ret JNull) (pe_groups demo_env) 0 [two_workers, two_workers] (phase_system [])
   = run_groups (Ret plain_request) (Ret JNull) (pe_groups demo_env) 0 [two_workers] (phase_system [])"
proof -
  have "phase_valid (\<lambda>_. None) two_group_phase"
    by (simp add: phase_valid_def two_group_phase_def demo_phase_def one_phase_plan_def two_workers_def duration_ok_def workload_ok_def)
  moreover have "child_contexts (pe_groups demo_env) (\<lambda>_. 0) [two_workers, two_workers]"
    by (simp add: child_contexts_def demo_env_def)
  moreover have "0 < planned_duration two_group_phase" using planned_duration_range(1)[of two_group_phase] by simp
  ultimately show ?thesis
    using longest_group_is_the_last[of "\<lambda>_. None" two_group_phase "[]" two_workers "[two_workers]" "pe_groups demo_env" "\<lambda>_. 0"
        plain_request "Ret JNull" "phase_system []"]
    by (simp add: two_group_phase_def two_workers_def)
qed

end
