(* ===== verification/Client.thy ===== *)
theory Client
  imports PhaseRun PhaseLoop
begin

text \<open>
  The client command (\<^verbatim>\<open>cmd/chaosmania/client.go\<close>: \<^verbatim>\<open>loadPlan\<close>, \<^verbatim>\<open>command_client\<close>): from the
  flags and the plan file to the set-up of a run, and the run itself, the phase loop over
  \<^verbatim>\<open>executePhase\<close>. The YAML decoder and the file system are parameters. The profiling server
  and the telemetry exporter the command starts have no part in the model.
\<close>

section \<open>Loading the plan\<close>

record plan_files =
  pf_read :: "string \<Rightarrow> string outcome"
  pf_yaml_plan :: "string \<Rightarrow> Plan outcome"
  pf_yaml_map :: "string \<Rightarrow> gmap outcome"

definition wrap_err :: "string \<Rightarrow> 'a outcome \<Rightarrow> 'a outcome" where
  "wrap_err msg r = (case r of Err e \<Rightarrow> Err (EWrap msg e) | _ \<Rightarrow> r)"

definition default_repeats :: "Plan \<Rightarrow> Plan" where
  "default_repeats plan = plan\<lparr>Phases := map (\<lambda>ph. if Repeat ph = 0 then ph\<lparr>Repeat := 1\<rparr> else ph) (Phases plan)\<rparr>"

definition loadPlan :: "plan_files \<Rightarrow> 'w registry \<Rightarrow> string \<Rightarrow> (Plan \<times> gmap) outcome" where
  "loadPlan f acts path =
     obind (pf_read f path) (\<lambda>yamlFile.
     obind (wrap_err ''failed to parse plan'' (pf_yaml_plan f yamlFile)) (\<lambda>plan.
     obind (wrap_err ''failed to parse raw plan'' (pf_yaml_map f yamlFile)) (\<lambda>raw.
     obind (wrap_err ''plan validation failed'' (Plan_Verify acts plan)) (\<lambda>_.
     obind (Convert (GMapS raw)) (\<lambda>v.
     obind (as_map v) (\<lambda>m. Ret (default_repeats plan, m)))))))"

section \<open>From the flags to a run\<close>

record client_flags =
  fl_plan :: string
  fl_host :: string
  fl_port :: int
  fl_header :: "string list"
  fl_runtime_duration :: string
  fl_repeats_per_phase :: int
  fl_phase_pattern :: string

record client_setup =
  cs_plan :: Plan
  cs_raw :: gmap
  cs_repeats :: PhaseRepeats
  cs_headers :: headers
  cs_runtime :: int
  cs_repeats_flag :: int

definition check_repeats_flag :: "int \<Rightarrow> unit outcome" where
  "check_repeats_flag repeatsPerPhase =
     (if repeatsPerPhase < - 1 then
        Err (EText ''repeats-per-phase must be -1 (use plan values), 0 (unlimited), or a positive number'')
      else if repeatsPerPhase > MaxRepeatsPerPhase then
        Err (EText (''repeats-per-phase cannot exceed '' @ itoa MaxRepeatsPerPhase))
      else Ret ())"

definition parse_runtime :: "string \<Rightarrow> int outcome" where
  "parse_runtime s =
     (if s = [] then Ret 0
      else obind (wrap_err ''invalid duration format'' (ParseDuration s)) (\<lambda>duration.
        if duration < MinPhaseDuration then Err (EText (''duration must be at least '' @ Duration_String MinPhaseDuration))
        else if duration > MaxPhaseDuration then Err (EText (''duration cannot exceed '' @ Duration_String MaxPhaseDuration))
        else Ret duration))"

text \<open>The repeats of the plan, as a signed number between one and the maximum.\<close>

definition normal_repeat :: "64 word \<Rightarrow> int" where
  "normal_repeat r = (if sint r \<le> 0 then 1 else if sint r > MaxRepeatsPerPhase then MaxRepeatsPerPhase else sint r)"

fun plan_repeats :: "int \<Rightarrow> Phase list \<Rightarrow> PhaseRepeats \<Rightarrow> PhaseRepeats" where
  "plan_repeats i [] pr = pr"
| "plan_repeats i (phase # rest) pr = plan_repeats (i + 1) rest (SetRepeat pr i (normal_repeat (Repeat phase)))"

text \<open>The repeats table, and the flag as the reporter sees it: zero has become the maximum.\<close>

definition init_repeats :: "int \<Rightarrow> Plan \<Rightarrow> PhaseRepeats \<times> int" where
  "init_repeats repeatsPerPhase plan =
     (let pr = NewPhaseRepeats 1 in
      if repeatsPerPhase = 0 then (pr\<lparr>DefaultRepeat := MaxRepeatsPerPhase\<rparr>, MaxRepeatsPerPhase)
      else if repeatsPerPhase > 0 then (pr\<lparr>DefaultRepeat := repeatsPerPhase\<rparr>, repeatsPerPhase)
      else (plan_repeats 0 (Phases plan) pr, repeatsPerPhase))"

definition override_pattern :: "string \<Rightarrow> Plan \<Rightarrow> Plan outcome" where
  "override_pattern phasePattern plan =
     obind
       (if phasePattern \<noteq> [] then
          (if phasePattern \<in> {PatternSequence, PatternCycle, PatternRandom} then Ret (plan\<lparr>PlanPattern := phasePattern\<rparr>)
           else Err (EText (''invalid phase pattern: '' @ phasePattern @ ''. Must be one of: sequence, cycle, random'')))
        else Ret plan)
       (\<lambda>p. Ret (if PlanPattern p = [] then p\<lparr>PlanPattern := PatternSequence\<rparr> else p))"

fun header_map :: "string list \<Rightarrow> headers \<Rightarrow> headers outcome" where
  "header_map [] hs = Ret hs"
| "header_map (h # rest) hs =
     (let parts = split_char CHR '':'' h in
      obind (idx parts 0) (\<lambda>k. obind (idx parts 1) (\<lambda>v. header_map rest (AList.update k v hs))))"

definition client_prepare :: "plan_files \<Rightarrow> 'w registry \<Rightarrow> client_flags \<Rightarrow> client_setup outcome" where
  "client_prepare f acts fl =
     obind (check_repeats_flag (fl_repeats_per_phase fl)) (\<lambda>_.
     obind (parse_runtime (fl_runtime_duration fl)) (\<lambda>runtimeDuration.
     obind (loadPlan f acts (fl_plan fl)) (\<lambda>(plan, raw).
       case init_repeats (fl_repeats_per_phase fl) plan of
         (phaseRepeats, repeatsPerPhase) \<Rightarrow>
           obind (override_pattern (fl_phase_pattern fl) plan) (\<lambda>plan1.
           obind (header_map (fl_header fl) []) (\<lambda>hs.
             Ret \<lparr>cs_plan = plan1, cs_raw = raw, cs_repeats = phaseRepeats, cs_headers = hs,
               cs_runtime = runtimeDuration, cs_repeats_flag = repeatsPerPhase\<rparr>)))))"

section \<open>The run\<close>

text \<open>\<^verbatim>\<open>%.0f\<close> of \<^verbatim>\<open>Duration.Seconds()\<close>, for a duration that is not negative.\<close>

definition Duration_Seconds :: "int \<Rightarrow> rat" where
  "Duration_Seconds d = f64 (of_int (d div Second) + f64 (of_int (d mod Second) / of_int Second))"

definition show_seconds :: "int \<Rightarrow> string" where
  "show_seconds d = itoa (round_even (Duration_Seconds d))"

text \<open>\<^verbatim>\<open>raw["phases"].([]any)[currentPhase].(map[string]any)\<close>\<close>

definition raw_phase :: "gmap \<Rightarrow> int \<Rightarrow> gmap outcome" where
  "raw_phase raw i =
     (case map_of raw ''phases'' of
        Some (GList xs) \<Rightarrow> obind (idx xs i) as_map
      | _ \<Rightarrow> Panic TypeAssertion)"

text \<open>
  One execution of a phase by the loop; the environment of the k-th execution, should it be that
  of phase i, is \<open>envs k i\<close>, and the durations the loop asks are those of the reporter, which share their cache.
\<close>

definition client_phase ::
  "'n client_config \<Rightarrow> client_setup \<Rightarrow> (nat \<Rightarrow> int \<Rightarrow> phase_env) \<Rightarrow> 'n client_world \<Rightarrow> int \<Rightarrow> ('n client_world \<times> gerror option) outcome" where
  "client_phase c cs envs cw i =
     obind (GetPhaseDuration (rp_durations (cw_reporter cw)) i) (\<lambda>(d, phaseDuration).
       let cw1 = say_in Info (''Executing phase '' @ itoa (i + 1) @ '' for '' @ show_seconds phaseDuration @ '' seconds'')
                   (cw\<lparr>cw_reporter := (cw_reporter cw)\<lparr>rp_durations := d\<rparr>, cw_runs := Suc (cw_runs cw)\<rparr>)
       in obind (idx (Phases (cs_plan cs)) i) (\<lambda>phase.
          obind (raw_phase (cs_raw cs) i) (\<lambda>raw. executePhase c (envs (cw_runs cw) i) phase raw i cw1)))"

definition setup_reporter :: "client_setup \<Rightarrow> Reporter" where
  "setup_reporter cs = NewReporter (cs_plan cs) (cs_repeats cs) (NewPhaseDurations (cs_runtime cs) (cs_plan cs) (cs_repeats cs))"

text \<open>What is logged before the first phase.\<close>

definition client_start :: "client_setup \<Rightarrow> string \<Rightarrow> 'n \<Rightarrow> log \<Rightarrow> 'n client_world outcome" where
  "client_start cs phasePattern n lg =
     (let reporter = setup_reporter cs in
      obind (LogPlanSummary reporter (LogRuntimeOverrides reporter (cs_runtime cs) (cs_repeats_flag cs) phasePattern lg))
        (\<lambda>(r, lg1). Ret \<lparr>cw_net = n, cw_log = lg1, cw_reporter = r, cw_sent = [], cw_runs = 0\<rparr>))"

definition finish_command :: "(executor, 'n client_world) loop_result \<Rightarrow> ('n client_world \<times> gerror option) outcome" where
  "finish_command r =
     obind r (\<lambda>(s, err). Ret (say_in Info ''Command completed, initiating graceful shutdown...'' (world s), err))"

definition command_client ::
  "plan_files \<Rightarrow> 'w registry \<Rightarrow> 'n client_config \<Rightarrow> rng \<Rightarrow> (nat \<Rightarrow> int \<Rightarrow> phase_env) \<Rightarrow> client_flags \<Rightarrow> 'n \<Rightarrow> log
    \<Rightarrow> ('n client_world \<times> gerror option) outcome option" where
  "command_client f acts c g envs fl n lg =
     (case client_prepare f acts fl of
        Err e \<Rightarrow> Some (Err e)
      | Panic p \<Rightarrow> Some (Panic p)
      | Ret cs \<Rightarrow>
          (case client_start cs (fl_phase_pattern fl) n lg of
             Err e \<Rightarrow> Some (Err e)
           | Panic p \<Rightarrow> Some (Panic p)
           | Ret cw \<Rightarrow>
               map_option finish_command
                 (run_phases
                    (client_phase (c\<lparr>cc_host := fl_host fl, cc_port := fl_port fl, cc_headers := cs_headers cs\<rparr>) cs envs)
                    (say_in Info) (cs_repeats cs)
                    (NewPatternExecutor g (PlanPattern (cs_plan cs)) (int (length (Phases (cs_plan cs)))))
                    (length (Phases (cs_plan cs))) cw)))"

section \<open>What the set-up guarantees\<close>

lemma wrap_err_Ret [go_simps]: "wrap_err msg r = Ret x \<longleftrightarrow> r = Ret x"
  by (cases r) (auto simp: wrap_err_def)

lemma normal_repeat_range: "1 \<le> normal_repeat r \<and> normal_repeat r \<le> 500"
  by (simp add: normal_repeat_def MaxRepeatsPerPhase_def)

lemma plan_repeats_get:
  "GetRepeat (plan_repeats i phs pr) j =
     (if i \<le> j \<and> j < i + int (length phs) then normal_repeat (Repeat (phs ! nat (j - i))) else GetRepeat pr j)"
proof (induction phs arbitrary: i pr)
  case (Cons ph phs)
  have "nat (j - i) = Suc (nat (j - (i + 1)))" if "i < j" using that by simp
  then show ?case using Cons[of "i + 1" "SetRepeat pr i (normal_repeat (Repeat ph))"] by auto
qed simp

lemma GetRepeat_default [simp]: "GetRepeat ((NewPhaseRepeats d)\<lparr>DefaultRepeat := k\<rparr>) i = k"
  by (simp add: GetRepeat_def NewPhaseRepeats_def)

lemma init_repeats_get:
  assumes "init_repeats k plan = (pr, k')" "i < length (Phases plan)" "- 1 \<le> k"
  shows "GetRepeat pr (int i) = (if k = 0 then 500 else if 0 < k then k else normal_repeat (Repeat (Phases plan ! i)))"
  using assms by (auto simp: init_repeats_def Let_def plan_repeats_get MaxRepeatsPerPhase_def split: if_splits)

lemma override_pattern_Ret:
  assumes "override_pattern pat plan = Ret plan1"
  shows "Phases plan1 = Phases plan \<and> PlanPattern plan1 \<noteq> []"
  using assms by (auto simp: override_pattern_def go_simps PatternSequence_def PatternCycle_def PatternRandom_def split: if_splits)

lemma loadPlan_valid:
  assumes "loadPlan f acts path = Ret (plan, raw)"
  shows "\<forall>ph\<in>set (Phases plan). phase_valid acts ph \<and> Repeat ph \<noteq> 0"
  using assms by (auto simp: loadPlan_def go_simps Plan_Verify_iff default_repeats_def phase_valid_def)

lemma parse_runtime_range: "parse_runtime s = Ret d \<Longrightarrow> d = 0 \<or> (MinPhaseDuration \<le> d \<and> d \<le> MaxPhaseDuration)"
  by (auto simp: parse_runtime_def go_simps simp del: MinPhaseDuration_eq MaxPhaseDuration_eq split: if_splits)

lemma client_prepare_facts:
  assumes "client_prepare f acts fl = Ret cs" and "length (Phases (cs_plan cs)) < 2 ^ 48"
  shows "(\<forall>ph\<in>set (Phases (cs_plan cs)). phase_valid acts ph)
    \<and> repeats_ok (cs_repeats cs) (length (Phases (cs_plan cs)))
    \<and> (\<forall>i<length (Phases (cs_plan cs)). GetRepeat (cs_repeats cs) (int i) =
        (if fl_repeats_per_phase fl = 0 then 500 else if 0 < fl_repeats_per_phase fl then fl_repeats_per_phase fl
         else normal_repeat (Repeat (Phases (cs_plan cs) ! i))))
    \<and> (cs_runtime cs = 0 \<or> MinPhaseDuration \<le> cs_runtime cs \<and> cs_runtime cs \<le> MaxPhaseDuration)
    \<and> PlanPattern (cs_plan cs) \<noteq> [] \<and> cs_repeats_flag cs \<noteq> 0"
proof -
  let ?k = "fl_repeats_per_phase fl"
  obtain rd plan raw where p: "check_repeats_flag ?k = Ret ()" "parse_runtime (fl_runtime_duration fl) = Ret rd"
    "loadPlan f acts (fl_plan fl) = Ret (plan, raw)"
    using assms(1) by (auto simp: client_prepare_def go_simps)
  obtain pr k' where ir: "init_repeats ?k plan = (pr, k')" by fastforce
  obtain plan1 where pat1: "override_pattern (fl_phase_pattern fl) plan = Ret plan1"
    and cs: "cs_plan cs = plan1" "cs_runtime cs = rd" "init_repeats ?k plan = (cs_repeats cs, cs_repeats_flag cs)"
    using assms(1) p ir by (auto simp: client_prepare_def go_simps)
  have k: "- 1 \<le> ?k" "?k \<le> 500"
    using p(1) by (auto simp: check_repeats_flag_def MaxRepeatsPerPhase_def split: if_splits)
  note pat = override_pattern_Ret[OF pat1]
  have get: "GetRepeat (cs_repeats cs) (int i) =
      (if ?k = 0 then 500 else if 0 < ?k then ?k else normal_repeat (Repeat (Phases (cs_plan cs) ! i)))"
    if "i < length (Phases (cs_plan cs))" for i
    using init_repeats_get[OF cs(3) _ k(1), of i] that pat cs(1) by simp
  then have "repeats_ok (cs_repeats cs) (length (Phases (cs_plan cs)))"
    using k normal_repeat_range assms(2) by (auto simp: repeats_ok_def)
  moreover have "cs_repeats_flag cs \<noteq> 0"
    using cs(3) by (auto simp: init_repeats_def Let_def MaxRepeatsPerPhase_def split: if_splits)
  moreover have "\<forall>ph\<in>set (Phases (cs_plan cs)). phase_valid acts ph" "PlanPattern (cs_plan cs) \<noteq> []"
    using loadPlan_valid[OF p(3)] pat cs(1) by simp_all
  ultimately show ?thesis using get parse_runtime_range[OF p(2), folded cs(2)] by blast
qed

text \<open>
  C10. What the command accepts is safe to run: after the flags and the plan have been
  accepted, every phase is valid and repeats between once and 500 times (as often as a
  non-negative flag says, zero meaning 500, else as the plan says), the runtime is zero or
  within the limits, there is a pattern, and the reporter is never handed a repeats flag of zero.
\<close>

theorem client_prepare_valid:
  assumes "client_prepare f acts fl = Ret cs" and "length (Phases (cs_plan cs)) < 2 ^ 48"
  shows "(\<forall>ph\<in>set (Phases (cs_plan cs)). phase_valid acts ph)
    \<and> repeats_ok (cs_repeats cs) (length (Phases (cs_plan cs)))
    \<and> (\<forall>i<length (Phases (cs_plan cs)). GetRepeat (cs_repeats cs) (int i) =
        (if fl_repeats_per_phase fl = 0 then 500 else if 0 < fl_repeats_per_phase fl then fl_repeats_per_phase fl
         else normal_repeat (Repeat (Phases (cs_plan cs) ! i))))
    \<and> (cs_runtime cs = 0 \<or> MinPhaseDuration \<le> cs_runtime cs \<and> cs_runtime cs \<le> MaxPhaseDuration)
    \<and> PlanPattern (cs_plan cs) \<noteq> [] \<and> cs_repeats_flag cs \<noteq> 0"
  by (rule client_prepare_facts[OF assms])

definition demo_files :: plan_files where
  "demo_files = \<lparr>pf_read = (\<lambda>path. Ret ''plan''), pf_yaml_plan = (\<lambda>s. Ret one_phase_plan),
     pf_yaml_map = (\<lambda>s. Ret [(''phases'', GList [GMapA [(GStr ''workload'', GMapA [])]])])\<rparr>"

definition demo_flags :: client_flags where
  "demo_flags = \<lparr>fl_plan = ''plan.yaml'', fl_host = ''h'', fl_port = 80, fl_header = [''X-Env:a''], fl_runtime_duration = [],
     fl_repeats_per_phase = 0, fl_phase_pattern = ''cycle''\<rparr>"

definition demo_acts :: "request registry" where
  "demo_acts = [''echo'' \<mapsto> echo_action]"

lemma demo_verified: "Plan_Verify demo_acts one_phase_plan = Ret ()"
  by (simp add: Plan_Verify_iff phase_valid_def one_phase_plan_def duration_ok_def workload_ok_def action_ok_def
      demo_acts_def echo_action_def)

lemma demo_prepared:
  "client_prepare demo_files demo_acts demo_flags = Ret \<lparr>cs_plan = (one_phase_plan\<lparr>PlanPattern := ''cycle''\<rparr>),
     cs_raw = [(''phases'', GList [GMapS [(''workload'', GMapS [])]])], cs_repeats = NewPhaseRepeats 500,
     cs_headers = [(''X-Env'', ''a'')], cs_runtime = 0, cs_repeats_flag = 500\<rparr>"
  by (simp add: client_prepare_def check_repeats_flag_def MaxRepeatsPerPhase_def parse_runtime_def loadPlan_def demo_files_def
      demo_flags_def demo_verified wrap_err_def init_repeats_def override_pattern_def PatternSequence_def PatternCycle_def
      PatternRandom_def idx_def Let_def NewPhaseRepeats_def default_repeats_def) (simp add: one_phase_plan_def)

theorem client_prepare_valid_witness:
  "\<exists>cs. client_prepare demo_files demo_acts demo_flags = Ret cs \<and> GetRepeat (cs_repeats cs) 0 = 500"
proof -
  have "GetRepeat (NewPhaseRepeats 500) (int 0) = 500"
    using client_prepare_valid[OF demo_prepared] by (simp add: one_phase_plan_def demo_flags_def)
  with demo_prepared show ?thesis by auto
qed

text \<open>
  How \<^verbatim>\<open>--header\<close> is read: a header without a colon makes the command panic, and the value of
  a header ends at its second colon.
\<close>

theorem header_flag_reading:
  assumes "CHR '':'' \<notin> set k" and "CHR '':'' \<notin> set v"
  shows "header_map [k] hs = Panic IndexOutOfRange
    \<and> header_map [k @ '':'' @ v] hs = Ret (AList.update k v hs)
    \<and> header_map [k @ '':'' @ v @ '':'' @ rest] hs = Ret (AList.update k v hs)"
  using assms by (simp add: split_char_none split_char_append idx_def Let_def)

theorem header_flag_reading_witness:
  "header_map [''Origin:http://shop.local''] [] = Ret [(''Origin'', ''http'')]"
  using header_flag_reading[of "''Origin''" "''http''" "[]" "''//shop.local''"] by simp

section \<open>The command from end to end\<close>

lemma send_section_keeps:
  assumes "send_section c v cw = Ret (cw', x)"
  shows "cw_runs cw' = cw_runs cw"
proof -
  obtain m where m: "as_map v = Ret m" using assms by (auto simp: send_section_def go_simps)
  obtain n' lg' r where "sendRequest (cc_getenv c) (cc_parse_url c) (cc_net c) (cw_net cw) (cw_log cw) m
      (cc_host c) (cc_port c) (cc_headers c) = (n', lg', r)" by (rule prod_cases3)
  with assms m show ?thesis by (cases r) (auto simp: send_section_def)
qed

lemma run_setup_runs:
  assumes "run_setup c raw cw = Ret (cw', x)"
  shows "cw_runs cw' = cw_runs cw"
proof (cases "map_of raw ''setup''")
  case (Some v)
  with assms obtain cw1 r where "send_section c v (say_in Info ''Executing setup section'' cw) = Ret (cw1, r)"
    by (auto simp: run_setup_def go_simps)
  with assms Some send_section_keeps[OF this] show ?thesis by (cases r) (auto simp: run_setup_def say_in_def)
qed (use assms in \<open>simp add: run_setup_def\<close>)

lemma run_teardown_runs:
  assumes "run_teardown c raw cw = Ret cw'"
  shows "cw_runs cw' = cw_runs cw"
proof (cases "map_of raw ''teardown''")
  case (Some v)
  with assms obtain cw1 r where "send_section c v (say_in Info ''Executing teardown section'' cw) = Ret (cw1, r)"
    by (auto simp: run_teardown_def go_simps)
  with assms Some send_section_keeps[OF this] show ?thesis by (cases r) (auto simp: run_teardown_def say_in_def)
qed (use assms in \<open>simp add: run_teardown_def\<close>)

lemma executePhase_runs:
  "executePhase c e phase raw i cw = Ret (cw', r) \<Longrightarrow> cw_runs cw' = cw_runs cw"
  by (fastforce simp: executePhase_def go_simps dest: run_setup_runs run_teardown_runs split: if_splits)

lemma client_phase_runs:
  "client_phase c cs envs cw i = Ret (cw', r) \<Longrightarrow> cw_runs cw' = Suc (cw_runs cw)"
  by (auto simp: client_phase_def go_simps Let_def say_in_def dest!: executePhase_runs)

text \<open>What is asked of the environment: the sections are answered, the groups and the final wait end.\<close>

definition sections_ok :: "'n client_config \<Rightarrow> gmap \<Rightarrow> bool" where
  "sections_ok c raw \<longleftrightarrow>
     (\<forall>cw. \<exists>cw'. run_setup c raw cw = Ret (cw', None) \<and> cw_reporter cw' = cw_reporter cw)
     \<and> (\<forall>cw. \<exists>cw'. run_teardown c raw cw = Ret cw' \<and> cw_reporter cw' = cw_reporter cw)"

definition phase_ends :: "'n client_config \<Rightarrow> phase_env \<Rightarrow> Phase \<Rightarrow> gmap \<Rightarrow> bool" where
  "phase_ends c e phase raw \<longleftrightarrow>
     (\<forall>lg. \<exists>s s4. run_groups (phase_request c raw) (phase_payload raw) (pe_groups e) 0 (ClientWorkers (PhaseClient phase))
         (phase_system lg) = Ret (s, None) \<and> wait_all (phase_request c raw) (pe_rest e) s = Ret s4)
     \<and> (pe_err e = None \<or> pe_err e = Some EDeadlineExceeded)"

definition known_durations :: "Reporter \<Rightarrow> bool" where
  "known_durations r \<longleftrightarrow> (\<forall>i<length (Phases (rp_plan r)). \<exists>x. fresh_duration (rp_durations r) (int i) = Ret x)"

definition client_inv :: "client_setup \<Rightarrow> 'n client_world \<Rightarrow> bool" where
  "client_inv cs cw \<longleftrightarrow> reporter_ok (cw_reporter cw) \<and> same_reporter (setup_reporter cs) (cw_reporter cw)"

lemma same_reporter_trans: "same_reporter a b \<Longrightarrow> same_reporter b c \<Longrightarrow> same_reporter a c"
  by (auto simp: same_reporter_def intro: same_setup_trans)

lemma setup_reporter_ok: "reporter_ok (setup_reporter cs)"
  by (simp add: reporter_ok_def setup_reporter_def NewReporter_def) (simp add: NewPhaseDurations_def Let_def)

lemma setup_reporter_fields:
  "rp_plan (setup_reporter cs) = cs_plan cs" "rp_repeats (setup_reporter cs) = cs_repeats cs"
  by (simp_all add: setup_reporter_def NewReporter_def)

lemma client_inv_step:
  assumes "client_inv cs cw" "GetPhaseDuration (rp_durations (cw_reporter cw)) i = Ret (d, x)"
  shows "reporter_ok ((cw_reporter cw)\<lparr>rp_durations := d\<rparr>)
    \<and> same_reporter (setup_reporter cs) ((cw_reporter cw)\<lparr>rp_durations := d\<rparr>)"
  using reporter_ok_step[OF _ assms(2)] assms(1) by (auto simp: client_inv_def intro: same_reporter_trans)

lemma known_phase_duration:
  assumes "known_durations (setup_reporter cs)" "reporter_ok r" "same_reporter (setup_reporter cs) r" "k < length (Phases (cs_plan cs))"
  shows "\<exists>d x. GetPhaseDuration (rp_durations r) (int k) = Ret (d, x)"
proof -
  obtain x where "fresh_duration (rp_durations (setup_reporter cs)) (int k) = Ret x"
    using assms(1,4) by (auto simp: known_durations_def setup_reporter_fields)
  then have "fresh_duration (rp_durations r) (int k) = Ret x"
    using assms(3) same_setup_fresh[of "rp_durations (setup_reporter cs)" "rp_durations r"] by (simp add: same_reporter_def)
  with GetPhaseDuration_total[OF assms(2)] show ?thesis by blast
qed

lemma LogPhaseStart_inv:
  assumes "known_durations (setup_reporter cs)" "reporter_ok r" "same_reporter (setup_reporter cs) r" "k < length (Phases (cs_plan cs))"
  shows "\<exists>r' lg'. LogPhaseStart r (int k) lg = Ret (r', lg') \<and> reporter_ok r' \<and> same_reporter (setup_reporter cs) r'"
proof -
  from known_phase_duration[OF assms] obtain d x where d: "GetPhaseDuration (rp_durations r) (int k) = Ret (d, x)" by blast
  note s = reporter_ok_step[OF assms(2) d]
  have "rp_plan r = cs_plan cs" using assms(3) by (simp add: same_reporter_def setup_reporter_fields)
  with assms(4) d have "\<exists>lg'. LogPhaseStart r (int k) lg = Ret (r\<lparr>rp_durations := d\<rparr>, lg')"
    by (simp add: LogPhaseStart_def)
  with s same_reporter_trans[OF assms(3)] show ?thesis by blast
qed

text \<open>One execution of a phase in such an environment keeps the invariant and ends as its context does.\<close>

lemma executePhase_ends:
  assumes "known_durations (setup_reporter cs)" "client_inv cs cw" "k < length (Phases (cs_plan cs))"
    and "sections_ok c raw" "phase_ends c e phase raw"
  shows "\<exists>cw'. executePhase c e phase raw (int k) cw = Ret (cw', pe_err e) \<and> client_inv cs cw'"
proof -
  obtain cw1 where su: "run_setup c raw cw = Ret (cw1, None)" "cw_reporter cw1 = cw_reporter cw"
    using assms(4) unfolding sections_ok_def by blast
  obtain rp lg2 where st: "LogPhaseStart (cw_reporter cw1) (int k) (cw_log cw1) = Ret (rp, lg2)"
    and rp: "reporter_ok rp" "same_reporter (setup_reporter cs) rp"
    using LogPhaseStart_inv[OF assms(1) _ _ assms(3), of "cw_reporter cw1" "cw_log cw1"] assms(2) su(2)
    by (auto simp: client_inv_def)
  obtain s s4 where g: "run_groups (phase_request c raw) (phase_payload raw) (pe_groups e) 0 (ClientWorkers (PhaseClient phase))
      (phase_system lg2) = Ret (s, None)" "wait_all (phase_request c raw) (pe_rest e) s = Ret s4"
    using assms(5) unfolding phase_ends_def by blast
  have "rp_plan rp = cs_plan cs" using rp(2) by (simp add: same_reporter_def setup_reporter_fields)
  then obtain lg5 where e: "LogPhaseEnd rp (int k) (phase_stats e (sy_stats s4)) (st_log (sy_stats s4)) = Ret lg5"
    using assms(3) by (simp add: LogPhaseEnd_def Let_def)
  let ?cw = "cw1\<lparr>cw_reporter := rp, cw_log := lg5, cw_sent := cw_sent cw1 @ st_sent (sy_stats s4)\<rparr>"
  obtain cw' where t: "run_teardown c raw ?cw = Ret cw'" "cw_reporter cw' = cw_reporter ?cw"
    using assms(4) unfolding sections_ok_def by blast
  have "executePhase c e phase raw (int k) cw = Ret (cw', pe_err e)"
    using su st g e t by (simp add: executePhase_def)
  with rp t(2) show ?thesis by (simp add: client_inv_def)
qed

lemma setup_durations:
  assumes "repeats_ok (cs_repeats cs) n" "n = length (Phases (cs_plan cs))" "0 < n" "n \<le> 300000"
    and rt: "cs_runtime cs = 0 \<or> MinPhaseDuration \<le> cs_runtime cs \<and> cs_runtime cs \<le> MaxPhaseDuration"
  shows "known_durations (setup_reporter cs)" "\<exists>d x. GetTotalDuration (rp_durations (setup_reporter cs)) = Ret (d, x)"
proof -
  let ?d = "NewPhaseDurations (cs_runtime cs) (cs_plan cs) (cs_repeats cs)"
  have d: "rp_durations (setup_reporter cs) = ?d" by (simp add: setup_reporter_def NewReporter_def)
  have f: "RuntimeDuration ?d = cs_runtime cs" "pd_plan ?d = cs_plan cs" by (simp_all add: NewPhaseDurations_def Let_def)
  have np: "int n = num_phases (cs_plan cs)" using assms(2) by (simp add: num_phases_def)
  have "\<exists>x. fresh_duration ?d (int i) = Ret x" if "i < length (Phases (cs_plan cs))" for i
  proof (cases "cs_runtime cs = 0")
    case True
    with fresh_planned[of ?d i] that f show ?thesis by simp
  next
    case False
    with rt have "0 < cs_runtime cs" "cs_runtime cs \<le> MaxPhaseDuration" by auto
    from override_duration[OF assms(1) np assms(3,4) this, of "int i"] show ?thesis by blast
  qed
  then show "known_durations (setup_reporter cs)" by (simp add: known_durations_def d setup_reporter_fields)
  show "\<exists>d x. GetTotalDuration (rp_durations (setup_reporter cs)) = Ret (d, x)"
  proof (cases "cs_runtime cs = 0")
    case True
    with f total_duration_loop_eq[OF cache_ok_New, of "cs_runtime cs" "cs_plan cs" "cs_repeats cs" "[0..<length (Phases (cs_plan cs))]" 0]
    show ?thesis by (auto simp: GetTotalDuration_def d)
  next
    case False
    with rt f show ?thesis by (auto simp: GetTotalDuration_def d)
  qed
qed

lemma client_start_inv:
  assumes "known_durations (setup_reporter cs)" "\<exists>d x. GetTotalDuration (rp_durations (setup_reporter cs)) = Ret (d, x)"
  shows "\<exists>cw. client_start cs pat n lg = Ret cw \<and> client_inv cs cw \<and> cw_runs cw = 0"
proof -
  obtain d x where t: "GetTotalDuration (rp_durations (setup_reporter cs)) = Ret (d, x)" using assms(2) by blast
  from LogPlanSummary_inv[OF setup_reporter_ok t] assms(1)
  obtain r' lg' where "LogPlanSummary (setup_reporter cs)
      (LogRuntimeOverrides (setup_reporter cs) (cs_runtime cs) (cs_repeats_flag cs) pat lg) = Ret (r', lg')"
    "reporter_ok r'" "same_reporter (setup_reporter cs) r'"
    unfolding known_durations_def by blast
  then show ?thesis by (simp add: client_start_def Let_def client_inv_def)
qed

lemma client_inv_cong:
  "cw_reporter cw' = cw_reporter cw \<Longrightarrow> client_inv cs cw' = client_inv cs cw"
  by (simp add: client_inv_def)

text \<open>What the command needs of its environment: whichever phase an execution is of, it ends.\<close>

definition client_env_ok :: "'n client_config \<Rightarrow> client_setup \<Rightarrow> (nat \<Rightarrow> int \<Rightarrow> phase_env) \<Rightarrow> bool" where
  "client_env_ok c cs envs \<longleftrightarrow> (\<forall>i<length (Phases (cs_plan cs)). \<exists>raw. raw_phase (cs_raw cs) (int i) = Ret raw
     \<and> sections_ok c raw \<and> (\<forall>k. phase_ends c (envs k (int i)) (Phases (cs_plan cs) ! i) raw))"

lemma client_phase_ends:
  assumes "known_durations (setup_reporter cs)" "client_inv cs cw" "i < length (Phases (cs_plan cs))" "client_env_ok c cs envs"
  shows "\<exists>cw' err. client_phase c cs envs cw (int i) = Ret (cw', err) \<and> (err = None \<or> err = Some EDeadlineExceeded)
    \<and> client_inv cs cw' \<and> cw_runs cw' = Suc (cw_runs cw)"
proof -
  obtain raw where raw: "raw_phase (cs_raw cs) (int i) = Ret raw" "sections_ok c raw"
    "\<forall>k. phase_ends c (envs k (int i)) (Phases (cs_plan cs) ! i) raw"
    using assms(3,4) unfolding client_env_ok_def by blast
  obtain d x where d: "GetPhaseDuration (rp_durations (cw_reporter cw)) (int i) = Ret (d, x)"
    using known_phase_duration[OF assms(1) _ _ assms(3), of "cw_reporter cw"] assms(2) by (auto simp: client_inv_def)
  let ?cw = "say_in Info (''Executing phase '' @ itoa (int i + 1) @ '' for '' @ show_seconds x @ '' seconds'')
    (cw\<lparr>cw_reporter := (cw_reporter cw)\<lparr>rp_durations := d\<rparr>, cw_runs := Suc (cw_runs cw)\<rparr>)"
  have "client_inv cs ?cw" using client_inv_step[OF assms(2) d] by (simp add: client_inv_def say_in_def)
  from executePhase_ends[OF assms(1) this assms(3) raw(2)] raw(3) obtain cw' where
    e: "executePhase c (envs (cw_runs cw) (int i)) (Phases (cs_plan cs) ! i) raw (int i) ?cw = Ret (cw', pe_err (envs (cw_runs cw) (int i)))"
    "client_inv cs cw'" by blast
  have ph: "client_phase c cs envs cw (int i) = Ret (cw', pe_err (envs (cw_runs cw) (int i)))"
    using d raw(1) e(1) assms(3) by (simp add: client_phase_def Let_def)
  moreover have "pe_err (envs (cw_runs cw) (int i)) = None \<or> pe_err (envs (cw_runs cw) (int i)) = Some EDeadlineExceeded"
    using raw(3) unfolding phase_ends_def by blast
  ultimately show ?thesis using e(2) client_phase_runs[OF ph] by blast
qed

lemma client_loop:
  assumes "known_durations (setup_reporter cs)" "client_env_ok c cs envs" "client_inv cs cw" "cw_runs cw = 0"
    and "n = length (Phases (cs_plan cs))" "0 < n"
  shows "\<exists>s cw'. run_phases (client_phase c cs envs) (say_in Info) (cs_repeats cs) (NewPatternExecutor g pat (int n)) n cw
      = Some (Ret (s, None)) \<and> world s = say_in Info all_phases_msg cw'
    \<and> int (cw_runs cw') = sum_list (map (quota (cs_repeats cs)) [0..<n])"
proof -
  let ?J = "\<lambda>(c :: nat) es cw. client_inv cs cw \<and> int (cw_runs cw) = sum_list es"
  have wf: "wf_executor (NewPatternExecutor g pat (int n)) 0 (replicate n 0) (cs_repeats cs)"
    using wf_NewPatternExecutor[of g pat "replicate n 0" "cs_repeats cs"] by simp
  have "ex.loop_user_inv (client_phase c cs envs) (cs_repeats cs) n ?J ?J"
    unfolding ex.loop_user_inv_def
  proof (intro conjI allI impI)
    fix k es and cw :: "'a client_world"
    assume a: "length es = n" "k < n" "?J k es cw"
    have "k < length (Phases (cs_plan cs))" "client_inv cs cw" using a assms(5) by auto
    from client_phase_ends[OF assms(1) this(2,1) assms(2)] obtain cw' err where
      "client_phase c cs envs cw (int k) = Ret (cw', err)" "err = None \<or> err = Some EDeadlineExceeded"
      "client_inv cs cw'" "cw_runs cw' = Suc (cw_runs cw)" by blast
    then show "\<exists>w' err. client_phase c cs envs cw (int k) = Ret (w', err) \<and> (err = None \<or> err = Some EDeadlineExceeded)
        \<and> ?J k (es[k := es ! k + 1]) w'"
      using a by (simp add: sum_list_update_Suc)
  qed auto
  from ex.phases_rule[OF assms(6) wf _ this, of cw "say_in Info"] assms(3,4)
  show ?thesis unfolding run_phases_def nil_post_def by (auto simp: sum_list_replicate)
qed

text \<open>
  C1. The client command from end to end: when the flags and the plan are accepted, the plan
  has phases (at most 300000), and every execution comes to an end, whichever phase it is of (the
  phase's sections are answered, its workers and reporters stop, its context has not been cancelled
  from outside), the command returns without an error, for every pattern and any schedule of the
  workers, having executed the phases exactly as often as their repeats say, in total.
\<close>

theorem command_client_completes:
  assumes "client_prepare f acts fl = Ret cs" and "0 < length (Phases (cs_plan cs))" and "length (Phases (cs_plan cs)) \<le> 300000"
    and "client_env_ok (c\<lparr>cc_host := fl_host fl, cc_port := fl_port fl, cc_headers := cs_headers cs\<rparr>) cs envs"
  shows "\<exists>cw. command_client f acts c g envs fl n lg = Some (Ret (cw, None))
    \<and> int (cw_runs cw) = (\<Sum>i<length (Phases (cs_plan cs)). GetRepeat (cs_repeats cs) (int i))"
proof -
  let ?n = "length (Phases (cs_plan cs))"
  have n: "?n < 2 ^ 48" using assms(3) by simp
  have facts: "repeats_ok (cs_repeats cs) ?n"
    "cs_runtime cs = 0 \<or> MinPhaseDuration \<le> cs_runtime cs \<and> cs_runtime cs \<le> MaxPhaseDuration"
    using client_prepare_facts[OF assms(1) n] by blast+
  note dur = setup_durations[OF facts(1) refl assms(2,3) facts(2)]
  obtain cw0 where st: "client_start cs (fl_phase_pattern fl) n lg = Ret cw0" "client_inv cs cw0" "cw_runs cw0 = 0"
    using client_start_inv[OF dur, of "fl_phase_pattern fl" n lg] by blast
  obtain s cw' where r: "run_phases (client_phase (c\<lparr>cc_host := fl_host fl, cc_port := fl_port fl, cc_headers := cs_headers cs\<rparr>) cs envs)
      (say_in Info) (cs_repeats cs) (NewPatternExecutor g (PlanPattern (cs_plan cs)) (int ?n)) ?n cw0 = Some (Ret (s, None))"
    "world s = say_in Info all_phases_msg cw'" "int (cw_runs cw') = sum_list (map (quota (cs_repeats cs)) [0..<?n])"
    using client_loop[OF dur(1) assms(4) st(2,3) refl assms(2)] by blast
  have "quota (cs_repeats cs) i = GetRepeat (cs_repeats cs) (int i)" if "i < ?n" for i
    using rep.get_range[OF facts(1) that] by (simp add: quota_def)
  then have "sum_list (map (quota (cs_repeats cs)) [0..<?n]) = (\<Sum>i<?n. GetRepeat (cs_repeats cs) (int i))"
    by (simp add: interv_sum_list_conv_sum_set_nat atLeast0LessThan)
  with st(1) r assms(1) show ?thesis
    by (simp add: command_client_def finish_command_def say_in_def)
qed

text \<open>Two phases of different sizes: two workers in the first, one in the second.\<close>

definition small_phase :: Phase where
  "small_phase = demo_phase\<lparr>PhaseClient := \<lparr>ClientWorkers = [\<lparr>Instances = 1, Duration = 60000000000, Delay = 0, Timeout = 0\<rparr>]\<rparr>\<rparr>"

definition small_env :: phase_env where
  "small_env = demo_env\<lparr>pe_groups := (\<lambda>_. \<lparr>ge_steps = [Event 0 (CtxDone EDeadlineExceeded), Op 0, Op 0], ge_ctx_err = None\<rparr>),
     pe_rest := [TickEnd 0]\<rparr>"

definition two_phase_plan :: Plan where
  "two_phase_plan = \<lparr>PlanPattern = [], Phases = [demo_phase, small_phase]\<rparr>"

definition two_phase_files :: plan_files where
  "two_phase_files = demo_files\<lparr>pf_yaml_plan := (\<lambda>s. Ret two_phase_plan), pf_yaml_map := (\<lambda>s.
     Ret [(''phases'', GList [GMapA [(GStr ''workload'', GMapA [])], GMapA [(GStr ''workload'', GMapA [])]])])\<rparr>"

definition two_phase_envs :: "nat \<Rightarrow> int \<Rightarrow> phase_env" where
  "two_phase_envs k i = (if i = 0 then demo_env else small_env)"

definition two_phase_setup :: client_setup where
  "two_phase_setup = \<lparr>cs_plan = two_phase_plan\<lparr>PlanPattern := ''cycle''\<rparr>,
     cs_raw = [(''phases'', GList [GMapS [(''workload'', GMapS [])], GMapS [(''workload'', GMapS [])]])],
     cs_repeats = NewPhaseRepeats 500, cs_headers = [(''X-Env'', ''a'')], cs_runtime = 0, cs_repeats_flag = 500\<rparr>"

lemma two_phase_valid: "\<forall>ph\<in>set (Phases two_phase_plan). phase_valid demo_acts ph"
  by (simp add: two_phase_plan_def small_phase_def demo_phase_def phase_valid_def one_phase_plan_def duration_ok_def
      workload_ok_def action_ok_def demo_acts_def echo_action_def)

lemma two_phase_prepared: "client_prepare two_phase_files demo_acts demo_flags = Ret two_phase_setup"
proof -
  have "Plan_Verify demo_acts two_phase_plan = Ret ()" using two_phase_valid by (simp add: Plan_Verify_iff)
  moreover have "default_repeats two_phase_plan = two_phase_plan"
    by (simp add: default_repeats_def two_phase_plan_def small_phase_def demo_phase_def one_phase_plan_def)
  ultimately have "loadPlan two_phase_files demo_acts (fl_plan demo_flags) = Ret (two_phase_plan, cs_raw two_phase_setup)"
    by (simp add: loadPlan_def two_phase_files_def demo_files_def wrap_err_def two_phase_setup_def)
  then show ?thesis
    by (simp add: client_prepare_def check_repeats_flag_def MaxRepeatsPerPhase_def parse_runtime_def demo_flags_def
        init_repeats_def override_pattern_def PatternSequence_def PatternCycle_def PatternRandom_def idx_def Let_def
        NewPhaseRepeats_def two_phase_setup_def)
qed

lemma small_groups:
  "\<exists>s s4. run_groups (Ret r) (Ret body) (pe_groups small_env) 0 (ClientWorkers (PhaseClient small_phase)) (phase_system lg) = Ret (s, None)
    \<and> wait_all (Ret r) (pe_rest small_env) s = Ret s4"
  by (simp add: small_env_def small_phase_def phase_system_def start_group_def main_say_def new_worker_def wait_all_def
      worker_done_def ticker_end_def new_ticker_def Let_def)

lemma two_phase_env: "client_env_ok (demo_config\<lparr>cc_headers := hs\<rparr>) two_phase_setup two_phase_envs"
  unfolding client_env_ok_def
proof (intro allI impI)
  let ?raw = "[(''workload'', GMapS [])]" and ?c = "demo_config\<lparr>cc_headers := hs\<rparr>"
  fix i assume "i < length (Phases (cs_plan two_phase_setup))"
  then consider "i = 0" | "i = 1" by (fastforce simp: two_phase_setup_def two_phase_plan_def less_Suc_eq)
  note i = this
  have "raw_phase (cs_raw two_phase_setup) (int i) = Ret ?raw"
    using i by cases (simp_all add: raw_phase_def two_phase_setup_def idx_def)
  moreover have "sections_ok ?c ?raw" by (simp add: sections_ok_def run_setup_def run_teardown_def)
  moreover have "phase_ends ?c (two_phase_envs k (int i)) (Phases (cs_plan two_phase_setup) ! i) ?raw" for k
  proof -
    have p: "phase_payload ?raw = Ret (JObj [])" by (simp add: phase_payload_def sort_key_def)
    obtain req where q: "phase_request ?c ?raw = Ret req"
      by (simp add: phase_request_def p worker_request_def demo_config_def NewRequest_def)
    have "pe_err demo_env = Some EDeadlineExceeded" "pe_err small_env = Some EDeadlineExceeded"
      by (simp_all add: demo_env_def small_env_def)
    then have "phase_ends ?c demo_env demo_phase ?raw" "phase_ends ?c small_env small_phase ?raw"
      unfolding phase_ends_def p q using demo_groups small_groups by blast+
    moreover have "Phases (cs_plan two_phase_setup) = [demo_phase, small_phase]"
      by (simp add: two_phase_setup_def two_phase_plan_def)
    ultimately have ends: "i = 0 \<or> i = 1 \<Longrightarrow> ?thesis" by (auto simp: two_phase_envs_def)
    from i show ?thesis by cases (use ends in simp_all)
  qed
  ultimately show "\<exists>raw. raw_phase (cs_raw two_phase_setup) (int i) = Ret raw \<and> sections_ok ?c raw
      \<and> (\<forall>k. phase_ends ?c (two_phase_envs k (int i)) (Phases (cs_plan two_phase_setup) ! i) raw)" by blast
qed

theorem command_client_completes_witness:
  "\<exists>cw. command_client two_phase_files demo_acts demo_config \<lparr>draws = (\<lambda>k. k), pos = 0\<rparr> two_phase_envs demo_flags 0 []
     = Some (Ret (cw, None)) \<and> int (cw_runs cw) = 1000"
proof -
  have c: "demo_config\<lparr>cc_host := fl_host demo_flags, cc_port := fl_port demo_flags, cc_headers := cs_headers two_phase_setup\<rparr>
      = demo_config\<lparr>cc_headers := cs_headers two_phase_setup\<rparr>"
    by (simp add: demo_config_def demo_flags_def)
  have l: "length (Phases (cs_plan two_phase_setup)) = 2" by (simp add: two_phase_setup_def two_phase_plan_def)
  have r: "cs_repeats two_phase_setup = NewPhaseRepeats 500" by (simp add: two_phase_setup_def)
  from command_client_completes[OF two_phase_prepared, of demo_config two_phase_envs "\<lparr>draws = (\<lambda>k. k), pos = 0\<rparr>" 0 "[]"] l r
  show ?thesis unfolding c by (simp add: two_phase_env)
qed

end
