(* ===== verification/Float64.thy ===== *)
theory Float64
  imports GoValue
begin

text \<open>
  What \<^verbatim>\<open>float64\<close> does to the integers that pass through \<^verbatim>\<open>interface{}\<close>: up to 2^53 in
  absolute value they are unchanged.
\<close>

lemma bitlen_0 [simp]: "bitlen 0 = 0"
  by (simp add: bitlen.simps)

lemma bitlen_pos: "0 < n \<Longrightarrow> bitlen n = Suc (bitlen (n div 2))"
  by (simp add: bitlen.simps[of n])

lemma bitlen_bounds: "0 < n \<Longrightarrow> 0 < bitlen n \<and> 2 ^ (bitlen n - 1) \<le> n \<and> n < 2 ^ bitlen n"
proof (induction n rule: less_induct)
  case (less n)
  show ?case
  proof (cases "n = 1")
    case True
    then show ?thesis by (simp add: bitlen_pos)
  next
    case False
    with less.prems have h: "0 < n div 2" "n div 2 < n" by auto
    obtain b where b: "bitlen (n div 2) = Suc b" using less.IH[OF h(2,1)] gr0_conv_Suc by blast
    have "2 ^ b \<le> n div 2" "n div 2 < 2 * 2 ^ b" using less.IH[OF h(2,1)] b by auto
    then have "2 * 2 ^ b \<le> n" "n < 2 * (2 * 2 ^ b)" by linarith+
    then show ?thesis using bitlen_pos[OF less.prems] b by simp
  qed
qed

lemma pow2_add: "pow2 (a + b) = pow2 a * pow2 b"
proof -
  have p: "pow2 x = 2 powi x" for x
    by (simp add: pow2_def power_int_def field_simps)
  show ?thesis unfolding p by (rule power_int_add) simp
qed

lemma pow2_pos [simp]: "0 < pow2 a"
  by (simp add: pow2_def)

lemma pow2_nat: "pow2 (int n) = 2 ^ n"
  by (simp add: pow2_def)

lemma round_even_int [simp]: "round_even (of_int n) = n"
  by (simp add: round_even_def)

lemma f64_exponent_int:
  assumes "n \<noteq> 0" "\<bar>n\<bar> < 9007199254740992"
  obtains k :: nat where "f64_exponent (of_int n) = - int k"
proof -
  define a where "a = nat \<bar>n\<bar>"
  have a: "0 < a" "a < 2 ^ 53" "\<bar>of_int n :: rat\<bar> = of_nat a" "int a = \<bar>n\<bar>"
    using assms by (auto simp: a_def)
  note bl = bitlen_bounds[OF a(1)]
  have le: "bitlen a \<le> 53"
  proof (rule ccontr)
    assume "\<not> bitlen a \<le> 53"
    then have "(2::nat) ^ 53 \<le> 2 ^ (bitlen a - 1)" by (intro power_increasing) auto
    with bl a(2) show False by linarith
  qed
  have "(of_nat (2 ^ (bitlen a - 1)) :: rat) \<le> of_nat a" using bl by (simp only: of_nat_le_iff)
  then have "pow2 (int (bitlen a - 1)) \<le> \<bar>of_int n\<bar>" unfolding a(3) pow2_nat by simp
  moreover have "int (bitlen a - 1) = 53 + (int (bitlen a) - 1 - 53)" using bl by simp
  ultimately have "pow2 53 * pow2 (int (bitlen a) - 1 - 53) \<le> \<bar>of_int n\<bar>" by (metis pow2_add)
  then have "2 ^ 53 \<le> \<bar>of_int n\<bar> / pow2 (int (bitlen a) - 1 - 53)"
    using pow2_nat[of 53] by (simp add: pos_le_divide_eq)
  moreover have "bitlen 1 = 1" by (simp add: bitlen_pos)
  moreover have "quotient_of \<bar>of_int n\<bar> = (\<bar>n\<bar>, 1)" unfolding of_int_abs[symmetric] unfolding of_int_rat quotient_of_Fract by (simp add: normalize_def)
  ultimately have "f64_exponent (of_int n) = max (- 1074) (int (bitlen a) - 53)"
    using a_def by (simp add: f64_exponent_def Let_def)
  also have "\<dots> = - int (53 - bitlen a)" using le by simp
  finally show ?thesis by (rule that)
qed

lemma f64_int [simp]:
  assumes "\<bar>n\<bar> < 9007199254740992"
  shows "f64 (of_int n) = of_int n"
proof (cases "n = 0")
  case False
  then obtain k where k: "f64_exponent (of_int n) = - int k" using f64_exponent_int assms by blast
  have "\<bar>of_int n\<bar> / pow2 (- int k) = of_int (\<bar>n\<bar> * 2 ^ k)"
    by (cases "k = 0") (simp_all add: pow2_def)
  then have "f64 (of_int n) = sgn (of_int n) * of_int (\<bar>n\<bar> * 2 ^ k) * pow2 (- int k)"
    using False k by (simp only: f64_def round_even_int) simp
  also have "\<dots> = sgn (of_int n) * \<bar>of_int n\<bar>"
    by (cases "k = 0") (simp_all add: pow2_def)
  finally show ?thesis by (simp add: sgn_mult_abs)
qed (simp add: f64_def)

lemma f64_numeral [simp]:
  assumes "(numeral v :: int) < 9007199254740992"
  shows "f64 (numeral v) = numeral v" "f64 (- numeral v) = - numeral v"
  using f64_int[of "numeral v"] f64_int[of "- numeral v"] assms by simp_all

lemma f64_0_1 [simp]: "f64 0 = 0" "f64 1 = 1"
  using f64_int[of 0] f64_int[of 1] by simp_all

lemma max_f64_int [simp]: "\<bar>n\<bar> < 9007199254740992 \<Longrightarrow> \<bar>of_int n\<bar> \<le> max_f64"
proof -
  assume n: "\<bar>n\<bar> < 9007199254740992"
  have "\<bar>of_int n :: rat\<bar> = of_int \<bar>n\<bar>" by simp
  also have "\<dots> \<le> of_int 9007199254740992" using n by (simp only: of_int_le_iff)
  also have "\<dots> \<le> (2 ^ 53 - 1 :: rat) * 2 ^ 971"
  proof -
    have "(9007199254740992 :: rat) \<le> (2 ^ 53 - 1) * 2 ^ 1" by simp
    also have "\<dots> \<le> (2 ^ 53 - 1) * 2 ^ 971" by (intro mult_left_mono power_increasing) simp_all
    finally show ?thesis by simp
  qed
  finally show ?thesis by (simp add: max_f64_def)
qed

lemma max_f64_numeral [simp]: "(numeral v :: int) < 9007199254740992 \<Longrightarrow> numeral v \<le> max_f64"
  using max_f64_int[of "numeral v"] by simp

lemma max_f64_1 [simp]: "0 \<le> max_f64" "1 \<le> max_f64"
  using max_f64_int[of 0] max_f64_int[of 1] by simp_all

end
