(* ===== verification/World.thy ===== *)
theory World
  imports Http Float64
begin

text \<open>
  The process in which a server executes actions, and how the code of an action is written
  down: a program takes the process to the process and an outcome. Calls into third-party
  libraries and the operating system are recorded with their arguments and answered from a
  sequence of answers that is part of the process and otherwise arbitrary; so is the clock.
\<close>

section \<open>The process\<close>

text \<open>\<^verbatim>\<open>http.ResponseWriter\<close>: the status once it is set, and the body so far.\<close>

record response =
  rs_status :: "int option"
  rs_body :: string

text \<open>An object a constructor in \<^verbatim>\<open>SERVICE_TYPES\<close> has made.\<close>

record service =
  sv_name :: string
  sv_type :: string
  sv_config :: gmap
  sv_handle :: gval

text \<open>
  The two fields of a RabbitMQ service that change, \<^verbatim>\<open>conn\<close> and \<^verbatim>\<open>channel\<close>; \<open>None\<close> is nil. The
  process keeps them by address, so that everything that holds the service sees the change.
\<close>

record amqp =
  am_conn :: "gval option"
  am_channel :: "gval option"

record process = request +
  pr_env :: "string \<Rightarrow> string"
  pr_answers :: "nat \<Rightarrow> gval outcome"
  pr_calls :: "(string \<times> gval list) list"
  pr_clock :: "nat \<Rightarrow> int"
  pr_reads :: nat
  pr_out :: "string list"
  pr_dying :: "string option"
  pr_writer :: "response option"
  pr_locks :: "(string \<times> bool) list"
  pr_leaked :: "int list"
  pr_leaked_size :: int
  pr_sql_drivers :: "(string \<times> string) list"
  pr_services :: "(string \<times> service) list"
  pr_background :: "(string \<times> service) list"
  pr_started :: "string list"
  pr_amqp :: "amqp list"

type_synonym 'a prog = "process \<Rightarrow> process \<times> 'a outcome"

section \<open>Programs\<close>

definition sret :: "'a \<Rightarrow> 'a prog" where
  "sret x w = (w, Ret x)"

definition lift_out :: "'a outcome \<Rightarrow> 'a prog" where
  "lift_out r w = (w, r)"

definition sbind :: "'a prog \<Rightarrow> ('a \<Rightarrow> 'b prog) \<Rightarrow> 'b prog" where
  "sbind m f w =
     (case m w of
        (w', Ret x) \<Rightarrow> f x w'
      | (w', Err e) \<Rightarrow> (w', Err e)
      | (w', Panic p) \<Rightarrow> (w', Panic p))"

text \<open>An error return that the code looks at: the handler gets the error and decides.\<close>

definition on_err :: "'a prog \<Rightarrow> (gerror \<Rightarrow> 'a prog) \<Rightarrow> 'a prog" where
  "on_err m h w = (case m w of (w', Err e) \<Rightarrow> h e w' | r \<Rightarrow> r)"

text \<open>
  Two outcomes are no end of a call at all: the fatal error of a mutex ends the process, and a
  call that is blocked does not come back. Nothing of the goroutine runs after them.
\<close>

fun no_return :: "'a outcome \<Rightarrow> bool" where
  "no_return (Panic p) \<longleftrightarrow> p = FatalUnlock \<or> p = Blocked"
| "no_return _ \<longleftrightarrow> False"

text \<open>
  \<^verbatim>\<open>defer d()\<close> in front of \<open>m\<close>: \<open>d\<close> runs when \<open>m\<close> returns, with or without an error, and when it panics.
\<close>

definition deferred :: "unit prog \<Rightarrow> 'a prog \<Rightarrow> 'a prog" where
  "deferred d m w =
     (case m w of (w1, r) \<Rightarrow>
        if no_return r then (w1, r)
        else (case d w1 of (w2, Panic p) \<Rightarrow> (w2, Panic p) | (w2, _) \<Rightarrow> (w2, r)))"

definition say :: "level \<Rightarrow> string \<Rightarrow> unit prog" where
  "say l msg w = (req_emit l msg w, Ret ())"

definition print_out :: "string \<Rightarrow> unit prog" where
  "print_out s w = (w\<lparr>pr_out := pr_out w @ [s]\<rparr>, Ret ())"

text \<open>\<^verbatim>\<open>if err != nil { logger.Warn(msg); return err }\<close>\<close>

definition or_log :: "level \<Rightarrow> string \<Rightarrow> 'a prog \<Rightarrow> 'a prog" where
  "or_log l msg m = on_err m (\<lambda>e. sbind (say l msg) (\<lambda>_. lift_out (Err e)))"

definition or_warn :: "string \<Rightarrow> 'a prog \<Rightarrow> 'a prog" where
  "or_warn msg m = on_err m (\<lambda>e. sbind (say Warn msg) (\<lambda>_. lift_out (Err e)))"

definition lib :: "string \<Rightarrow> gval list \<Rightarrow> gval prog" where
  "lib f args w = (w\<lparr>pr_calls := pr_calls w @ [(f, args)]\<rparr>, pr_answers w (length (pr_calls w)))"

text \<open>A call without an error result, and one whose error the code drops.\<close>

definition lib0 :: "string \<Rightarrow> gval list \<Rightarrow> gval prog" where
  "lib0 f args = on_err (lib f args) (\<lambda>_. sret GNil)"

definition call0 :: "string \<Rightarrow> gval list \<Rightarrow> unit prog" where
  "call0 f args = sbind (lib0 f args) (\<lambda>_. sret ())"

text \<open>\<^verbatim>\<open>if err != nil { logger.Warn(msg) }\<close>, and the code goes on.\<close>

definition warn_only :: "level \<Rightarrow> string \<Rightarrow> gval prog \<Rightarrow> gval prog" where
  "warn_only l msg m = on_err m (\<lambda>e. sbind (say l msg) (\<lambda>_. sret GNil))"

text \<open>\<^verbatim>\<open>time.Now\<close> is the next reading of the clock.\<close>

definition time_Now :: "int prog" where
  "time_Now w = (w\<lparr>pr_reads := Suc (pr_reads w)\<rparr>, Ret (pr_clock w (pr_reads w)))"

text \<open>
  \<^verbatim>\<open>make([]byte, n)\<close>: the length of the slice; it panics on one that is negative or more than
  the address space (\<^verbatim>\<open>maxAlloc\<close>) holds.
\<close>

definition max_alloc :: int where
  "max_alloc = 281474976710656"

definition make_slice :: "int \<Rightarrow> int outcome" where
  "make_slice n = (if n < 0 \<or> n > max_alloc then Panic NegativeLength else Ret n)"

definition env :: "(process \<Rightarrow> 'a) \<Rightarrow> 'a prog" where
  "env f w = (w, Ret (f w))"

definition change :: "(process \<Rightarrow> process) \<Rightarrow> unit prog" where
  "change f w = (f w, Ret ())"

text \<open>\<^verbatim>\<open>for i := 0; i < n; i++\<close> around a body that does not use \<open>i\<close>.\<close>

fun repeat_times :: "nat \<Rightarrow> unit prog \<Rightarrow> unit prog" where
  "repeat_times 0 m = sret ()"
| "repeat_times (Suc n) m = sbind m (\<lambda>_. repeat_times n m)"

text \<open>Answers of a known Go type.\<close>

fun as_bool :: "gval \<Rightarrow> bool" where
  "as_bool (GBool b) = b"
| "as_bool _ = False"

fun as_int :: "gval \<Rightarrow> int" where
  "as_int (GInt n) = n"
| "as_int _ = 0"

fun as_float :: "gval \<Rightarrow> rat" where
  "as_float (GFloat q) = q"
| "as_float _ = 0"

fun as_string :: "gval \<Rightarrow> string" where
  "as_string (GStr s) = s"
| "as_string _ = []"

text \<open>A field of a struct a library returns.\<close>

fun gfield :: "string \<Rightarrow> gval \<Rightarrow> gval" where
  "gfield k (GMapS m) = (case map_of m k of Some v \<Rightarrow> v | None \<Rightarrow> GNil)"
| "gfield k _ = GNil"

fun as_list :: "gval \<Rightarrow> gval list" where
  "as_list (GList vs) = vs"
| "as_list _ = []"

lemma sbind_sret [simp]: "sbind (sret x) f = f x"
  by (rule ext) (simp add: sbind_def sret_def)

lemma sbind_assoc [simp]: "sbind (sbind m f) g = sbind m (\<lambda>x. sbind (f x) g)"
  by (rule ext) (auto simp: sbind_def split: prod.splits outcome.splits)

lemma sbind_lift_out [simp]: "sbind (lift_out (Ret x)) f = f x" "sbind (lift_out (Err e)) f = lift_out (Err e)"
  "sbind (lift_out (Panic p)) f = lift_out (Panic p)"
  by (rule ext, simp add: sbind_def lift_out_def)+

text \<open>\<^verbatim>\<open>err.Error()\<close>.\<close>

fun error_text :: "gerror \<Rightarrow> string" where
  "error_text (EText s) = s"
| "error_text (EWrap s e) = s @ '': '' @ error_text e"
| "error_text ECanceled = ''context canceled''"
| "error_text EDeadlineExceeded = ''context deadline exceeded''"
| "error_text (EExt s) = s"

section \<open>Configs of actions\<close>

text \<open>A field of a config struct, from its decoder, its selector and its update.\<close>

definition fld :: "('a \<Rightarrow> json \<Rightarrow> 'a option) \<Rightarrow> ('r \<Rightarrow> 'a) \<Rightarrow> ('a \<Rightarrow> 'r \<Rightarrow> 'r) \<Rightarrow> 'r \<Rightarrow> json \<Rightarrow> 'r option" where
  "fld dec sel upd r j = map_option (\<lambda>v. upd v r) (dec (sel r) j)"

text \<open>Decoding into a slice reuses the elements it has: element \<open>i\<close> is decoded into the old one.\<close>

fun dec_elems :: "('a \<Rightarrow> json \<Rightarrow> 'a option) \<Rightarrow> 'a \<Rightarrow> 'a list \<Rightarrow> json list \<Rightarrow> 'a list option" where
  "dec_elems dec zero olds [] = Some []"
| "dec_elems dec zero olds (j # js) =
     (case dec (case olds of [] \<Rightarrow> zero | x # _ \<Rightarrow> x) j of
        None \<Rightarrow> None
      | Some v \<Rightarrow> map_option (Cons v) (dec_elems dec zero (tl olds) js))"

fun dec_list :: "('a \<Rightarrow> json \<Rightarrow> 'a option) \<Rightarrow> 'a \<Rightarrow> 'a list \<Rightarrow> json \<Rightarrow> 'a list option" where
  "dec_list dec zero olds (JArr js) = dec_elems dec zero olds js"
| "dec_list dec zero olds JNull = Some []"
| "dec_list dec zero olds _ = None"

definition parse_warn :: "'r fields \<Rightarrow> 'r \<Rightarrow> gmap \<Rightarrow> 'r prog" where
  "parse_warn fs zero cfg = or_warn ''failed to parse config'' (lift_out (ParseConfig fs zero cfg))"

text \<open>What every action but one does to parse its config: build the struct and drop it.\<close>

definition parse_only :: "'r fields \<Rightarrow> 'r \<Rightarrow> gmap \<Rightarrow> unit outcome" where
  "parse_only fs zero cfg = obind (ParseConfig fs zero cfg) (\<lambda>_. Ret ())"

section \<open>Programs that do not fail for a config\<close>

text \<open>
  A process whose libraries do not themselves report the errors of \<^verbatim>\<open>encoding/json\<close> that stand
  for a bad config, and the programs that keep to that.
\<close>

definition honest :: "process \<Rightarrow> bool" where
  "honest w \<longleftrightarrow> (\<forall>k. pr_answers w k \<noteq> Err unmarshal_error \<and> pr_answers w k \<noteq> Err marshal_error)"

definition clean :: "'a prog \<Rightarrow> bool" where
  "clean m \<longleftrightarrow> (\<forall>w. honest w \<longrightarrow> honest (fst (m w)) \<and> snd (m w) \<noteq> Err unmarshal_error \<and> snd (m w) \<noteq> Err marshal_error)"

named_theorems clean_rules \<open>programs that do not fail for a config\<close>

lemma cleanI:
  "(\<And>w w' r. honest w \<Longrightarrow> m w = (w', r) \<Longrightarrow> honest w' \<and> r \<noteq> Err unmarshal_error \<and> r \<noteq> Err marshal_error) \<Longrightarrow> clean m"
  by (simp add: clean_def) (metis prod.collapse)

lemma cleanD:
  "clean m \<Longrightarrow> honest w \<Longrightarrow> m w = (w', r) \<Longrightarrow> honest w' \<and> r \<noteq> Err unmarshal_error \<and> r \<noteq> Err marshal_error"
  unfolding clean_def by (metis fst_conv snd_conv)

lemma clean_sret [clean_rules, intro]: "clean (sret x)"
  by (simp add: clean_def sret_def)

lemma clean_lift [clean_rules, intro]:
  "r \<noteq> Err unmarshal_error \<Longrightarrow> r \<noteq> Err marshal_error \<Longrightarrow> clean (lift_out r)"
  by (simp add: clean_def lift_out_def)

lemma clean_sbind [clean_rules, intro]:
  assumes "clean m" "\<And>x. clean (f x)"
  shows "clean (sbind m f)"
proof (rule cleanI)
  fix w w' r assume h: "honest w" and e: "sbind m f w = (w', r)"
  obtain w1 r1 where m: "m w = (w1, r1)" by fastforce
  note c = cleanD[OF assms(1) h m]
  show "honest w' \<and> r \<noteq> Err unmarshal_error \<and> r \<noteq> Err marshal_error"
    using e m c by (cases r1) (auto simp: sbind_def dest: cleanD[OF assms(2)])
qed

lemma clean_on_err [clean_rules, intro]:
  assumes "clean m" "\<And>e. e \<noteq> unmarshal_error \<Longrightarrow> e \<noteq> marshal_error \<Longrightarrow> clean (h e)"
  shows "clean (on_err m h)"
proof (rule cleanI)
  fix w w' r assume h: "honest w" and e: "on_err m h w = (w', r)"
  obtain w1 r1 where m: "m w = (w1, r1)" by fastforce
  note c = cleanD[OF assms(1) h m]
  show "honest w' \<and> r \<noteq> Err unmarshal_error \<and> r \<noteq> Err marshal_error"
    using e m c by (cases r1) (auto simp: on_err_def dest: cleanD[OF assms(2)])
qed

lemma clean_deferred [clean_rules, intro]:
  assumes "clean d" "clean m"
  shows "clean (deferred d m)"
proof (rule cleanI)
  fix w w' r assume h: "honest w" and e: "deferred d m w = (w', r)"
  obtain w1 r1 where m: "m w = (w1, r1)" by fastforce
  obtain w2 r2 where d: "d w1 = (w2, r2)" by fastforce
  note c = cleanD[OF assms(2) h m]
  with cleanD[OF assms(1) _ d] show "honest w' \<and> r \<noteq> Err unmarshal_error \<and> r \<noteq> Err marshal_error"
    using c e m d by (cases r2) (auto simp: deferred_def split: if_splits)
qed

lemma clean_say [clean_rules, intro]: "clean (say l msg)"
  by (simp add: clean_def say_def honest_def req_emit_def)

lemma clean_print_out [clean_rules, intro]: "clean (print_out s)"
  by (simp add: clean_def print_out_def honest_def)

lemma clean_or_warn [clean_rules, intro]: "clean m \<Longrightarrow> clean (or_warn msg m)"
  unfolding or_warn_def by (intro clean_rules) auto

lemma clean_or_log [clean_rules, intro]: "clean m \<Longrightarrow> clean (or_log l msg m)"
  unfolding or_log_def by (intro clean_rules) auto

lemma clean_lib [clean_rules, intro]: "clean (lib f args)"
  by (simp add: clean_def lib_def honest_def)

lemma clean_lib0 [clean_rules, intro]: "clean (lib0 f args)"
  unfolding lib0_def by (intro clean_rules)

lemma clean_call0 [clean_rules, intro]: "clean (call0 f args)"
  unfolding call0_def by (intro clean_rules)

lemma clean_warn_only [clean_rules, intro]: "clean m \<Longrightarrow> clean (warn_only l msg m)"
  unfolding warn_only_def by (intro clean_rules)

lemma make_slice_not_Err [simp]: "make_slice n \<noteq> Err e"
  by (simp add: make_slice_def)

lemma clean_make_slice [clean_rules, intro]: "clean (lift_out (make_slice n))"
  by (intro clean_rules) auto

lemma clean_time_Now [clean_rules, intro]: "clean time_Now"
  by (simp add: clean_def time_Now_def honest_def)

lemma clean_env [clean_rules, intro]: "clean (env f)"
  by (simp add: clean_def env_def)

lemma clean_if [clean_rules, intro]: "(b \<Longrightarrow> clean m) \<Longrightarrow> (\<not> b \<Longrightarrow> clean m') \<Longrightarrow> clean (if b then m else m')"
  by simp

lemma clean_change [clean_rules]:
  "(\<And>w. pr_answers (f w) = pr_answers w) \<Longrightarrow> clean (change f)"
  by (simp add: clean_def change_def honest_def)

lemma clean_parse_warn [clean_rules]:
  "parse_only fs zero cfg = Ret () \<Longrightarrow> clean (parse_warn fs zero cfg)"
  unfolding parse_warn_def parse_only_def by (auto simp: go_simps intro!: clean_or_warn clean_lift)

lemma parse_warn_Ret [go_simps]: "ParseConfig fs zero cfg = Ret c \<Longrightarrow> parse_warn fs zero cfg w = (w, Ret c)"
  by (simp add: parse_warn_def or_warn_def on_err_def lift_out_def)

lemma parse_warn_Err:
  "ParseConfig fs zero cfg = Err e \<Longrightarrow> parse_warn fs zero cfg w = (req_emit Warn ''failed to parse config'' w, Err e)"
  by (simp add: parse_warn_def or_warn_def on_err_def lift_out_def sbind_def say_def)

lemma clean_repeat_times [clean_rules, intro]: "clean m \<Longrightarrow> clean (repeat_times n m)"
  by (induction n) (auto intro!: clean_rules)

section \<open>What a program calls\<close>

text \<open>A program makes only library calls of a kind, and never changes the answers.\<close>

definition calls_only :: "(string \<times> gval list \<Rightarrow> bool) \<Rightarrow> 'a prog \<Rightarrow> bool" where
  "calls_only P m \<longleftrightarrow> (\<forall>w. pr_answers (fst (m w)) = pr_answers w
     \<and> (\<exists>cs. pr_calls (fst (m w)) = pr_calls w @ cs \<and> (\<forall>c\<in>set cs. P c)))"

named_theorems calls_rules \<open>programs that make only calls of a kind\<close>

lemma calls_onlyI:
  "(\<And>w. pr_answers (fst (m w)) = pr_answers w \<and> (\<exists>cs. pr_calls (fst (m w)) = pr_calls w @ cs \<and> (\<forall>c\<in>set cs. P c)))
    \<Longrightarrow> calls_only P m"
  by (simp add: calls_only_def)

lemma calls_only_answers: "calls_only P m \<Longrightarrow> m w = (w', r) \<Longrightarrow> pr_answers w' = pr_answers w"
  unfolding calls_only_def by (metis fst_conv)

lemma calls_onlyE:
  assumes "calls_only P m" and "m w = (w', r)"
  obtains cs where "pr_calls w' = pr_calls w @ cs" "\<forall>c\<in>set cs. P c"
  using assms unfolding calls_only_def by (metis fst_conv)

lemma calls_then:
  assumes "pr_calls w1 = pr_calls w @ cs" "\<forall>c\<in>set cs. P c" "calls_only P m"
  shows "pr_answers (fst (m w1)) = pr_answers w1 \<and> (\<exists>cs'. pr_calls (fst (m w1)) = pr_calls w @ cs' \<and> (\<forall>c\<in>set cs'. P c))"
proof -
  obtain cs1 where "pr_calls (fst (m w1)) = pr_calls w1 @ cs1" "\<forall>c\<in>set cs1. P c"
    using assms(3) by (auto simp: calls_only_def)
  with assms show ?thesis by (intro conjI exI[of _ "cs @ cs1"]) (auto simp: calls_only_def)
qed

lemma calls_sbind [calls_rules]:
  assumes "calls_only P m" "\<And>x. calls_only P (f x)"
  shows "calls_only P (sbind m f)"
proof (rule calls_onlyI)
  fix w
  obtain w1 r where m: "m w = (w1, r)" by fastforce
  obtain cs where cs: "pr_calls w1 = pr_calls w @ cs" "\<forall>c\<in>set cs. P c" using assms(1) m by (rule calls_onlyE)
  show "pr_answers (fst (sbind m f w)) = pr_answers w \<and> (\<exists>cs. pr_calls (fst (sbind m f w)) = pr_calls w @ cs \<and> (\<forall>c\<in>set cs. P c))"
    using m calls_only_answers[OF assms(1) m] cs calls_then[OF cs assms(2)] by (cases r) (auto simp: sbind_def)
qed

lemma calls_on_err [calls_rules]:
  assumes "calls_only P m" "\<And>e. calls_only P (h e)"
  shows "calls_only P (on_err m h)"
proof (rule calls_onlyI)
  fix w
  obtain w1 r where m: "m w = (w1, r)" by fastforce
  obtain cs where cs: "pr_calls w1 = pr_calls w @ cs" "\<forall>c\<in>set cs. P c" using assms(1) m by (rule calls_onlyE)
  show "pr_answers (fst (on_err m h w)) = pr_answers w \<and> (\<exists>cs. pr_calls (fst (on_err m h w)) = pr_calls w @ cs \<and> (\<forall>c\<in>set cs. P c))"
    using m calls_only_answers[OF assms(1) m] cs calls_then[OF cs assms(2)] by (cases r) (auto simp: on_err_def)
qed

lemma calls_deferred [calls_rules]:
  assumes "calls_only P d" "calls_only P m"
  shows "calls_only P (deferred d m)"
proof (rule calls_onlyI)
  fix w
  obtain w1 r where m: "m w = (w1, r)" by fastforce
  obtain cs where cs: "pr_calls w1 = pr_calls w @ cs" "\<forall>c\<in>set cs. P c" using assms(2) m by (rule calls_onlyE)
  show "pr_answers (fst (deferred d m w)) = pr_answers w \<and> (\<exists>cs. pr_calls (fst (deferred d m w)) = pr_calls w @ cs \<and> (\<forall>c\<in>set cs. P c))"
    using m calls_only_answers[OF assms(2) m] cs calls_then[OF cs assms(1)]
    by (cases "no_return r") (auto simp: deferred_def split: prod.splits outcome.splits)
qed

lemma calls_basic [calls_rules]: "calls_only P (sret x)" "calls_only P (lift_out r)" "calls_only P (say l msg)"
  "calls_only P (print_out s)" "calls_only P (env g)"
  by (auto simp: calls_only_def sret_def lift_out_def say_def print_out_def env_def req_emit_def)

lemma calls_if [calls_rules]: "(b \<Longrightarrow> calls_only P m) \<Longrightarrow> (\<not> b \<Longrightarrow> calls_only P m') \<Longrightarrow> calls_only P (if b then m else m')"
  by simp

lemma calls_time_Now [calls_rules]: "calls_only P time_Now"
  by (simp add: calls_only_def time_Now_def)

lemma calls_change [calls_rules]: "(\<And>w. pr_calls (g w) = pr_calls w) \<Longrightarrow> (\<And>w. pr_answers (g w) = pr_answers w) \<Longrightarrow> calls_only P (change g)"
  by (simp add: calls_only_def change_def)

lemma calls_lib [calls_rules]: "P (f, args) \<Longrightarrow> calls_only P (lib f args)"
  by (simp add: calls_only_def lib_def)

lemma calls_lib0 [calls_rules]: "P (f, args) \<Longrightarrow> calls_only P (lib0 f args)"
  unfolding lib0_def by (intro calls_rules)

lemma calls_call0 [calls_rules]: "P (f, args) \<Longrightarrow> calls_only P (call0 f args)"
  unfolding call0_def by (intro calls_rules)

lemma calls_or_warn [calls_rules]: "calls_only P m \<Longrightarrow> calls_only P (or_warn msg m)"
  unfolding or_warn_def by (intro calls_rules)

lemma calls_or_log [calls_rules]: "calls_only P m \<Longrightarrow> calls_only P (or_log l msg m)"
  unfolding or_log_def by (intro calls_rules)

lemma calls_warn_only [calls_rules]: "calls_only P m \<Longrightarrow> calls_only P (warn_only l msg m)"
  unfolding warn_only_def by (intro calls_rules)

lemma calls_parse_warn [calls_rules]: "calls_only P (parse_warn fs zero cfg)"
  unfolding parse_warn_def by (intro calls_rules)
lemma calls_repeat_times [calls_rules]: "calls_only P m \<Longrightarrow> calls_only P (repeat_times n m)"
  by (induction n) (auto intro!: calls_rules)

lemma calls_bind_lift:
  assumes "\<And>x. r = Ret x \<Longrightarrow> calls_only P (f x)"
  shows "calls_only P (sbind (lift_out r) f)"
  using assms by (cases r) (auto intro: calls_basic)

lemma calls_bind_parse:
  assumes "\<And>x. ParseConfig fs zero cfg = Ret x \<Longrightarrow> calls_only P (f x)"
  shows "calls_only P (sbind (parse_warn fs zero cfg) f)"
proof (cases "ParseConfig fs zero cfg")
  case (Ret c)
  then have "sbind (parse_warn fs zero cfg) f = f c"
    by (intro ext) (simp add: sbind_def go_simps)
  with assms Ret show ?thesis by simp
next
  case (Err e)
  then show ?thesis by (intro calls_onlyI) (auto simp: sbind_def parse_warn_Err req_emit_def)
next
  case (Panic p)
  then show ?thesis by (intro calls_onlyI) (auto simp: sbind_def parse_warn_def or_warn_def on_err_def lift_out_def)
qed

lemma deferred_call:
  assumes "calls_only (\<lambda>c. fst c \<noteq> f) m" "\<not> no_return (snd (deferred (call0 f args) m w))"
  shows "\<exists>cs. pr_calls (fst (deferred (call0 f args) m w)) = pr_calls w @ cs @ [(f, args)] \<and> (\<forall>c\<in>set cs. fst c \<noteq> f)"
proof -
  obtain w1 r where m: "m w = (w1, r)" by fastforce
  obtain cs where "pr_calls w1 = pr_calls w @ cs" "\<forall>c\<in>set cs. fst c \<noteq> f" using assms(1) m by (rule calls_onlyE)
  moreover have "\<not> no_return r" using assms(2) m by (auto simp: deferred_def)
  ultimately show ?thesis using m
    by (auto simp: deferred_def call0_def lib0_def on_err_def sbind_def lib_def sret_def split: prod.splits outcome.splits)
qed

section \<open>What holds of every config that parses\<close>

lemma obind_Ret_E: "obind m f = Ret y \<Longrightarrow> (\<And>x. m = Ret x \<Longrightarrow> f x = Ret y \<Longrightarrow> thesis) \<Longrightarrow> thesis"
  by (cases m) auto

lemma find_field_in: "find_field fs k = Some put \<Longrightarrow> \<exists>t. (t, put) \<in> set fs"
  by (auto simp: find_field_def find_Some_iff dest!: map_of_SomeD split: option.splits) (metis nth_mem prod.collapse)

lemma decode_obj_keeps:
  assumes "\<And>t put r j r'. (t, put) \<in> set fs \<Longrightarrow> P r \<Longrightarrow> put r j = Some r' \<Longrightarrow> P r'"
  shows "P r \<Longrightarrow> decode_obj fs r kvs = Some r' \<Longrightarrow> P r'"
proof (induction kvs arbitrary: r)
  case (Cons kj kvs)
  obtain k j where kj: "kj = (k, j)" by fastforce
  note 2 = Cons[unfolded kj]
  show ?case
  proof (cases "find_field fs k")
    case None
    with 2 show ?thesis unfolding kj by simp
  next
    case (Some put)
    with 2 obtain r1 where r1: "put r j = Some r1" "decode_obj fs r1 kvs = Some r'" by (auto split: option.splits)
    obtain t where "(t, put) \<in> set fs" using find_field_in[OF Some] by blast
    with assms 2(2) r1 have "P r1" by blast
    with 2(1) r1 show ?thesis by blast
  qed
qed simp

lemma ParseConfig_keeps:
  assumes "ParseConfig fs zero cfg = Ret c" "P zero"
    and "\<And>t put r j r'. (t, put) \<in> set fs \<Longrightarrow> P r \<Longrightarrow> put r j = Some r' \<Longrightarrow> P r'"
  shows "P c"
proof -
  obtain j where "(case decode_struct fs zero j of None \<Rightarrow> Err unmarshal_error | Some s \<Rightarrow> Ret s) = Ret c"
    using assms(1) unfolding ParseConfig_def by (blast elim: obind_Ret_E)
  then have j: "decode_struct fs zero j = Some c" by (cases "decode_struct fs zero j") simp_all
  show ?thesis
  proof (cases "\<exists>kvs. j = JObj kvs")
    case True
    then obtain kvs where d: "decode_obj fs zero kvs = Some c" using j by auto
    show ?thesis by (rule decode_obj_keeps[where P = P, OF _ assms(2) d]) (rule assms(3))
  next
    case False
    then have "c = zero" using j by (cases j) simp_all
    then show ?thesis using assms(2) by simp
  qed
qed

lemma dec_int_range: "dec_int old j = Some v \<Longrightarrow> is_i64 old \<Longrightarrow> is_i64 v"
  by (cases j) (auto split: if_splits)

lemma fld_int_range:
  "fld dec_int sel upd r j = Some r' \<Longrightarrow> \<exists>v. (is_i64 (sel r) \<longrightarrow> is_i64 v) \<and> r' = upd v r"
  by (auto simp: fld_def dest: dec_int_range)

lemma fld_Some: "fld dec sel upd r j = Some r' \<Longrightarrow> \<exists>v. r' = upd v r"
  by (auto simp: fld_def)

lemmas prog_defs = sret_def lift_out_def sbind_def on_err_def deferred_def say_def print_out_def or_warn_def lib_def
  or_log_def lib0_def call0_def warn_only_def env_def time_Now_def change_def

text \<open>A process for evaluations: nothing is configured, and call number \<open>k\<close> is answered by \<open>k\<close>.\<close>

definition idle_process :: process where
  "idle_process = \<lparr>req_log = [], req_ctx_err = None, pr_env = (\<lambda>_. []), pr_answers = (\<lambda>k. Ret (GInt (int k))),
     pr_calls = [], pr_clock = (\<lambda>k. 400 * int k), pr_reads = 0, pr_out = [], pr_dying = None, pr_writer = None,
     pr_locks = [], pr_leaked = [], pr_leaked_size = 0, pr_sql_drivers = [], pr_services = [],
     pr_background = [], pr_started = [], pr_amqp = []\<rparr>"

lemma idle_process_sel [simp]: "pr_answers idle_process = (\<lambda>k. Ret (GInt (int k)))" "pr_calls idle_process = []"
  "pr_clock idle_process = (\<lambda>k. 400 * int k)" "pr_reads idle_process = 0" "pr_env idle_process = (\<lambda>_. [])"
  "req_log idle_process = []" "pr_leaked idle_process = []" "pr_leaked_size idle_process = 0" "pr_writer idle_process = None"
  "pr_locks idle_process = []" "pr_services idle_process = []" "pr_sql_drivers idle_process = []" "pr_out idle_process = []"
  "pr_dying idle_process = None" "req_ctx_err idle_process = None" "pr_background idle_process = []" "pr_started idle_process = []"
  "pr_amqp idle_process = []"
  by (simp_all add: idle_process_def)

lemma honest_idle [simp]: "honest idle_process"
  by (simp add: honest_def unmarshal_error_def marshal_error_def)

text \<open>Rules that parse a config by rewriting.\<close>

lemmas parse_eval = ParseConfig_def find_field_def fld_def fold_case_def sort_key_def

end
