(* ===== verification/BasicActions.thy ===== *)
theory BasicActions
  imports World
begin

text \<open>
  The actions that need nothing but the process: \<^verbatim>\<open>Print\<close>, \<^verbatim>\<open>Burn\<close>, \<^verbatim>\<open>Sleep\<close>, \<^verbatim>\<open>Fibonacci\<close>,
  \<^verbatim>\<open>Panic\<close>, \<^verbatim>\<open>HTTPResponse\<close> and \<^verbatim>\<open>AllocateMemory\<close> (\<^verbatim>\<open>pkg/actions\<close>), each with its config
  struct, its \<^verbatim>\<open>Execute\<close> and its \<^verbatim>\<open>ParseConfig\<close>.
\<close>

section \<open>Print\<close>

record PrintConfig =
  Message :: string

definition print_fields :: "PrintConfig fields" where
  "print_fields = [(''message'', fld dec_string Message (\<lambda>v r. r\<lparr>Message := v\<rparr>))]"

definition print_zero :: PrintConfig where
  "print_zero = \<lparr>Message = []\<rparr>"

definition Print_Execute :: "gmap \<Rightarrow> unit prog" where
  "Print_Execute cfg = sbind (parse_warn print_fields print_zero cfg) (\<lambda>config. print_out (Message config))"

section \<open>Burn and Sleep\<close>

record DurationConfig =
  cfg_duration :: int

definition duration_fields :: "(rat \<Rightarrow> int) \<Rightarrow> DurationConfig fields" where
  "duration_fields oor = [(''duration'', fld (\<lambda>_. dec_duration oor) cfg_duration (\<lambda>v r. r\<lparr>cfg_duration := v\<rparr>))]"

definition duration_zero :: DurationConfig where
  "duration_zero = \<lparr>cfg_duration = 0\<rparr>"

text \<open>The loop spins until a reading of the clock is not before the end.\<close>

definition spin_pass :: "int \<Rightarrow> process \<Rightarrow> (process, process) ctl" where
  "spin_pass finish w =
     (case time_Now w of
        (w', Ret now) \<Rightarrow> if now < finish then Continue w' else Stop w'
      | (w', _) \<Rightarrow> Stop w')"

definition spin_until :: "int \<Rightarrow> unit prog" where
  "spin_until finish w = (case loop (spin_pass finish) w of Some w' \<Rightarrow> (w', Ret ()) | None \<Rightarrow> (w, Panic Blocked))"

definition Burn_Execute :: "(rat \<Rightarrow> int) \<Rightarrow> gmap \<Rightarrow> unit prog" where
  "Burn_Execute oor cfg =
     sbind (parse_warn (duration_fields oor) duration_zero cfg) (\<lambda>config.
     sbind time_Now (\<lambda>now. spin_until (now + cfg_duration config)))"

text \<open>\<^verbatim>\<open>Sleep\<close> waits for the context or the timer, whichever is first, and returns nil either way.\<close>

definition Sleep_Execute :: "(rat \<Rightarrow> int) \<Rightarrow> gmap \<Rightarrow> unit prog" where
  "Sleep_Execute oor cfg =
     sbind (parse_warn (duration_fields oor) duration_zero cfg) (\<lambda>config.
     sbind (lib0 ''select ctx.Done, time.After'' [GInt (cfg_duration config)]) (\<lambda>_. sret ()))"

section \<open>Fibonacci\<close>

record FibonacciConfig =
  cfg_value :: "64 word"

definition fibonacci_fields :: "FibonacciConfig fields" where
  "fibonacci_fields = [(''value'', fld dec_uint64 cfg_value (\<lambda>v r. r\<lparr>cfg_value := v\<rparr>))]"

definition fibonacci_zero :: FibonacciConfig where
  "fibonacci_zero = \<lparr>cfg_value = 0\<rparr>"

lemma fibonacci_smaller:
  fixes n :: "64 word"
  assumes "\<not> n \<le> 1"
  shows "unat (n - 1) = unat n - 1" "unat (n - 2) = unat n - 2" "2 \<le> unat n" "unat (n - 1) < unat n" "unat (n - 2) < unat n"
proof -
  have u: "unat n \<ge> 2" using assms by (simp add: word_le_nat_alt)
  then show "2 \<le> unat n" .
  show a: "unat (n - 1) = unat n - 1" and b: "unat (n - 2) = unat n - 2"
    using u by (simp_all add: unat_sub_if')
  show "unat (n - 1) < unat n" "unat (n - 2) < unat n" using u a b by simp_all
qed

function fibonacci :: "64 word \<Rightarrow> 64 word" where
  "fibonacci n = (if n \<le> 1 then n else fibonacci (n - 1) + fibonacci (n - 2))"
  by auto
termination
  by (relation "measure unat") (auto dest: fibonacci_smaller(4,5))

declare fibonacci.simps [simp del]

definition Fibonacci_Execute :: "gmap \<Rightarrow> unit prog" where
  "Fibonacci_Execute cfg =
     sbind (parse_warn fibonacci_fields fibonacci_zero cfg) (\<lambda>config.
       let result = fibonacci (cfg_value config) in sret ())"

section \<open>Panic\<close>

record PanicConfig =
  cfg_probability :: rat

definition panic_fields :: "PanicConfig fields" where
  "panic_fields = [(''probability'', fld dec_float cfg_probability (\<lambda>v r. r\<lparr>cfg_probability := v\<rparr>))]"

definition panic_zero :: PanicConfig where
  "panic_zero = \<lparr>cfg_probability = 0\<rparr>"

text \<open>The panic is raised in a goroutine of its own: the action returns and the process dies.\<close>

definition Panic_Execute :: "gmap \<Rightarrow> unit prog" where
  "Panic_Execute cfg =
     sbind (parse_warn panic_fields panic_zero cfg) (\<lambda>config.
       if cfg_probability config > 0 then
         sbind (lib0 ''rand.Float64'' []) (\<lambda>v.
           if as_float v < cfg_probability config
           then change (\<lambda>w. w\<lparr>pr_dying := Some ''Failed to execute action''\<rparr>) else sret ())
       else sret ())"

section \<open>HTTPResponse\<close>

record HTTPResponseConfig =
  cfg_statusCode :: int

definition response_fields :: "HTTPResponseConfig fields" where
  "response_fields = [(''statusCode'', fld dec_int cfg_statusCode (\<lambda>v r. r\<lparr>cfg_statusCode := v\<rparr>))]"

definition response_zero :: HTTPResponseConfig where
  "response_zero = \<lparr>cfg_statusCode = 0\<rparr>"

text \<open>
  \<^verbatim>\<open>ResponseWriter.WriteHeader\<close>: the first final status stands and later ones are ignored; a
  code outside 100..999 panics; an informational code other than 101 is sent at once and sets
  nothing.
\<close>

definition WriteHeader :: "int \<Rightarrow> response \<Rightarrow> response outcome" where
  "WriteHeader code rs =
     (if rs_status rs \<noteq> None then Ret rs
      else if code < 100 \<or> code > 999 then Panic (InvalidStatusCode code)
      else if code \<le> 199 \<and> code \<noteq> 101 then Ret rs
      else Ret (rs\<lparr>rs_status := Some code\<rparr>))"

definition body_allowed :: "int \<Rightarrow> bool" where
  "body_allowed code \<longleftrightarrow> \<not> (100 \<le> code \<and> code \<le> 199) \<and> code \<noteq> 204 \<and> code \<noteq> 304"

text \<open>\<^verbatim>\<open>ResponseWriter.Write\<close>, whose error the code ignores: the status becomes 200 when there is none.\<close>

definition Write :: "string \<Rightarrow> response \<Rightarrow> response" where
  "Write s rs =
     (let rs1 = (if rs_status rs = None then rs\<lparr>rs_status := Some 200\<rparr> else rs) in
      if body_allowed (the (rs_status rs1)) then rs1\<lparr>rs_body := rs_body rs1 @ s\<rparr> else rs1)"

definition HTTPResponse_Execute :: "gmap \<Rightarrow> unit prog" where
  "HTTPResponse_Execute cfg =
     sbind (parse_warn response_fields response_zero cfg) (\<lambda>config.
     sbind (env pr_writer) (\<lambda>val.
       case val of
         None \<Rightarrow> lift_out (Panic (UserPanic ''http.ResponseWriter not found in context''))
       | Some rs \<Rightarrow> sbind (lift_out (WriteHeader (cfg_statusCode config) rs)) (\<lambda>rs'. change (\<lambda>w. w\<lparr>pr_writer := Some rs'\<rparr>))))"

section \<open>AllocateMemory\<close>

record AllocateMemoryConfig =
  SizeBytes :: int
  NumAllocations :: int
  Leak :: bool
  LeakLimitBytes :: int

definition allocate_fields :: "AllocateMemoryConfig fields" where
  "allocate_fields =
     [(''sizeBytes'', fld dec_int SizeBytes (\<lambda>v r. r\<lparr>SizeBytes := v\<rparr>)),
      (''numAllocations'', fld dec_int NumAllocations (\<lambda>v r. r\<lparr>NumAllocations := v\<rparr>)),
      (''leak'', fld dec_bool Leak (\<lambda>v r. r\<lparr>Leak := v\<rparr>)),
      (''leakLimitBytes'', fld dec_int LeakLimitBytes (\<lambda>v r. r\<lparr>LeakLimitBytes := v\<rparr>))]"

definition allocate_zero :: AllocateMemoryConfig where
  "allocate_zero = \<lparr>SizeBytes = 0, NumAllocations = 0, Leak = False, LeakLimitBytes = 0\<rparr>"

text \<open>A block of memory is its length.\<close>

definition make_blocks :: "int \<Rightarrow> int \<Rightarrow> int list outcome" where
  "make_blocks held num =
     (if num \<le> 0 then Ret [] else obind (make_slice held) (\<lambda>d. Ret (replicate (nat num) d)))"

fun leak_loop :: "int \<Rightarrow> int list \<Rightarrow> int list \<Rightarrow> int \<Rightarrow> int list \<times> int" where
  "leak_loop limit [] leaked held = (leaked, held)"
| "leak_loop limit (d # data) leaked held =
     (if limit > 0 \<and> held > limit then (leaked, held)
      else leak_loop limit data (leaked @ [d]) (i64 (held + d)))"

definition leak_memory :: "AllocateMemoryConfig \<Rightarrow> int list \<Rightarrow> process \<Rightarrow> process" where
  "leak_memory config data w =
     (if \<not> Leak config then w
      else case leak_loop (LeakLimitBytes config) data (pr_leaked w) (pr_leaked_size w) of
        (leaked, held) \<Rightarrow> w\<lparr>pr_leaked := leaked, pr_leaked_size := held\<rparr>)"

text \<open>The one action that does not log a config it cannot parse.\<close>

definition AllocateMemory_Execute :: "gmap \<Rightarrow> unit prog" where
  "AllocateMemory_Execute cfg =
     sbind (lift_out (ParseConfig allocate_fields allocate_zero cfg)) (\<lambda>config.
     sbind (lift_out (make_blocks (SizeBytes config) (NumAllocations config))) (\<lambda>data.
       change (leak_memory config data)))"

section \<open>No action fails for a config that parses\<close>

lemma Print_clean: "parse_only print_fields print_zero cfg = Ret () \<Longrightarrow> clean (Print_Execute cfg)"
  unfolding Print_Execute_def by (intro clean_rules)

lemma spin_pass_keeps:
  "honest w \<Longrightarrow> case spin_pass finish w of Continue w' \<Rightarrow> honest w' | Stop w' \<Rightarrow> honest w'"
  by (simp add: spin_pass_def time_Now_def honest_def)

lemma spin_until_clean [clean_rules, intro]: "clean (spin_until finish)"
proof (rule cleanI)
  fix w w' r assume "honest w" "spin_until finish w = (w', r)"
  then show "honest w' \<and> r \<noteq> Err unmarshal_error \<and> r \<noteq> Err marshal_error"
    using loop_keeps[where P = honest and Q = honest and body = "spin_pass finish", OF _ _ spin_pass_keeps]
    by (auto simp: spin_until_def split: option.splits)
qed

lemma Burn_clean: "parse_only (duration_fields oor) duration_zero cfg = Ret () \<Longrightarrow> clean (Burn_Execute oor cfg)"
  unfolding Burn_Execute_def by (intro clean_rules)

lemma Sleep_clean: "parse_only (duration_fields oor) duration_zero cfg = Ret () \<Longrightarrow> clean (Sleep_Execute oor cfg)"
  unfolding Sleep_Execute_def by (intro clean_rules)

lemma Fibonacci_clean: "parse_only fibonacci_fields fibonacci_zero cfg = Ret () \<Longrightarrow> clean (Fibonacci_Execute cfg)"
  unfolding Fibonacci_Execute_def Let_def by (intro clean_rules)

lemma Panic_clean: "parse_only panic_fields panic_zero cfg = Ret () \<Longrightarrow> clean (Panic_Execute cfg)"
  unfolding Panic_Execute_def by (intro clean_rules; simp)

lemma WriteHeader_not_Err [simp]: "WriteHeader code rs \<noteq> Err e"
  by (simp add: WriteHeader_def)

lemma HTTPResponse_clean: "parse_only response_fields response_zero cfg = Ret () \<Longrightarrow> clean (HTTPResponse_Execute cfg)"
  unfolding HTTPResponse_Execute_def by (auto intro!: clean_rules split: option.split)

lemma make_blocks_not_Err [simp]: "make_blocks len num \<noteq> Err e"
  by (auto simp: make_blocks_def go_simps)

lemma AllocateMemory_clean: "parse_only allocate_fields allocate_zero cfg = Ret () \<Longrightarrow> clean (AllocateMemory_Execute cfg)"
  unfolding AllocateMemory_Execute_def parse_only_def
  by (auto simp: go_simps leak_memory_def intro!: clean_rules split: prod.split)

section \<open>The loop of Burn\<close>

lemma spin_pass_eq:
  "spin_pass finish w = (let w' = w\<lparr>pr_reads := Suc (pr_reads w)\<rparr> in
     if pr_clock w (pr_reads w) < finish then Continue w' else Stop w')"
  by (simp add: spin_pass_def time_Now_def Let_def)

lemma calls_spin_until [calls_rules]: "calls_only P (spin_until finish)"
proof (rule calls_onlyI)
  fix w
  show "pr_answers (fst (spin_until finish w)) = pr_answers w
    \<and> (\<exists>cs. pr_calls (fst (spin_until finish w)) = pr_calls w @ cs \<and> (\<forall>c\<in>set cs. P c))"
  proof (cases "loop (spin_pass finish) w")
    case (Some w')
    have "pr_calls w' = pr_calls w \<and> pr_answers w' = pr_answers w"
      by (rule loop_keeps[where P = "\<lambda>v. pr_calls v = pr_calls w \<and> pr_answers v = pr_answers w", OF Some]) (simp_all add: spin_pass_eq Let_def)
    with Some show ?thesis by (simp add: spin_until_def)
  qed (simp add: spin_until_def)
qed

lemma spin_stops:
  "\<forall>i<n. pr_clock w (pr_reads w + i) < finish \<Longrightarrow> finish \<le> pr_clock w (pr_reads w + n) \<Longrightarrow>
   loop (spin_pass finish) w = Some (w\<lparr>pr_reads := pr_reads w + Suc n\<rparr>)"
proof (induction n arbitrary: w)
  case 0
  then show ?case by (intro loop_Stop) (simp add: spin_pass_eq)
next
  case (Suc n)
  then have "spin_pass finish w = Continue (w\<lparr>pr_reads := Suc (pr_reads w)\<rparr>)"
    by (auto simp: spin_pass_eq Let_def dest: spec[of _ 0])
  moreover have "\<forall>i<n. pr_clock w (Suc (pr_reads w + i)) < finish"
    using Suc.prems(1) by (metis Suc_mono add_Suc_right)
  ultimately show ?case using Suc.IH[of "w\<lparr>pr_reads := Suc (pr_reads w)\<rparr>"] Suc.prems(2) by (simp add: loop_Continue)
qed

text \<open>
  C35. \<^verbatim>\<open>Burn\<close> returns as soon as the clock lets it: if some reading reaches the start plus the
  configured duration, the action ends with the first such reading, successfully, having only
  read the clock.
\<close>

theorem burn_returns:
  assumes "ParseConfig (duration_fields oor) duration_zero cfg = Ret c"
    and "pr_clock w (pr_reads w) + cfg_duration c \<le> pr_clock w (pr_reads w + 1 + m)"
  shows "\<exists>n\<le>m. Burn_Execute oor cfg w = (w\<lparr>pr_reads := pr_reads w + n + 2\<rparr>, Ret ())
    \<and> pr_clock w (pr_reads w) + cfg_duration c \<le> pr_clock w (pr_reads w + 1 + n)
    \<and> (\<forall>i<n. pr_clock w (pr_reads w + 1 + i) < pr_clock w (pr_reads w) + cfg_duration c)"
proof -
  let ?finish = "pr_clock w (pr_reads w) + cfg_duration c"
  define n where "n = (LEAST n. ?finish \<le> pr_clock w (pr_reads w + 1 + n))"
  have n: "?finish \<le> pr_clock w (pr_reads w + 1 + n)" "n \<le> m"
    unfolding n_def using assms(2) by (rule LeastI, intro Least_le)
  have least: "\<forall>i<n. pr_clock w (pr_reads w + 1 + i) < ?finish"
    unfolding n_def using not_less_Least by force
  have "loop (spin_pass ?finish) (w\<lparr>pr_reads := Suc (pr_reads w)\<rparr>) = Some (w\<lparr>pr_reads := pr_reads w + n + 2\<rparr>)"
    using spin_stops[of n "w\<lparr>pr_reads := Suc (pr_reads w)\<rparr>" ?finish] n least by simp
  then have "Burn_Execute oor cfg w = (w\<lparr>pr_reads := pr_reads w + n + 2\<rparr>, Ret ())"
    using assms(1) by (simp add: Burn_Execute_def sbind_def go_simps time_Now_def spin_until_def)
  with n least show ?thesis by blast
qed

theorem burn_returns_witness:
  "Burn_Execute (\<lambda>_. 0) [(''duration'', GInt 1000)] idle_process = (idle_process\<lparr>pr_reads := 4\<rparr>, Ret ())"
proof -
  have p: "ParseConfig (duration_fields (\<lambda>_. 0)) duration_zero [(''duration'', GInt 1000)] = Ret \<lparr>cfg_duration = 1000\<rparr>"
    by (simp add: parse_eval duration_fields_def duration_zero_def dec_duration_def Duration_UnmarshalJSON_def trunc_rat_def is_i64_def)
  obtain n where "n \<le> 2" "Burn_Execute (\<lambda>_. 0) [(''duration'', GInt 1000)] idle_process = (idle_process\<lparr>pr_reads := n + 2\<rparr>, Ret ())"
    "1000 \<le> 400 * (1 + int n)"
    using burn_returns[OF p, of idle_process 2] by auto
  then show ?thesis by (cases "n = 2") auto
qed

section \<open>Fibonacci against its recurrence read forwards\<close>

fun fib_iter :: "nat \<Rightarrow> 64 word \<Rightarrow> 64 word \<Rightarrow> 64 word" where
  "fib_iter 0 a b = a"
| "fib_iter (Suc n) a b = fib_iter n b (a + b)"

lemma fib_iter_Suc_Suc: "fib_iter (Suc (Suc n)) a b = fib_iter (Suc n) a b + fib_iter n a b"
proof (induction n arbitrary: a b)
  case (Suc n)
  have "fib_iter (Suc (Suc (Suc n))) a b = fib_iter (Suc (Suc n)) b (a + b)" by (rule fib_iter.simps(2))
  also have "\<dots> = fib_iter (Suc n) b (a + b) + fib_iter n b (a + b)" by (rule Suc)
  also have "\<dots> = fib_iter (Suc (Suc n)) a b + fib_iter (Suc n) a b"
    by (simp only: fib_iter.simps(2)[of "Suc n" a b] fib_iter.simps(2)[of n a b])
  finally show ?case .
qed (simp add: add.commute)

text \<open>
  The doubly recursive \<^verbatim>\<open>fibonacci\<close> terminates on every \<^verbatim>\<open>uint64\<close> and computes, modulo
  2^64, the value that the linear loop over the recurrence computes.
\<close>

theorem fibonacci_reference: "fibonacci n = fib_iter (unat n) 0 1"
proof (induction n rule: fibonacci.induct)
  case (1 n)
  show ?case
  proof (cases "n \<le> 1")
    case True
    then have "unat n = 0 \<or> unat n = unat (1 :: 64 word)" by (auto simp: word_le_nat_alt)
    then have "n = 0 \<or> n = 1" by (simp only: unat_eq_zero word_unat_eq_iff[symmetric])
    then show ?thesis using True fibonacci.simps[of n] by auto
  next
    case False
    note small = fibonacci_smaller[OF False]
    obtain k where k: "unat n = Suc (Suc k)" using small(3) by (metis add_2_eq_Suc le_Suc_ex)
    have "fibonacci n = fib_iter (Suc k) 0 1 + fib_iter k 0 1"
      using 1[OF False] False small(1,2) k by (simp add: fibonacci.simps[of n])
    then show ?thesis unfolding k by (simp only: fib_iter_Suc_Suc)
  qed
qed

section \<open>Leaked memory\<close>

lemma leak_loop_bound:
  assumes "0 < limit" "limit + len < 9223372036854775808" "0 \<le> len" "0 \<le> held" "\<forall>d\<in>set data. d = len"
    and "held < 9223372036854775808" "leak_loop limit data leaked held = (leaked', held')"
  shows "\<exists>k\<le>length data. leaked' = leaked @ replicate k len \<and> held' = held + int k * len
    \<and> 0 \<le> held' \<and> held' \<le> max held (limit + len)"
  using assms
proof (induction limit data leaked held rule: leak_loop.induct)
  case (2 limit d data leaked held)
  show ?case
  proof (cases "held > limit")
    case False
    then have "is_i64 (held + d)" using 2 by (auto simp: is_i64_def)
    then have "\<exists>k\<le>length data. leaked' = (leaked @ [d]) @ replicate k len \<and> held' = held + d + int k * len
        \<and> 0 \<le> held' \<and> held' \<le> max (held + d) (limit + len)"
      using 2 False by auto
    then obtain k where k: "k \<le> length data" "leaked' = (leaked @ [d]) @ replicate k len" "held' = held + d + int k * len"
        "0 \<le> held'" "held' \<le> max (held + d) (limit + len)" by blast
    with 2(6) False 2(5) show ?thesis
      by (intro exI[of _ "Suc k"]) (auto simp: algebra_simps)
  next
    case True
    with 2 show ?thesis by (intro exI[of _ 0]) auto
  qed
qed auto

lemma allocate_ranges:
  assumes "ParseConfig allocate_fields allocate_zero cfg = Ret c"
  shows "is_i64 (SizeBytes c) \<and> is_i64 (NumAllocations c) \<and> is_i64 (LeakLimitBytes c)"
  by (rule ParseConfig_keeps[OF assms])
    (auto simp: allocate_fields_def allocate_zero_def is_i64_def[of 0] dest!: fld_int_range fld_Some[where dec = dec_bool])

lemma make_blocks_Ret:
  "make_blocks len num = Ret data \<longleftrightarrow> data = replicate (nat num) len \<and> (num \<le> 0 \<or> (0 \<le> len \<and> len \<le> max_alloc))"
  by (auto simp: make_blocks_def make_slice_def)

text \<open>
  C34. A leaking \<^verbatim>\<open>AllocateMemory\<close> with a limit keeps its books: the recorded size stays the sum
  of the leaked blocks, only whole blocks of this request are added, at most as many as asked
  for, and the total overshoots the limit by no more than one block, however often it runs.
\<close>

theorem leak_stays_near_limit:
  assumes "ParseConfig allocate_fields allocate_zero cfg = Ret c"
    and "Leak c" "0 < LeakLimitBytes c" "LeakLimitBytes c + SizeBytes c < 9223372036854775808"
    and "pr_leaked_size w = sum_list (pr_leaked w)" "0 \<le> pr_leaked_size w"
    and "pr_leaked_size w \<le> LeakLimitBytes c + SizeBytes c"
    and "AllocateMemory_Execute cfg w = (w', Ret ())"
  shows "pr_leaked_size w' = sum_list (pr_leaked w') \<and> 0 \<le> pr_leaked_size w'
    \<and> pr_leaked_size w' \<le> LeakLimitBytes c + SizeBytes c
    \<and> (\<exists>k\<le>nat (NumAllocations c). pr_leaked w' = pr_leaked w @ replicate k (SizeBytes c))"
proof -
  obtain data where data: "make_blocks (SizeBytes c) (NumAllocations c) = Ret data" "w' = leak_memory c data w"
    using assms(1,8) by (cases "make_blocks (SizeBytes c) (NumAllocations c)")
      (auto simp: AllocateMemory_Execute_def change_def lift_out_def)
  show ?thesis
  proof (cases "NumAllocations c \<le> 0")
    case True
    with data assms show ?thesis by (auto simp: make_blocks_def leak_memory_def)
  next
    case False
    then have len: "0 \<le> SizeBytes c" "\<forall>d\<in>set data. d = SizeBytes c" "length data = nat (NumAllocations c)"
      using data(1) by (auto simp: make_blocks_Ret)
    obtain leaked held where l: "leak_loop (LeakLimitBytes c) data (pr_leaked w) (pr_leaked_size w) = (leaked, held)" by fastforce
    have "\<exists>k\<le>length data. leaked = pr_leaked w @ replicate k (SizeBytes c) \<and> held = pr_leaked_size w + int k * SizeBytes c
        \<and> 0 \<le> held \<and> held \<le> max (pr_leaked_size w) (LeakLimitBytes c + SizeBytes c)"
      by (rule leak_loop_bound[OF assms(3,4) len(1) assms(6) len(2) _ l]) (use assms in linarith)
    then show ?thesis
      using l data(2) assms(2,5,7) len(3) by (auto simp: leak_memory_def sum_list_replicate)
  qed
qed

theorem leak_stays_near_limit_witness:
  "\<exists>w'. AllocateMemory_Execute [(''sizeBytes'', GInt 60), (''numAllocations'', GInt 5), (''leak'', GBool True),
      (''leakLimitBytes'', GInt 100)] idle_process = (w', Ret ())
    \<and> pr_leaked w' = [60, 60] \<and> pr_leaked_size w' \<le> 160"
proof -
  let ?cfg = "[(''sizeBytes'', GInt 60), (''numAllocations'', GInt 5), (''leak'', GBool True), (''leakLimitBytes'', GInt 100)]"
  let ?c = "\<lparr>SizeBytes = 60, NumAllocations = 5, Leak = True, LeakLimitBytes = 100\<rparr>"
  have p: "ParseConfig allocate_fields allocate_zero ?cfg = Ret ?c"
    by (simp add: parse_eval allocate_fields_def allocate_zero_def is_i64_def)
  have e: "AllocateMemory_Execute ?cfg idle_process = (idle_process\<lparr>pr_leaked := [60, 60], pr_leaked_size := 120\<rparr>, Ret ())"
    using p by (simp add: AllocateMemory_Execute_def make_blocks_def make_slice_def max_alloc_def change_def leak_memory_def
        eval_nat_numeral i64_def)
  show ?thesis using leak_stays_near_limit[OF p _ _ _ _ _ _ e] e by simp
qed

end
