(* ===== verification/FileActions.thy ===== *)
theory FileActions
  imports World
begin

text \<open>
  The two actions that load the disk: \<^verbatim>\<open>CreateFile\<close> and \<^verbatim>\<open>RandomIO\<close> (\<^verbatim>\<open>pkg/actions\<close>). The file
  system and the generator of random numbers are library calls.
\<close>

section \<open>CreateFile\<close>

record CreateFileConfig =
  cf_Directory :: string
  cf_Size :: int
  cf_Delete :: bool

definition create_file_fields :: "CreateFileConfig fields" where
  "create_file_fields =
     [(''directory'', fld dec_string cf_Directory (\<lambda>v r. r\<lparr>cf_Directory := v\<rparr>)),
      (''size'', fld dec_int cf_Size (\<lambda>v r. r\<lparr>cf_Size := v\<rparr>)),
      (''delete'', fld dec_bool cf_Delete (\<lambda>v r. r\<lparr>cf_Delete := v\<rparr>))]"

definition create_file_zero :: CreateFileConfig where
  "create_file_zero = \<lparr>cf_Directory = [], cf_Size = 0, cf_Delete = False\<rparr>"

definition remove_file :: "bool \<Rightarrow> string \<Rightarrow> unit prog" where
  "remove_file delete filename =
     (if delete then sbind (or_warn ''failed to delete file'' (lib ''os.Remove'' [GStr filename])) (\<lambda>_. sret ())
      else sret ())"

definition CreateFile_Execute :: "gmap \<Rightarrow> unit prog" where
  "CreateFile_Execute cfg =
     sbind (parse_warn create_file_fields create_file_zero cfg) (\<lambda>config.
     sbind (lib0 ''uuid.NewString'' []) (\<lambda>id.
       let filename = cf_Directory config @ ''/'' @ as_string id in
     sbind (or_warn ''failed to create file'' (lib ''os.Create'' [GStr filename])) (\<lambda>f.
     deferred (call0 ''File.Close'' [f])
       (sbind (lift_out (make_slice (cf_Size config))) (\<lambda>n.
        sbind (or_warn ''failed to write to file'' (lib ''File.Write'' [f, GInt n])) (\<lambda>_.
        sbind (or_warn ''failed to sync file'' (lib ''File.Sync'' [f])) (\<lambda>_.
        remove_file (cf_Delete config) filename)))))))"

section \<open>RandomIO\<close>

text \<open>\<^verbatim>\<open>float32\<close>: to nearest, ties to even, 24 bits.\<close>

definition f32_exponent :: "rat \<Rightarrow> int" where
  "f32_exponent q =
     (let (a, b) = quotient_of \<bar>q\<bar>; e = int (bitlen (nat a)) - int (bitlen (nat b)) - 24 in
      max (- 149) (if 2 ^ 24 \<le> \<bar>q\<bar> / pow2 e then e + 1 else e))"

definition f32 :: "rat \<Rightarrow> rat" where
  "f32 q = (if q = 0 then 0
     else sgn q * of_int (round_even (\<bar>q\<bar> / pow2 (f32_exponent q))) * pow2 (f32_exponent q))"

definition max_f32 :: rat where
  "max_f32 = (2 ^ 24 - 1) * 2 ^ 104"

fun dec_float32 :: "rat \<Rightarrow> json \<Rightarrow> rat option" where
  "dec_float32 old (JNum q) = (if \<bar>f32 q\<bar> \<le> max_f32 then Some (f32 q) else None)"
| "dec_float32 old JNull = Some old"
| "dec_float32 old _ = None"

record RandomIOConfig =
  io_Directory :: string
  io_Delete :: bool
  FileSize :: int
  BlockSize :: int
  IoCount :: int
  ReadPercentage :: rat

definition random_io_fields :: "RandomIOConfig fields" where
  "random_io_fields =
     [(''directory'', fld dec_string io_Directory (\<lambda>v r. r\<lparr>io_Directory := v\<rparr>)),
      (''delete'', fld dec_bool io_Delete (\<lambda>v r. r\<lparr>io_Delete := v\<rparr>)),
      (''file_size'', fld dec_int FileSize (\<lambda>v r. r\<lparr>FileSize := v\<rparr>)),
      (''block_size'', fld dec_int BlockSize (\<lambda>v r. r\<lparr>BlockSize := v\<rparr>)),
      (''io_count'', fld dec_int IoCount (\<lambda>v r. r\<lparr>IoCount := v\<rparr>)),
      (''read_percentage'', fld dec_float32 ReadPercentage (\<lambda>v r. r\<lparr>ReadPercentage := v\<rparr>))]"

definition random_io_zero :: RandomIOConfig where
  "random_io_zero = \<lparr>io_Directory = [], io_Delete = False, FileSize = 0, BlockSize = 0, IoCount = 0, ReadPercentage = 0\<rparr>"

text \<open>\<^verbatim>\<open>rand.Int63n(n)\<close> panics unless \<open>n\<close> is positive and draws a number below it, whatever the source gives.\<close>

definition Int63n :: "int \<Rightarrow> int prog" where
  "Int63n n =
     (if n \<le> 0 then lift_out (Panic InvalidArgument)
      else sbind (lib0 ''rand.Int63n'' [GInt n]) (\<lambda>v. sret (as_int v mod n)))"

definition io_pass :: "RandomIOConfig \<Rightarrow> gval \<Rightarrow> unit prog" where
  "io_pass config f =
     sbind (lift_out (go_div (FileSize config) (BlockSize config))) (\<lambda>n.
     sbind (Int63n n) (\<lambda>k.
       let offset = i64 (k * BlockSize config) in
     sbind (lib0 ''rand.Float32'' []) (\<lambda>v.
       if as_float v < ReadPercentage config then
         sbind (warn_only Warn ''failed to read from file'' (lib ''File.ReadAt'' [f, GInt (BlockSize config), GInt offset])) (\<lambda>_. sret ())
       else
         sbind (warn_only Warn ''failed to write to file'' (lib ''File.WriteAt'' [f, GInt (BlockSize config), GInt offset])) (\<lambda>_. sret ()))))"

definition RandomIO_Execute :: "gmap \<Rightarrow> unit prog" where
  "RandomIO_Execute cfg =
     sbind (parse_warn random_io_fields random_io_zero cfg) (\<lambda>config.
     sbind (lib0 ''uuid.NewString'' []) (\<lambda>id.
       let filename = io_Directory config @ ''/'' @ as_string id in
     sbind (or_warn ''failed to create file'' (lib ''os.Create'' [GStr filename])) (\<lambda>f.
     deferred (call0 ''File.Close'' [f])
       (sbind (or_warn ''failed to truncate file'' (lib ''File.Truncate'' [f, GInt (FileSize config)])) (\<lambda>_.
        sbind (lift_out (make_slice (BlockSize config))) (\<lambda>buffer.
        sbind (repeat_times (nat (IoCount config)) (io_pass config f)) (\<lambda>_.
        sbind (or_warn ''failed to sync file'' (lib ''File.Sync'' [f])) (\<lambda>_.
        remove_file (io_Delete config) filename))))))))"

lemma clean_remove_file [clean_rules, intro]: "clean (remove_file d f)"
  by (auto simp: remove_file_def)

lemma CreateFile_clean: "parse_only create_file_fields create_file_zero cfg = Ret () \<Longrightarrow> clean (CreateFile_Execute cfg)"
  unfolding CreateFile_Execute_def Let_def by (intro clean_rules)

lemma go_div_not_Err [simp]: "go_div a b \<noteq> Err e"
  by (simp add: go_div_def)

lemma clean_io_pass: "clean (io_pass config f)"
  unfolding io_pass_def Int63n_def Let_def by (auto intro!: clean_rules)

lemma RandomIO_clean: "parse_only random_io_fields random_io_zero cfg = Ret () \<Longrightarrow> clean (RandomIO_Execute cfg)"
  unfolding RandomIO_Execute_def Let_def by (intro clean_rules clean_io_pass)

section \<open>Files are closed, and offsets stay in the file\<close>

lemma offset_in_file:
  assumes "go_div fs bs = Ret n" "0 \<le> bs" "0 < n" "is_i64 fs" "0 \<le> k" "k < n"
  shows "0 \<le> i64 (k * bs) \<and> bs dvd i64 (k * bs) \<and> i64 (k * bs) + bs \<le> fs"
proof -
  have b: "0 < bs" using assms by (cases "bs = 0") (auto simp: go_div_def)
  have f: "0 \<le> fs"
  proof (rule ccontr)
    assume neg: "\<not> 0 \<le> fs"
    then have "n = i64 (- (\<bar>fs\<bar> div bs))" using assms b by (simp add: go_div_def)
    moreover have "is_i64 (- (\<bar>fs\<bar> div bs))"
    proof -
      have "0 \<le> \<bar>fs\<bar> div bs" "\<bar>fs\<bar> div bs \<le> \<bar>fs\<bar>" using b zdiv_mono2[of "\<bar>fs\<bar>" 1 bs]
        by (auto simp: pos_imp_zdiv_nonneg_iff)
      then show ?thesis using assms(4) neg by (auto simp: is_i64_def)
    qed
    ultimately have "n \<le> 0" using b by (simp add: pos_imp_zdiv_nonneg_iff)
    with assms show False by simp
  qed
  then have n: "n = fs div bs" using go_div_pos assms b by auto
  have "k * bs + bs = (k + 1) * bs" by (simp add: algebra_simps)
  also have "\<dots> \<le> n * bs" using assms b by (intro mult_right_mono) auto
  also have "\<dots> \<le> fs" unfolding n using b by (metis minus_mod_eq_div_mult le_add_same_cancel1 diff_le_eq pos_mod_sign)
  finally have le: "k * bs + bs \<le> fs" .
  moreover have "0 \<le> k * bs" using assms b by simp
  ultimately have "is_i64 (k * bs)" using assms(4) b by (auto simp: is_i64_def)
  with le \<open>0 \<le> k * bs\<close> show ?thesis by simp
qed

definition in_file :: "RandomIOConfig \<Rightarrow> string \<times> gval list \<Rightarrow> bool" where
  "in_file c call \<longleftrightarrow> fst call \<in> {''File.ReadAt'', ''File.WriteAt''} \<longrightarrow>
     (\<exists>f off. snd call = [f, GInt (BlockSize c), GInt off] \<and> 0 \<le> off \<and> BlockSize c dvd off \<and> off + BlockSize c \<le> FileSize c)"


lemma calls_io_pass:
  assumes "0 \<le> BlockSize c" "is_i64 (FileSize c)"
  shows "calls_only (in_file c) (io_pass c f)"
  unfolding io_pass_def
proof (rule calls_bind_lift)
  fix n assume n: "go_div (FileSize c) (BlockSize c) = Ret n"
  show "calls_only (in_file c) (sbind (Int63n n) (\<lambda>k.
       let offset = i64 (k * BlockSize c) in
     sbind (lib0 ''rand.Float32'' []) (\<lambda>v.
       if as_float v < ReadPercentage c then
         sbind (warn_only Warn ''failed to read from file'' (lib ''File.ReadAt'' [f, GInt (BlockSize c), GInt offset])) (\<lambda>_. sret ())
       else
         sbind (warn_only Warn ''failed to write to file'' (lib ''File.WriteAt'' [f, GInt (BlockSize c), GInt offset])) (\<lambda>_. sret ()))))"
  proof (cases "n \<le> 0")
    case True
    then show ?thesis by (simp add: Int63n_def calls_basic)
  next
    case False
    have o: "0 \<le> i64 (as_int v mod n * BlockSize c) \<and> BlockSize c dvd i64 (as_int v mod n * BlockSize c)
        \<and> i64 (as_int v mod n * BlockSize c) + BlockSize c \<le> FileSize c" for v
      using offset_in_file[OF n assms(1) _ assms(2)] False by simp
    show ?thesis
      using False by (simp add: Int63n_def Let_def) (intro calls_rules; simp add: in_file_def o)
  qed
qed

definition closes :: "string \<times> gval list \<Rightarrow> bool" where
  "closes call \<longleftrightarrow> fst call = ''File.Close''"

lemma random_io_ranges:
  assumes "ParseConfig random_io_fields random_io_zero cfg = Ret c"
  shows "is_i64 (FileSize c) \<and> is_i64 (BlockSize c) \<and> is_i64 (IoCount c)"
  by (rule ParseConfig_keeps[OF assms])
    (auto simp: random_io_zero_def random_io_fields_def is_i64_def[of 0] dest!: fld_int_range
      fld_Some[where dec = dec_string] fld_Some[where dec = dec_bool] fld_Some[where dec = dec_float32])

lemma calls_random_io:
  assumes "ParseConfig random_io_fields random_io_zero cfg = Ret c"
  shows "calls_only (in_file c) (RandomIO_Execute cfg)"
  unfolding RandomIO_Execute_def remove_file_def Let_def
proof (rule calls_bind_parse)
  fix c' assume "ParseConfig random_io_fields random_io_zero cfg = Ret c'"
  with assms have c: "c' = c" by simp
  have body: "calls_only (in_file c) (sbind (lift_out (make_slice (BlockSize c))) (\<lambda>buffer.
      sbind (repeat_times (nat (IoCount c)) (io_pass c f)) g))" if "\<And>x. calls_only (in_file c) (g x)" for f g
  proof (rule calls_bind_lift)
    fix n assume "make_slice (BlockSize c) = Ret n"
    then have "0 \<le> BlockSize c" by (auto simp: make_slice_def split: if_splits)
    with random_io_ranges[OF assms] show "calls_only (in_file c) (sbind (repeat_times (nat (IoCount c)) (io_pass c f)) g)"
      by (intro calls_rules calls_io_pass that) auto
  qed
  show "calls_only (in_file c) (sbind (lib0 ''uuid.NewString'' []) (\<lambda>id.
     sbind (or_warn ''failed to create file'' (lib ''os.Create'' [GStr (io_Directory c' @ ''/'' @ as_string id)])) (\<lambda>f.
     deferred (call0 ''File.Close'' [f])
       (sbind (or_warn ''failed to truncate file'' (lib ''File.Truncate'' [f, GInt (FileSize c')])) (\<lambda>_.
        sbind (lift_out (make_slice (BlockSize c'))) (\<lambda>buffer.
        sbind (repeat_times (nat (IoCount c')) (io_pass c' f)) (\<lambda>_.
        sbind (or_warn ''failed to sync file'' (lib ''File.Sync'' [f])) (\<lambda>_.
        if io_Delete c' then sbind (or_warn ''failed to delete file''
          (lib ''os.Remove'' [GStr (io_Directory c' @ ''/'' @ as_string id)])) (\<lambda>_. sret ()) else sret ()))))))))"
    unfolding c by (intro calls_rules body; simp add: in_file_def)
qed

text \<open>
  C36. \<^verbatim>\<open>RandomIO\<close> stays inside its file: whatever the random numbers and however the action ends,
  every read and write it issues covers one block, at an offset that is a multiple of the block
  size, and ends at or before the file size; no offset overflows.
\<close>

theorem random_io_in_bounds:
  assumes "ParseConfig random_io_fields random_io_zero cfg = Ret c"
  shows "\<exists>cs. pr_calls (fst (RandomIO_Execute cfg w)) = pr_calls w @ cs \<and>
    (\<forall>(f, args)\<in>set cs. f \<in> {''File.ReadAt'', ''File.WriteAt''} \<longrightarrow>
       (\<exists>h off. args = [h, GInt (BlockSize c), GInt off] \<and> 0 \<le> off \<and> BlockSize c dvd off \<and> off + BlockSize c \<le> FileSize c))"
proof -
  obtain cs where "pr_calls (fst (RandomIO_Execute cfg w)) = pr_calls w @ cs" "\<forall>call\<in>set cs. in_file c call"
    using calls_random_io[OF assms] unfolding calls_only_def by blast
  then show ?thesis by (intro exI[of _ cs]) (simp add: case_prod_unfold in_file_def)
qed

definition demo_io :: gmap where
  "demo_io = [(''directory'', GStr ''/tmp''), (''file_size'', GInt 100), (''block_size'', GInt 10), (''io_count'', GInt 2)]"

definition demo_io_config :: RandomIOConfig where
  "demo_io_config = \<lparr>io_Directory = ''/tmp'', io_Delete = False, FileSize = 100, BlockSize = 10, IoCount = 2, ReadPercentage = 0\<rparr>"

lemma parse_demo_io: "ParseConfig random_io_fields random_io_zero demo_io = Ret demo_io_config"
  by (simp add: parse_eval demo_io_def demo_io_config_def random_io_fields_def random_io_zero_def is_i64_def)

theorem random_io_in_bounds_witness:
  "\<exists>cs. pr_calls (fst (RandomIO_Execute demo_io idle_process)) = cs \<and>
    (\<forall>(f, args)\<in>set cs. f \<in> {''File.ReadAt'', ''File.WriteAt''} \<longrightarrow>
       (\<exists>h off. args = [h, GInt 10, GInt off] \<and> 0 \<le> off \<and> 10 dvd off \<and> off + 10 \<le> 100))"
  using random_io_in_bounds[OF parse_demo_io, of idle_process] by (simp add: demo_io_config_def)

text \<open>
  C37. Once \<^verbatim>\<open>RandomIO\<close> has created its file it closes it exactly once, as its last call, on every
  path: on success, when truncating, syncing or removing fails, and when it panics because the
  block size is zero or larger than the file; unless a call of the file system never comes back.
\<close>

theorem random_io_closes_file:
  assumes "ParseConfig random_io_fields random_io_zero cfg = Ret c"
    and "pr_answers w (length (pr_calls w)) = Ret u"
    and "pr_answers w (Suc (length (pr_calls w))) = Ret f"
    and "\<not> no_return (snd (RandomIO_Execute cfg w))"
  shows "\<exists>cs. pr_calls (fst (RandomIO_Execute cfg w)) = pr_calls w @ (''uuid.NewString'', []) #
      (''os.Create'', [GStr (io_Directory c @ ''/'' @ as_string u)]) # cs @ [(''File.Close'', [f])]
    \<and> (\<forall>call\<in>set cs. fst call \<noteq> ''File.Close'')"
proof -
  define body where "body = sbind (or_warn ''failed to truncate file'' (lib ''File.Truncate'' [f, GInt (FileSize c)])) (\<lambda>_.
        sbind (lift_out (make_slice (BlockSize c))) (\<lambda>buffer.
        sbind (repeat_times (nat (IoCount c)) (io_pass c f)) (\<lambda>_.
        sbind (or_warn ''failed to sync file'' (lib ''File.Sync'' [f])) (\<lambda>_.
        remove_file (io_Delete c) (io_Directory c @ ''/'' @ as_string u)))))"
  let ?w = "w\<lparr>pr_calls := pr_calls w @ [(''uuid.NewString'', []), (''os.Create'', [GStr (io_Directory c @ ''/'' @ as_string u)])]\<rparr>"
  have "calls_only (\<lambda>c. fst c \<noteq> ''File.Close'') body"
    unfolding body_def remove_file_def io_pass_def Int63n_def Let_def by (intro calls_rules; simp)
  moreover have e: "RandomIO_Execute cfg w = deferred (call0 ''File.Close'' [f]) body ?w"
    using assms(1-3) by (simp add: RandomIO_Execute_def sbind_def go_simps lib0_def on_err_def lib_def or_warn_def Let_def body_def)
  ultimately obtain cs where "pr_calls (fst (deferred (call0 ''File.Close'' [f]) body ?w)) = pr_calls ?w @ cs @ [(''File.Close'', [f])]"
      "\<forall>call\<in>set cs. fst call \<noteq> ''File.Close''"
    using deferred_call[of "''File.Close''" body "[f]" ?w] assms(4) by auto
  then show ?thesis unfolding e by (intro exI[of _ cs]) simp
qed

theorem random_io_closes_file_witness:
  "\<exists>cs. pr_calls (fst (RandomIO_Execute demo_io idle_process)) = (''uuid.NewString'', []) #
      (''os.Create'', [GStr ''/tmp/'']) # cs @ [(''File.Close'', [GInt 1])]"
proof -
  have "\<not> no_return (snd (RandomIO_Execute demo_io idle_process))"
    by (simp add: RandomIO_Execute_def parse_demo_io go_simps prog_defs demo_io_config_def make_slice_def max_alloc_def Let_def
        io_pass_def Int63n_def remove_file_def idle_process_def go_div_def i64_def eval_nat_numeral)
  from random_io_closes_file[OF parse_demo_io _ _ this, of "GInt 0" "GInt 1"] show ?thesis by (auto simp: demo_io_config_def)
qed

text \<open>
  A \<^verbatim>\<open>CreateFile\<close> that is told to delete its file leaves it behind when the write fails: it
  closes the file and returns the error, and never calls \<^verbatim>\<open>os.Remove\<close>.
\<close>

theorem create_file_left_behind:
  assumes "ParseConfig create_file_fields create_file_zero cfg = Ret c"
    and "cf_Delete c" "0 \<le> cf_Size c" "cf_Size c \<le> 281474976710656"
    and "pr_answers w (length (pr_calls w)) = Ret u"
    and "pr_answers w (length (pr_calls w) + 1) = Ret f"
    and "pr_answers w (length (pr_calls w) + 2) = Err e"
    and "pr_answers w (length (pr_calls w) + 3) = Ret x"
  shows "\<exists>w'. CreateFile_Execute cfg w = (w', Err e) \<and> req_log w' = req_log w @ [(Warn, ''failed to write to file'')]
    \<and> pr_calls w' = pr_calls w @
      [(''uuid.NewString'', []), (''os.Create'', [GStr (cf_Directory c @ ''/'' @ as_string u)]),
       (''File.Write'', [f, GInt (cf_Size c)]), (''File.Close'', [f])]"
  using assms
  by (simp add: CreateFile_Execute_def sbind_def go_simps lib0_def call0_def on_err_def lib_def or_warn_def Let_def deferred_def
    make_slice_def max_alloc_def lift_out_def say_def req_emit_def sret_def eval_nat_numeral)

theorem create_file_left_behind_witness:
  "\<exists>w'. CreateFile_Execute [(''directory'', GStr ''/tmp''), (''size'', GInt 3), (''delete'', GBool True)]
      (idle_process\<lparr>pr_answers := \<lambda>k. if k = 2 then Err (EExt ''no space left on device'') else Ret (GStr ''f'')\<rparr>)
      = (w', Err (EExt ''no space left on device''))
    \<and> pr_calls w' = [(''uuid.NewString'', []), (''os.Create'', [GStr ''/tmp/f'']), (''File.Write'', [GStr ''f'', GInt 3]),
       (''File.Close'', [GStr ''f''])]"
  using create_file_left_behind[where cfg = "[(''directory'', GStr ''/tmp''), (''size'', GInt 3), (''delete'', GBool True)]"
      and c = "\<lparr>cf_Directory = ''/tmp'', cf_Size = 3, cf_Delete = True\<rparr>"
      and w = "idle_process\<lparr>pr_answers := \<lambda>k. if k = 2 then Err (EExt ''no space left on device'') else Ret (GStr ''f'')\<rparr>"
      and u = "GStr ''f''" and f = "GStr ''f''" and x = "GStr ''f''" and e = "EExt ''no space left on device''"]
  by (auto simp: parse_eval create_file_fields_def create_file_zero_def is_i64_def)

end
