(* ===== verification/HttpActions.thy ===== *)
theory HttpActions
  imports World
begin

text \<open>
  The actions that send HTTP requests: \<^verbatim>\<open>HTTPGetRequest\<close> and \<^verbatim>\<open>HTTPRequest\<close> (\<^verbatim>\<open>pkg/actions\<close>).
  Which client they use depends on the tracing switches of the environment.
\<close>

section \<open>Sending\<close>

text \<open>A JSON text, as an argument of a call: the value it denotes.\<close>

fun json_arg :: "json \<Rightarrow> gval"
  and json_args :: "json list \<Rightarrow> gval list"
  and json_fields :: "(string \<times> json) list \<Rightarrow> (string \<times> gval) list" where
  "json_arg JNull = GNil"
| "json_arg (JBool b) = GBool b"
| "json_arg (JNum q) = GFloat q"
| "json_arg (JStr s) = GStr s"
| "json_arg (JArr js) = GList (json_args js)"
| "json_arg (JObj kvs) = GMapS (json_fields kvs)"
| "json_args [] = []"
| "json_args (j # js) = json_arg j # json_args js"
| "json_fields [] = []"
| "json_fields ((k, j) # kvs) = (k, json_arg j) # json_fields kvs"

definition http_Do :: "gval list \<Rightarrow> gval prog" where
  "http_Do req =
     sbind (env pr_env) (\<lambda>getenv.
       if IsDatadogEnabled getenv then lib ''httptrace.WrapClient.Do'' req
       else if IsOpenTelemetryEnabled getenv then lib ''otelhttp.Client.Do'' req
       else lib ''http.DefaultClient.Do'' req)"

text \<open>
  The check of the status. The text of the error is read from the body of the request, which the
  client has consumed, and not from that of the response.
\<close>

definition check_status :: "gval \<Rightarrow> gval \<Rightarrow> unit prog" where
  "check_status req resp =
     (let status = as_int (gfield ''StatusCode'' resp) in
      if status \<ge> 400 then
        sbind (or_warn ''failed to read body'' (lib ''io.ReadAll'' [gfield ''Body'' req])) (\<lambda>body.
          lift_out (Err (EText (''request failed ('' @ itoa status @ ''): '' @ as_string body))))
      else sret ())"

section \<open>HTTPGetRequest\<close>

record HTTPGetRequestConfig =
  get_Url :: string

definition http_get_fields :: "HTTPGetRequestConfig fields" where
  "http_get_fields = [(''url'', fld dec_string get_Url (\<lambda>v r. r\<lparr>get_Url := v\<rparr>))]"

definition http_get_zero :: HTTPGetRequestConfig where
  "http_get_zero = \<lparr>get_Url = []\<rparr>"

definition HTTPGetRequest_Execute :: "gmap \<Rightarrow> unit prog" where
  "HTTPGetRequest_Execute cfg =
     sbind (parse_warn http_get_fields http_get_zero cfg) (\<lambda>config.
     sbind (or_warn ''failed to create new request''
        (lib ''http.NewRequestWithContext'' [GStr ''GET'', GStr (get_Url config)])) (\<lambda>req.
     sbind (or_warn ''failed to send request'' (http_Do [req])) (\<lambda>resp.
     deferred (call0 ''Body.Close'' [gfield ''Body'' resp])
       (sbind (print_out (itoa (as_int (gfield ''StatusCode'' resp)))) (\<lambda>_. check_status req resp)))))"

section \<open>HTTPRequest\<close>

record HTTPRequestConfig =
  post_Url :: string
  post_Body :: gmap

definition http_post_fields :: "HTTPRequestConfig fields" where
  "http_post_fields =
     [(''url'', fld dec_string post_Url (\<lambda>v r. r\<lparr>post_Url := v\<rparr>)),
      (''body'', fld dec_map post_Body (\<lambda>v r. r\<lparr>post_Body := v\<rparr>))]"

definition http_post_zero :: HTTPRequestConfig where
  "http_post_zero = \<lparr>post_Url = [], post_Body = []\<rparr>"

definition HTTPRequest_Execute :: "gmap \<Rightarrow> unit prog" where
  "HTTPRequest_Execute cfg =
     sbind (parse_warn http_post_fields http_post_zero cfg) (\<lambda>config.
     sbind (lift_out (Convert (GMapS (post_Body config)))) (\<lambda>body.
     sbind (or_warn ''failed marshal json'' (lift_out (Marshal body))) (\<lambda>payloadBytes.
     sbind (or_warn ''failed to create new request''
        (lib ''http.NewRequestWithContext'' [GStr ''POST'', GStr (post_Url config), json_arg payloadBytes])) (\<lambda>req.
     sbind (call0 ''Header.Set'' [req, GStr ''Content-Type'', GStr ''application/json'']) (\<lambda>_.
     sbind (or_warn ''failed to send request'' (http_Do [req])) (\<lambda>resp.
     deferred (call0 ''Body.Close'' [gfield ''Body'' resp]) (check_status req resp)))))))"

section \<open>Bodies that were decoded from JSON can be sent\<close>

lemma any_of_json_good:
  "any_of_json j = Some v \<Longrightarrow> plain v \<and> finite_floats v"
  "any_of_list js = Some vs \<Longrightarrow> plain (GList vs) \<and> finite_floats (GList vs)"
  "any_of_obj kvs m = Some m' \<Longrightarrow> plain (GMapS m) \<and> finite_floats (GMapS m) \<Longrightarrow> plain (GMapS m') \<and> finite_floats (GMapS m')"
proof (induction j and js and kvs m arbitrary: v and vs and m' rule: any_of_json_any_of_list_any_of_obj.induct)
  case (10 k j kvs m)
  obtain v where v: "any_of_json j = Some v" "any_of_obj kvs (AList.update k v m) = Some m'"
    using "10.prems"(1) by (auto split: option.splits)
  have "set (AList.update k v m) \<subseteq> insert (k, v) (set m)" by (induction m) auto
  moreover have "plain v \<and> finite_floats v" using 10(1) v(1) by blast
  ultimately have "plain (GMapS (AList.update k v m)) \<and> finite_floats (GMapS (AList.update k v m))"
    using 10(4) by auto
  then show ?case using 10(2)[OF v(1)] v(2) by blast
qed (auto split: if_splits option.splits)

lemma dec_map_good:
  "dec_map old j = Some m \<Longrightarrow> plain (GMapS old) \<and> finite_floats (GMapS old) \<Longrightarrow> plain (GMapS m) \<and> finite_floats (GMapS m)"
proof (cases j)
  case (JObj kvs)
  assume "dec_map old j = Some m" "plain (GMapS old) \<and> finite_floats (GMapS old)"
  with JObj show ?thesis by (intro any_of_json_good(3)[of kvs old m]) simp_all
qed auto

lemma fld_map_good:
  "fld dec_map sel upd r j = Some r' \<Longrightarrow>
   \<exists>m. (plain (GMapS (sel r)) \<and> finite_floats (GMapS (sel r)) \<longrightarrow> plain (GMapS m) \<and> finite_floats (GMapS m)) \<and> r' = upd m r"
  unfolding fld_def map_option_eq_Some using dec_map_good by blast

lemma post_body_good:
  assumes "ParseConfig http_post_fields http_post_zero cfg = Ret c"
  shows "plain (GMapS (post_Body c)) \<and> finite_floats (GMapS (post_Body c))"
  by (rule ParseConfig_keeps[OF assms])
    (auto simp: http_post_fields_def http_post_zero_def simp del: plain.simps finite_floats.simps
       dest!: fld_map_good fld_Some[where dec = dec_string], simp_all)

lemma clean_bind_parse:
  assumes "parse_only fs zero cfg = Ret ()" "\<And>c. ParseConfig fs zero cfg = Ret c \<Longrightarrow> clean (f c)"
  shows "clean (sbind (parse_warn fs zero cfg) f)"
proof -
  obtain c where c: "ParseConfig fs zero cfg = Ret c" using assms(1) by (auto simp: parse_only_def go_simps)
  then have "sbind (parse_warn fs zero cfg) f = f c" by (intro ext) (simp add: sbind_def go_simps)
  with assms(2) c show ?thesis by simp
qed

lemma config_errors_differ [simp]: "EText s \<noteq> unmarshal_error" "EText s \<noteq> marshal_error"
  by (simp_all add: unmarshal_error_def marshal_error_def)

lemma clean_http_Do [clean_rules, intro]: "clean (http_Do req)"
  unfolding http_Do_def by (intro clean_rules)

lemma clean_check_status [clean_rules, intro]: "clean (check_status req resp)"
  unfolding check_status_def Let_def by (intro clean_rules) simp_all

lemma HTTPGetRequest_clean: "parse_only http_get_fields http_get_zero cfg = Ret () \<Longrightarrow> clean (HTTPGetRequest_Execute cfg)"
  unfolding HTTPGetRequest_Execute_def by (intro clean_rules)

lemma HTTPRequest_clean:
  assumes "parse_only http_post_fields http_post_zero cfg = Ret ()"
  shows "clean (HTTPRequest_Execute cfg)"
  unfolding HTTPRequest_Execute_def
proof (rule clean_bind_parse[OF assms])
  fix c assume "ParseConfig http_post_fields http_post_zero cfg = Ret c"
  then have b: "plain (GMapS (post_Body c))" "finite_floats (GMapS (post_Body c))" using post_body_good by blast+
  then obtain j where "Convert (GMapS (post_Body c)) = Ret (GMapS (post_Body c))" "Marshal (GMapS (post_Body c)) = Ret j"
    using Convert_plain(1) Marshal_total(1) by blast
  then show "clean (sbind (lift_out (Convert (GMapS (post_Body c)))) (\<lambda>body.
     sbind (or_warn ''failed marshal json'' (lift_out (Marshal body))) (\<lambda>payloadBytes.
     sbind (or_warn ''failed to create new request''
        (lib ''http.NewRequestWithContext'' [GStr ''POST'', GStr (post_Url c), json_arg payloadBytes])) (\<lambda>req.
     sbind (call0 ''Header.Set'' [req, GStr ''Content-Type'', GStr ''application/json'']) (\<lambda>_.
     sbind (or_warn ''failed to send request'' (http_Do [req])) (\<lambda>resp.
     deferred (call0 ''Body.Close'' [gfield ''Body'' resp]) (check_status req resp)))))))"
    by (simp del: Convert.simps Marshal.simps) (intro clean_rules; simp)
qed

section \<open>Properties\<close>

text \<open>
  C38. The body of an \<^verbatim>\<open>HTTPRequest\<close> is always well formed: whatever config parses, its body has
  only string keys and finite numbers, so that converting and marshalling it succeeds and the
  branches for a panic in \<^verbatim>\<open>Convert\<close> and for \<^verbatim>\<open>failed marshal json\<close> are never taken.
\<close>

theorem http_body_always_encodes:
  assumes "ParseConfig http_post_fields http_post_zero cfg = Ret c"
  shows "plain (GMapS (post_Body c)) \<and> finite_floats (GMapS (post_Body c))
    \<and> (\<exists>j. obind (Convert (GMapS (post_Body c))) Marshal = Ret j)"
proof -
  have g: "plain (GMapS (post_Body c))" "finite_floats (GMapS (post_Body c))" using post_body_good[OF assms] by blast+
  then obtain j where "Marshal (GMapS (post_Body c)) = Ret j" using Marshal_total(1) by blast
  moreover have "Convert (GMapS (post_Body c)) = Ret (GMapS (post_Body c))" using g(1) by (rule Convert_plain(1))
  ultimately have "obind (Convert (GMapS (post_Body c))) Marshal = Ret j" by (simp only: obind.simps)
  with g show ?thesis by blast
qed

theorem http_body_always_encodes_witness:
  "ParseConfig http_post_fields http_post_zero [(''url'', GStr ''u''), (''body'', GMapA [(GStr ''a'', GList [GInt 1])])]
      = Ret \<lparr>post_Url = ''u'', post_Body = [(''a'', GList [GFloat 1])]\<rparr>
    \<and> finite_floats (GMapS [(''a'', GList [GFloat 1])])"
proof -
  have p: "ParseConfig http_post_fields http_post_zero [(''url'', GStr ''u''), (''body'', GMapA [(GStr ''a'', GList [GInt 1])])]
      = Ret \<lparr>post_Url = ''u'', post_Body = [(''a'', GList [GFloat 1])]\<rparr>"
    by (simp add: parse_eval http_post_fields_def http_post_zero_def)
  with http_body_always_encodes[OF p] show ?thesis by simp
qed

end
