(* ===== verification/MutexActions.thy ===== *)
theory MutexActions
  imports World
begin

text \<open>
  The named mutexes of a server: \<^verbatim>\<open>GlobalMutexLock\<close> and \<^verbatim>\<open>GlobalMutexUnlock\<close> (\<^verbatim>\<open>pkg/actions\<close>) as
  one request at a time executes them, the workload inside the config of an unlock, and the
  contract of a table of locks that this theory and the theory of the threads implement.
\<close>

section \<open>Workloads inside a JSON document\<close>

definition action_fields :: "ActionConfig fields" where
  "action_fields =
     [(''name'', fld dec_string Name (\<lambda>v r. r\<lparr>Name := v\<rparr>)),
      (''config'', fld dec_map Config (\<lambda>v r. r\<lparr>Config := v\<rparr>))]"

definition action_zero :: ActionConfig where
  "action_zero = \<lparr>Name = [], Config = []\<rparr>"

definition workload_fields :: "Workload fields" where
  "workload_fields =
     [(''actions'', fld (dec_list (decode_struct action_fields) action_zero) WorkloadActions (\<lambda>v r. r\<lparr>WorkloadActions := v\<rparr>))]"

definition workload_zero :: Workload where
  "workload_zero = \<lparr>WorkloadActions = []\<rparr>"

section \<open>Locking\<close>

record GlobalMutexLockConfig =
  lock_Id :: string

definition lock_fields :: "GlobalMutexLockConfig fields" where
  "lock_fields = [(''id'', fld dec_string lock_Id (\<lambda>v r. r\<lparr>lock_Id := v\<rparr>))]"

definition lock_zero :: GlobalMutexLockConfig where
  "lock_zero = \<lparr>lock_Id = []\<rparr>"

text \<open>
  The table \<^verbatim>\<open>GLOBAL_MUTEX_LOCKS\<close> says of each mutex whether it is held. With no other request
  to release it, locking a held mutex never returns.
\<close>

definition GlobalMutexLock_Execute :: "gmap \<Rightarrow> unit prog" where
  "GlobalMutexLock_Execute cfg =
     sbind (parse_warn lock_fields lock_zero cfg) (\<lambda>config.
     sbind (change (\<lambda>w. if map_of (pr_locks w) (lock_Id config) = None
        then w\<lparr>pr_locks := AList.update (lock_Id config) False (pr_locks w)\<rparr> else w)) (\<lambda>_.
     sbind (env pr_locks) (\<lambda>locks.
       if map_of locks (lock_Id config) = Some True then lift_out (Panic Blocked)
       else change (\<lambda>w. w\<lparr>pr_locks := AList.update (lock_Id config) True (pr_locks w)\<rparr>))))"

section \<open>Unlocking\<close>

record GlobalMutexUnlockConfig =
  unlock_Id :: string
  unlock_Workload :: Workload

definition unlock_fields :: "GlobalMutexUnlockConfig fields" where
  "unlock_fields =
     [(''id'', fld dec_string unlock_Id (\<lambda>v r. r\<lparr>unlock_Id := v\<rparr>)),
      (''workload'', fld (decode_struct workload_fields) unlock_Workload (\<lambda>v r. r\<lparr>unlock_Workload := v\<rparr>))]"

definition unlock_zero :: GlobalMutexUnlockConfig where
  "unlock_zero = \<lparr>unlock_Id = [], unlock_Workload = workload_zero\<rparr>"

definition GlobalMutexUnlock_Execute :: "gmap \<Rightarrow> unit prog" where
  "GlobalMutexUnlock_Execute cfg =
     sbind (parse_warn unlock_fields unlock_zero cfg) (\<lambda>config.
     sbind (env pr_locks) (\<lambda>locks.
       case map_of locks (unlock_Id config) of
         None \<Rightarrow> sret ()
       | Some held \<Rightarrow>
           if held then change (\<lambda>w. w\<lparr>pr_locks := AList.update (unlock_Id config) False (pr_locks w)\<rparr>)
           else lift_out (Panic FatalUnlock)))"

text \<open>Parsing the config also verifies the workload in it, against the table of actions.\<close>

definition GlobalMutexUnlock_ParseConfig :: "'w registry \<Rightarrow> gmap \<Rightarrow> unit outcome" where
  "GlobalMutexUnlock_ParseConfig acts data =
     obind (ParseConfig unlock_fields unlock_zero data) (\<lambda>c. Workload_Verify acts (unlock_Workload c))"

lemma Lock_clean: "parse_only lock_fields lock_zero cfg = Ret () \<Longrightarrow> clean (GlobalMutexLock_Execute cfg)"
  unfolding GlobalMutexLock_Execute_def by (intro clean_rules) simp_all

lemma Unlock_clean: "parse_only unlock_fields unlock_zero cfg = Ret () \<Longrightarrow> clean (GlobalMutexUnlock_Execute cfg)"
  unfolding GlobalMutexUnlock_Execute_def by (auto intro!: clean_rules split: option.split)

section \<open>The contract of a table of locks\<close>

text \<open>
  What a table of locks does, seen from outside: a lock that is free can be acquired, one that is
  held can be released, releasing an unknown one does nothing, and releasing a known one that
  nobody holds is the misuse that ends the process.
\<close>

datatype lock_event = Acquired string | Released string | Unknown string | Misused string

inductive lock_spec :: "string set \<Rightarrow> lock_event list \<Rightarrow> string set \<Rightarrow> bool" where
  spec_nil: "lock_spec H [] H"
| spec_acquire: "l \<notin> H \<Longrightarrow> lock_spec (insert l H) es H' \<Longrightarrow> lock_spec H (Acquired l # es) H'"
| spec_release: "l \<in> H \<Longrightarrow> lock_spec (H - {l}) es H' \<Longrightarrow> lock_spec H (Released l # es) H'"
| spec_unknown: "l \<notin> H \<Longrightarrow> lock_spec H es H' \<Longrightarrow> lock_spec H (Unknown l # es) H'"
| spec_misuse: "l \<notin> H \<Longrightarrow> lock_spec H [Misused l] H"

inductive_cases lock_spec_NilE: "lock_spec H [] H'"
inductive_cases lock_spec_AcquiredE: "lock_spec H (Acquired l # es) H'"
inductive_cases lock_spec_ReleasedE: "lock_spec H (Released l # es) H'"

inductive step_runs :: "('s \<Rightarrow> lock_event list \<Rightarrow> 's \<Rightarrow> bool) \<Rightarrow> 's \<Rightarrow> lock_event list \<Rightarrow> 's \<Rightarrow> bool" for step where
  runs_nil: "step_runs step s [] s"
| runs_step: "step s es s1 \<Longrightarrow> step_runs step s1 es' s' \<Longrightarrow> step_runs step s (es @ es') s'"

lemma lock_spec_append:
  "lock_spec H es H1 \<Longrightarrow> lock_spec H1 es' H' \<Longrightarrow> \<forall>l. Misused l \<notin> set es \<Longrightarrow> lock_spec H (es @ es') H'"
  by (induction rule: lock_spec.induct) (auto intro: lock_spec.intros)

text \<open>Holding is having been acquired once more than released: mutual exclusion.\<close>

lemma lock_spec_counts:
  "lock_spec H es H' \<Longrightarrow> int (count_list es (Acquired l)) - int (count_list es (Released l)) =
     (if l \<in> H' then 1 else 0) - (if l \<in> H then 1 else 0)"
  by (induction rule: lock_spec.induct) auto

locale lock_implementation =
  fixes keeps :: "'s \<Rightarrow> bool" and held :: "'s \<Rightarrow> string set" and alive :: "'s \<Rightarrow> bool"
    and step :: "'s \<Rightarrow> lock_event list \<Rightarrow> 's \<Rightarrow> bool"
  assumes keeps_step: "keeps s \<Longrightarrow> step s es s' \<Longrightarrow> keeps s'"
    and implements: "keeps s \<Longrightarrow> step s es s' \<Longrightarrow> lock_spec (held s) es (held s')"
    and misuse_ends: "keeps s \<Longrightarrow> step s es s' \<Longrightarrow> Misused l \<in> set es \<Longrightarrow> \<not> alive s'"
    and dead_stops: "\<not> alive s \<Longrightarrow> \<not> step s es s'"
begin

lemma runs_implement:
  "step_runs step s es s' \<Longrightarrow> keeps s \<Longrightarrow> keeps s' \<and> lock_spec (held s) es (held s')"
proof (induction rule: step_runs.induct)
  case (runs_nil s)
  then show ?case by (auto intro: spec_nil)
next
  case (runs_step s es s1 es' s')
  have k: "keeps s1" "lock_spec (held s) es (held s1)"
    using keeps_step implements runs_step.hyps(1) runs_step.prems by blast+
  then have k': "keeps s'" "lock_spec (held s1) es' (held s')" using runs_step.IH by blast+
  show ?case
  proof (cases "\<exists>l. Misused l \<in> set es")
    case True
    then have "\<not> alive s1" using misuse_ends runs_step.hyps(1) runs_step.prems by blast
    then have "s' = s1 \<and> es' = []" using runs_step.hyps(2) dead_stops by (auto elim: step_runs.cases)
    with k k' show ?thesis by simp
  next
    case False
    with lock_spec_append k k' show ?thesis by blast
  qed
qed

lemma mutual_exclusion:
  assumes "step_runs step s es s'" "keeps s" "held s = {}"
  shows "int (count_list es (Acquired l)) - int (count_list es (Released l)) = (if l \<in> held s' then 1 else 0)"
  using lock_spec_counts[of "held s" es "held s'" l] runs_implement[OF assms(1,2)] assms(3) by simp

end

section \<open>One request at a time\<close>

definition process_held :: "process \<Rightarrow> string set" where
  "process_held w = {l. map_of (pr_locks w) l = Some True}"

definition request_step :: "process \<Rightarrow> lock_event list \<Rightarrow> process \<Rightarrow> bool" where
  "request_step w es w' \<longleftrightarrow>
     (\<exists>cfg c. ParseConfig lock_fields lock_zero cfg = Ret c \<and> GlobalMutexLock_Execute cfg w = (w', Ret ())
        \<and> es = [Acquired (lock_Id c)])
   \<or> (\<exists>cfg c. ParseConfig unlock_fields unlock_zero cfg = Ret c \<and> GlobalMutexUnlock_Execute cfg w = (w', Ret ())
        \<and> es = (if map_of (pr_locks w) (unlock_Id c) = None then [Unknown (unlock_Id c)] else [Released (unlock_Id c)]))"

lemma Lock_cases:
  assumes "ParseConfig lock_fields lock_zero cfg = Ret c" "GlobalMutexLock_Execute cfg w = (w', Ret ())"
  shows "lock_Id c \<notin> process_held w \<and> process_held w' = insert (lock_Id c) (process_held w)"
  using assms
  by (auto simp: GlobalMutexLock_Execute_def sbind_def go_simps change_def env_def lift_out_def process_held_def update_conv'
      split: if_splits)

lemma Unlock_cases:
  assumes "ParseConfig unlock_fields unlock_zero cfg = Ret c" "GlobalMutexUnlock_Execute cfg w = (w', Ret ())"
  shows "if map_of (pr_locks w) (unlock_Id c) = None then w' = w \<and> unlock_Id c \<notin> process_held w
    else unlock_Id c \<in> process_held w \<and> process_held w' = process_held w - {unlock_Id c}"
  using assms
  by (auto simp: GlobalMutexUnlock_Execute_def sbind_def go_simps change_def env_def lift_out_def sret_def process_held_def update_conv'
      split: if_splits option.splits)

interpretation requests: lock_implementation "\<lambda>_. True" process_held "\<lambda>_. True" request_step
proof (unfold_locales, goal_cases)
  case (2 s es s')
  then show ?case
    unfolding request_step_def using Lock_cases Unlock_cases by (force intro: lock_spec.intros)
next
  case (3 s es s' l)
  then show ?case by (auto simp: request_step_def split: if_splits)
qed auto

end
