(* ===== verification/MutexThreads.thy ===== *)
theory MutexThreads
  imports MutexActions
begin

text \<open>
  \<^verbatim>\<open>GlobalMutexLock\<close> and \<^verbatim>\<open>GlobalMutexUnlock\<close> executed by many requests at once, one statement
  at a time: \<^verbatim>\<open>GLOBAL_MUTEX\<close>, the table \<^verbatim>\<open>GLOBAL_MUTEX_LOCKS\<close> from ids to the addresses of mutexes,
  and the mutexes themselves. The threads implement the contract \<open>lock_implementation\<close>.
\<close>

section \<open>Threads\<close>

text \<open>The statement a thread is about to execute, with the values of its local variables.\<close>

datatype pc =
    Idle
  | LockGlobal string
  | CheckEntry string
  | FetchLock string
  | UnlockGlobal string nat
  | LockNamed string nat
  | UnlockLockGlobal string
  | CheckUnlock string
  | UnlockNamed string
  | DeferUnlock string

record mutexes =
  global_holder :: "nat option"
  lock_table :: "(string \<times> nat) list"
  lock_bits :: "bool list"
  threads :: "pc list"
  fatal :: bool

datatype thread_label = CallLock nat string | CallUnlock nat string | Step nat

definition goto :: "nat \<Rightarrow> pc \<Rightarrow> mutexes \<Rightarrow> mutexes" where
  "goto i p s = s\<lparr>threads := (threads s)[i := p]\<rparr>"

fun unlock_step :: "nat \<Rightarrow> pc \<Rightarrow> mutexes \<Rightarrow> (mutexes \<times> lock_event list) option" where
  "unlock_step i (UnlockLockGlobal l) s =
     (if global_holder s = None then Some (goto i (CheckUnlock l) (s\<lparr>global_holder := Some i\<rparr>), []) else None)"
| "unlock_step i (CheckUnlock l) s =
     (case map_of (lock_table s) l of
        None \<Rightarrow> Some (goto i (DeferUnlock l) s, [Unknown l])
      | Some a \<Rightarrow> Some (goto i (UnlockNamed l) s, []))"
| "unlock_step i (UnlockNamed l) s =
     (case map_of (lock_table s) l of
        None \<Rightarrow> Some (s\<lparr>fatal := True\<rparr>, [])
      | Some a \<Rightarrow>
          if lock_bits s ! a then Some (goto i (DeferUnlock l) (s\<lparr>lock_bits := (lock_bits s)[a := False]\<rparr>), [Released l])
          else Some (s\<lparr>fatal := True\<rparr>, [Misused l]))"
| "unlock_step i (DeferUnlock l) s = Some (goto i Idle (s\<lparr>global_holder := None\<rparr>), [])"
| "unlock_step i _ s = None"

fun thread_step :: "nat \<Rightarrow> pc \<Rightarrow> mutexes \<Rightarrow> (mutexes \<times> lock_event list) option" where
  "thread_step i Idle s = None"
| "thread_step i (LockGlobal l) s =
     (if global_holder s = None then Some (goto i (CheckEntry l) (s\<lparr>global_holder := Some i\<rparr>), []) else None)"
| "thread_step i (CheckEntry l) s =
     Some (goto i (FetchLock l)
       (if map_of (lock_table s) l = None
        then s\<lparr>lock_table := AList.update l (length (lock_bits s)) (lock_table s), lock_bits := lock_bits s @ [False]\<rparr>
        else s), [])"
| "thread_step i (FetchLock l) s =
     (case map_of (lock_table s) l of
        None \<Rightarrow> Some (s\<lparr>fatal := True\<rparr>, [])
      | Some a \<Rightarrow> Some (goto i (UnlockGlobal l a) s, []))"
| "thread_step i (UnlockGlobal l a) s = Some (goto i (LockNamed l a) (s\<lparr>global_holder := None\<rparr>), [])"
| "thread_step i (LockNamed l a) s =
     (if lock_bits s ! a then None else Some (goto i Idle (s\<lparr>lock_bits := (lock_bits s)[a := True]\<rparr>), [Acquired l]))"
| "thread_step i p s = unlock_step i p s"

definition mutex_step :: "thread_label \<Rightarrow> mutexes \<Rightarrow> (mutexes \<times> lock_event list) option" where
  "mutex_step lab s =
     (if fatal s then None
      else case lab of
        CallLock i l \<Rightarrow> if i < length (threads s) \<and> threads s ! i = Idle then Some (goto i (LockGlobal l) s, []) else None
      | CallUnlock i l \<Rightarrow> if i < length (threads s) \<and> threads s ! i = Idle then Some (goto i (UnlockLockGlobal l) s, []) else None
      | Step i \<Rightarrow> if i < length (threads s) then thread_step i (threads s ! i) s else None)"

definition no_locks :: "nat \<Rightarrow> mutexes" where
  "no_locks n = \<lparr>global_holder = None, lock_table = [], lock_bits = [], threads = replicate n Idle, fatal = False\<rparr>"

definition any_thread_step :: "mutexes \<Rightarrow> lock_event list \<Rightarrow> mutexes \<Rightarrow> bool" where
  "any_thread_step s es s' \<longleftrightarrow> (\<exists>lab. mutex_step lab s = Some (s', es))"

definition mutexes_held :: "mutexes \<Rightarrow> string set" where
  "mutexes_held s = {l. \<exists>a. map_of (lock_table s) l = Some a \<and> lock_bits s ! a}"

section \<open>The invariant\<close>

fun in_global :: "pc \<Rightarrow> bool" where
  "in_global (CheckEntry l) = True"
| "in_global (FetchLock l) = True"
| "in_global (UnlockGlobal l a) = True"
| "in_global (CheckUnlock l) = True"
| "in_global (UnlockNamed l) = True"
| "in_global (DeferUnlock l) = True"
| "in_global _ = False"

text \<open>What the local variables and the statement of a thread say about the table.\<close>

fun pc_ok :: "(string \<times> nat) list \<Rightarrow> pc \<Rightarrow> bool" where
  "pc_ok t (FetchLock l) \<longleftrightarrow> map_of t l \<noteq> None"
| "pc_ok t (UnlockGlobal l a) \<longleftrightarrow> map_of t l = Some a"
| "pc_ok t (LockNamed l a) \<longleftrightarrow> map_of t l = Some a"
| "pc_ok t (UnlockNamed l) \<longleftrightarrow> map_of t l \<noteq> None"
| "pc_ok t _ \<longleftrightarrow> True"

definition table_ok :: "mutexes \<Rightarrow> bool" where
  "table_ok s \<longleftrightarrow> (\<forall>l a. map_of (lock_table s) l = Some a \<longrightarrow> a < length (lock_bits s))
     \<and> inj_on (map_of (lock_table s)) (dom (map_of (lock_table s)))"

definition mutexes_ok :: "mutexes \<Rightarrow> bool" where
  "mutexes_ok s \<longleftrightarrow> table_ok s \<and> (\<forall>p\<in>set (threads s). pc_ok (lock_table s) p)
     \<and> (\<forall>i<length (threads s). in_global (threads s ! i) \<longleftrightarrow> global_holder s = Some i)
     \<and> (\<forall>i. global_holder s = Some i \<longrightarrow> i < length (threads s))"

lemma no_locks_ok: "mutexes_ok (no_locks n)" "mutexes_held (no_locks n) = {}"
  by (auto simp: mutexes_ok_def table_ok_def no_locks_def mutexes_held_def)

lemma goto_sel [simp]: "global_holder (goto i p s) = global_holder s" "lock_table (goto i p s) = lock_table s"
  "lock_bits (goto i p s) = lock_bits s" "fatal (goto i p s) = fatal s" "threads (goto i p s) = (threads s)[i := p]"
  by (simp_all add: goto_def)

lemma mutexes_held_goto [simp]: "mutexes_held (goto i p s) = mutexes_held s"
  "mutexes_held (s\<lparr>global_holder := g\<rparr>) = mutexes_held s" "mutexes_held (s\<lparr>fatal := b\<rparr>) = mutexes_held s"
  by (simp_all add: mutexes_held_def)

lemma goto_ok:
  assumes "mutexes_ok s" "i < length (threads s)" "pc_ok (lock_table s) p"
    and "in_global p \<longleftrightarrow> g = Some i" "\<forall>j. j \<noteq> i \<longrightarrow> (g = Some j \<longleftrightarrow> global_holder s = Some j)"
  shows "mutexes_ok (goto i p (s\<lparr>global_holder := g\<rparr>))"
  using assms by (auto simp: mutexes_ok_def table_ok_def nth_list_update dest!: set_update_subset_insert[THEN subsetD])

lemma goto_ok_same:
  assumes "mutexes_ok s" "i < length (threads s)" "pc_ok (lock_table s) p" "in_global p \<longleftrightarrow> in_global (threads s ! i)"
  shows "mutexes_ok (goto i p s)"
proof -
  have "in_global p \<longleftrightarrow> global_holder s = Some i" using assms by (auto simp: mutexes_ok_def)
  then show ?thesis using goto_ok[OF assms(1-3), of "global_holder s"] by simp
qed

lemma bits_ok: "mutexes_ok s \<Longrightarrow> mutexes_ok (s\<lparr>lock_bits := (lock_bits s)[a := b]\<rparr>)"
  by (auto simp: mutexes_ok_def table_ok_def)

lemma pc_ok_update: "pc_ok t p \<Longrightarrow> map_of t l = None \<Longrightarrow> pc_ok (AList.update l a t) p"
  by (cases p) (auto simp: update_conv')

lemma new_entry_ok:
  assumes "mutexes_ok s" "map_of (lock_table s) l = None"
  shows "mutexes_ok (s\<lparr>lock_table := AList.update l (length (lock_bits s)) (lock_table s), lock_bits := lock_bits s @ [False]\<rparr>)"
proof -
  have "inj_on (map_of (AList.update l (length (lock_bits s)) (lock_table s)))
      (dom (map_of (AList.update l (length (lock_bits s)) (lock_table s))))"
    using assms by (auto simp: mutexes_ok_def table_ok_def update_conv' inj_on_def dom_def split: if_splits) (metis less_irrefl)+
  with assms pc_ok_update show ?thesis
    by (auto simp: mutexes_ok_def table_ok_def update_conv' less_Suc_eq)
qed

lemma new_entry_held:
  assumes "mutexes_ok s" "map_of (lock_table s) l = None"
  shows "mutexes_held (s\<lparr>lock_table := AList.update l (length (lock_bits s)) (lock_table s), lock_bits := lock_bits s @ [False]\<rparr>)
    = mutexes_held s"
  using assms by (auto simp: mutexes_held_def mutexes_ok_def table_ok_def update_conv' nth_append)

lemma bit_held:
  assumes "mutexes_ok s" "map_of (lock_table s) l = Some a"
  shows "mutexes_held (s\<lparr>lock_bits := (lock_bits s)[a := b]\<rparr>)
    = (if b then insert l (mutexes_held s) else mutexes_held s - {l})"
proof -
  have a: "a < length (lock_bits s)" using assms by (auto simp: mutexes_ok_def table_ok_def)
  have "inj_on (map_of (lock_table s)) (dom (map_of (lock_table s)))" using assms(1) by (simp add: mutexes_ok_def table_ok_def)
  then have only: "map_of (lock_table s) l' = Some a \<longleftrightarrow> l' = l" for l'
    using assms(2) by (metis domI inj_onD)
  show ?thesis
  proof (rule set_eqI)
    fix l'
    show "l' \<in> mutexes_held (s\<lparr>lock_bits := (lock_bits s)[a := b]\<rparr>) \<longleftrightarrow>
      l' \<in> (if b then insert l (mutexes_held s) else mutexes_held s - {l})"
    proof (cases "l' = l")
      case True
      with a assms(2) show ?thesis by (simp add: mutexes_held_def)
    next
      case False
      then have "a' \<noteq> a" if "map_of (lock_table s) l' = Some a'" for a' using that only by blast
      with False show ?thesis by (auto simp: mutexes_held_def)
    qed
  qed
qed

section \<open>Every statement keeps the invariant and implements the contract\<close>

lemma holder_iff: "mutexes_ok s \<Longrightarrow> i < length (threads s) \<Longrightarrow> threads s ! i = p \<Longrightarrow> in_global p \<longleftrightarrow> global_holder s = Some i"
  by (auto simp: mutexes_ok_def)

lemma current_ok: "mutexes_ok s \<Longrightarrow> i < length (threads s) \<Longrightarrow> threads s ! i = p \<Longrightarrow> pc_ok (lock_table s) p"
  by (auto simp: mutexes_ok_def)

lemma fatal_ok: "mutexes_ok s \<Longrightarrow> mutexes_ok (s\<lparr>fatal := b\<rparr>)"
  by (simp add: mutexes_ok_def table_ok_def)

lemma thread_step_correct:
  assumes "mutexes_ok s" "i < length (threads s)" "threads s ! i = p" "thread_step i p s = Some (s', es)"
  shows "mutexes_ok s' \<and> lock_spec (mutexes_held s) es (mutexes_held s') \<and> (\<forall>l. Misused l \<in> set es \<longrightarrow> fatal s')"
proof (cases p)
  case Idle
  with assms show ?thesis by simp
next
  case (LockGlobal l)
  then have "s' = goto i (CheckEntry l) (s\<lparr>global_holder := Some i\<rparr>)" "es = []" "global_holder s = None"
    using assms(4) by (auto split: if_splits)
  with assms goto_ok[of s i "CheckEntry l" "Some i"] show ?thesis by (auto intro: spec_nil)
next
  case (CheckEntry l)
  let ?s1 = "if map_of (lock_table s) l = None
        then s\<lparr>lock_table := AList.update l (length (lock_bits s)) (lock_table s), lock_bits := lock_bits s @ [False]\<rparr> else s"
  have s': "s' = goto i (FetchLock l) ?s1" "es = []" using CheckEntry assms(4) by auto
  have k: "mutexes_ok ?s1" "mutexes_held ?s1 = mutexes_held s" "threads ?s1 = threads s" "map_of (lock_table ?s1) l \<noteq> None"
    using new_entry_ok[OF assms(1)] new_entry_held[OF assms(1)] assms(1) by (auto simp: update_conv')
  have "mutexes_ok s'" unfolding s' using k assms CheckEntry by (intro goto_ok_same) auto
  with s' k show ?thesis by (auto intro: spec_nil)
next
  case (FetchLock l)
  then obtain a where a: "map_of (lock_table s) l = Some a" using current_ok[OF assms(1-3)] by auto
  then have "s' = goto i (UnlockGlobal l a) s" "es = []" using FetchLock assms(4) by auto
  with a assms FetchLock goto_ok_same[of s i "UnlockGlobal l a"] show ?thesis by (auto intro: spec_nil)
next
  case (UnlockGlobal l a)
  then have s': "s' = goto i (LockNamed l a) (s\<lparr>global_holder := None\<rparr>)" "es = []" using assms(4) by auto
  have "global_holder s = Some i" using holder_iff[OF assms(1-3)] UnlockGlobal by simp
  then have "mutexes_ok s'" unfolding s' using current_ok[OF assms(1-3)] UnlockGlobal assms by (intro goto_ok) auto
  with s' show ?thesis by (auto intro: spec_nil)
next
  case (LockNamed l a)
  then have s': "s' = goto i Idle (s\<lparr>lock_bits := (lock_bits s)[a := True]\<rparr>)" "es = [Acquired l]" "\<not> lock_bits s ! a"
    using assms(4) by (auto split: if_splits)
  have a: "map_of (lock_table s) l = Some a" using current_ok[OF assms(1-3)] LockNamed by simp
  have "mutexes_ok s'" unfolding s' using assms LockNamed bits_ok[OF assms(1)] by (intro goto_ok_same) auto
  moreover have "l \<notin> mutexes_held s" using a s'(3) by (simp add: mutexes_held_def)
  ultimately show ?thesis using s' bit_held[OF assms(1) a, of True] by (auto intro: lock_spec.intros)
next
  case (UnlockLockGlobal l)
  then have "s' = goto i (CheckUnlock l) (s\<lparr>global_holder := Some i\<rparr>)" "es = []" "global_holder s = None"
    using assms(4) by (auto split: if_splits)
  with assms goto_ok[of s i "CheckUnlock l" "Some i"] show ?thesis by (auto intro: spec_nil)
next
  case (CheckUnlock l)
  show ?thesis
  proof (cases "map_of (lock_table s) l")
    case None
    then have s': "s' = goto i (DeferUnlock l) s" "es = [Unknown l]" using CheckUnlock assms(4) by auto
    have "mutexes_ok s'" unfolding s' using assms CheckUnlock by (intro goto_ok_same) auto
    moreover have "l \<notin> mutexes_held s" using None by (simp add: mutexes_held_def)
    ultimately show ?thesis using s' by (auto intro: lock_spec.intros)
  next
    case (Some a)
    then have s': "s' = goto i (UnlockNamed l) s" "es = []" using CheckUnlock assms(4) by auto
    have "mutexes_ok s'" unfolding s' using assms CheckUnlock Some by (intro goto_ok_same) auto
    then show ?thesis using s' by (auto intro: spec_nil)
  qed
next
  case (UnlockNamed l)
  then obtain a where a: "map_of (lock_table s) l = Some a" using current_ok[OF assms(1-3)] by auto
  show ?thesis
  proof (cases "lock_bits s ! a")
    case True
    then have s': "s' = goto i (DeferUnlock l) (s\<lparr>lock_bits := (lock_bits s)[a := False]\<rparr>)" "es = [Released l]"
      using a UnlockNamed assms(4) by auto
    have "mutexes_ok s'" unfolding s' using assms UnlockNamed bits_ok[OF assms(1)] by (intro goto_ok_same) auto
    moreover have "l \<in> mutexes_held s" using a True by (simp add: mutexes_held_def)
    ultimately show ?thesis using s' bit_held[OF assms(1) a, of False] by (auto intro: lock_spec.intros)
  next
    case False
    then have s': "s' = s\<lparr>fatal := True\<rparr>" "es = [Misused l]" using a UnlockNamed assms(4) by auto
    have "l \<notin> mutexes_held s" using a False by (simp add: mutexes_held_def)
    with s' fatal_ok[OF assms(1)] show ?thesis by (auto intro: lock_spec.intros)
  qed
next
  case (DeferUnlock l)
  then have s': "s' = goto i Idle (s\<lparr>global_holder := None\<rparr>)" "es = []" using assms(4) by auto
  have "global_holder s = Some i" using holder_iff[OF assms(1-3)] DeferUnlock by simp
  then have "mutexes_ok s'" unfolding s' using assms by (intro goto_ok) auto
  with s' show ?thesis by (auto intro: spec_nil)
qed

lemma mutex_step_correct:
  assumes "mutexes_ok s" "mutex_step lab s = Some (s', es)"
  shows "mutexes_ok s' \<and> lock_spec (mutexes_held s) es (mutexes_held s') \<and> (\<forall>l. Misused l \<in> set es \<longrightarrow> fatal s')"
proof (cases lab)
  case (CallLock i l)
  then have "s' = goto i (LockGlobal l) s" "es = []" "i < length (threads s)" "threads s ! i = Idle"
    using assms(2) by (auto simp: mutex_step_def split: if_splits)
  with assms(1) goto_ok_same[of s i "LockGlobal l"] show ?thesis by (auto intro: spec_nil)
next
  case (CallUnlock i l)
  then have "s' = goto i (UnlockLockGlobal l) s" "es = []" "i < length (threads s)" "threads s ! i = Idle"
    using assms(2) by (auto simp: mutex_step_def split: if_splits)
  with assms(1) goto_ok_same[of s i "UnlockLockGlobal l"] show ?thesis by (auto intro: spec_nil)
next
  case (Step i)
  then have "i < length (threads s)" "thread_step i (threads s ! i) s = Some (s', es)"
    using assms(2) by (auto simp: mutex_step_def split: if_splits)
  with thread_step_correct[OF assms(1)] show ?thesis by blast
qed

interpretation mutex_table: lock_implementation mutexes_ok mutexes_held "\<lambda>s. \<not> fatal s" any_thread_step
proof (unfold_locales, goal_cases)
  case (4 s es s')
  then show ?case by (simp add: any_thread_step_def mutex_step_def)
qed (auto simp: any_thread_step_def dest: mutex_step_correct)

section \<open>Properties\<close>

text \<open>
  C3. However the statements of any number of concurrent \<^verbatim>\<open>GlobalMutexLock\<close> and
  \<^verbatim>\<open>GlobalMutexUnlock\<close> actions interleave, what they do to the named locks is a run of the
  abstract table of locks, in which acquiring and releasing are single steps.
\<close>

theorem mutex_table_refines_locks:
  assumes "step_runs any_thread_step (no_locks n) es s"
  shows "lock_spec {} es (mutexes_held s)"
  using mutex_table.runs_implement[OF assms no_locks_ok(1)] no_locks_ok(2) by simp

definition lock_demo :: "thread_label list" where
  "lock_demo = [CallLock 0 ''a'', CallLock 1 ''a'', Step 0, Step 0, Step 0, Step 0, Step 1, Step 0, Step 1, Step 1, Step 1,
     CallUnlock 0 ''a'', Step 0, Step 0, Step 0, Step 1]"

fun exec_labels :: "thread_label list \<Rightarrow> mutexes \<Rightarrow> (mutexes \<times> lock_event list) option" where
  "exec_labels [] s = Some (s, [])"
| "exec_labels (lab # labs) s =
     (case mutex_step lab s of
        None \<Rightarrow> None
      | Some (s1, es) \<Rightarrow> (case exec_labels labs s1 of None \<Rightarrow> None | Some (s2, es') \<Rightarrow> Some (s2, es @ es')))"

lemma label_runs:
  "mutex_step lab s = Some (s1, es) \<Longrightarrow> step_runs any_thread_step s1 es' s' \<Longrightarrow> step_runs any_thread_step s (es @ es') s'"
  by (rule runs_step) (auto simp: any_thread_step_def)

lemma exec_labels_runs: "exec_labels labs s = Some (s', es) \<Longrightarrow> step_runs any_thread_step s es s'"
proof (induction labs arbitrary: s es)
  case (Cons lab labs)
  then obtain s1 es1 es2 where "mutex_step lab s = Some (s1, es1)" "exec_labels labs s1 = Some (s', es2)" "es = es1 @ es2"
    by (auto split: option.splits)
  with Cons.IH label_runs show ?case by blast
qed (simp add: runs_nil)

lemma lock_demo_runs:
  "\<exists>s. exec_labels lock_demo (no_locks 2) = Some (s, [Acquired ''a'', Released ''a'', Acquired ''a'']) \<and> mutexes_held s = {''a''}"
  by (simp add: lock_demo_def no_locks_def mutex_step_def goto_def eval_nat_numeral mutexes_held_def)

theorem mutex_table_refines_locks_witness:
  "lock_spec {} [Acquired ''a'', Released ''a'', Acquired ''a''] {''a''}"
  using lock_demo_runs exec_labels_runs mutex_table_refines_locks by metis

text \<open>
  C16. Mutual exclusion: in every interleaving a named lock has been acquired exactly once more
  than released while somebody holds it, and equally often while nobody does, so it never has
  two holders.
\<close>

theorem named_locks_exclude:
  assumes "step_runs any_thread_step (no_locks n) es s"
  shows "int (count_list es (Acquired l)) = int (count_list es (Released l)) + (if l \<in> mutexes_held s then 1 else 0)"
  using mutex_table.mutual_exclusion[OF assms no_locks_ok, of l] by simp

theorem named_locks_exclude_witness:
  "\<exists>s. step_runs any_thread_step (no_locks 2) [Acquired ''a'', Released ''a'', Acquired ''a''] s \<and> ''a'' \<in> mutexes_held s
    \<and> count_list [Acquired ''a'', Released ''a'', Acquired ''a''] (Acquired ''a'') = 2"
proof -
  obtain s where r: "step_runs any_thread_step (no_locks 2) [Acquired ''a'', Released ''a'', Acquired ''a''] s"
    using lock_demo_runs exec_labels_runs by metis
  have c: "count_list [Acquired ''a'', Released ''a'', Acquired ''a''] (Acquired ''a'') = 2"
    "count_list [Acquired ''a'', Released ''a'', Acquired ''a''] (Released ''a'') = 1" by simp_all
  have h: "''a'' \<in> mutexes_held s" using named_locks_exclude[OF r, of "''a''"] unfolding c by (simp split: if_splits)
  show ?thesis by (intro exI[of _ s] conjI r h c(1))
qed

section \<open>The table is never locked for long\<close>

fun steps_left :: "pc \<Rightarrow> nat" where
  "steps_left (CheckEntry l) = 3"
| "steps_left (FetchLock l) = 2"
| "steps_left (UnlockGlobal l a) = 1"
| "steps_left (CheckUnlock l) = 3"
| "steps_left (UnlockNamed l) = 2"
| "steps_left (DeferUnlock l) = 1"
| "steps_left _ = 0"

lemma holder_progress:
  assumes "mutexes_ok s" "\<not> fatal s" "global_holder s = Some i"
  shows "\<exists>s1 es. mutex_step (Step i) s = Some (s1, es) \<and>
    (fatal s1 \<or> global_holder s1 = None \<or> (global_holder s1 = Some i \<and> steps_left (threads s1 ! i) < steps_left (threads s ! i)))"
proof -
  have i: "i < length (threads s)" using assms by (auto simp: mutexes_ok_def)
  have "in_global (threads s ! i)" using holder_iff[OF assms(1) i refl] assms(3) by simp
  then show ?thesis
    using i assms(2,3) current_ok[OF assms(1) i refl]
    by (cases "threads s ! i") (auto simp: mutex_step_def split: option.splits)
qed

lemma holder_finishes:
  assumes "mutexes_ok s" "\<not> fatal s" "global_holder s = Some i" "steps_left (threads s ! i) \<le> n"
  shows "\<exists>k s' es. k \<le> Suc n \<and> exec_labels (replicate k (Step i)) s = Some (s', es) \<and> (fatal s' \<or> global_holder s' = None)"
  using assms
proof (induction n arbitrary: s)
  case 0
  then show ?case using holder_progress[OF 0(1-3)] by (fastforce intro!: exI[of _ "Suc 0"])
next
  case (Suc n)
  obtain s1 es where s1: "mutex_step (Step i) s = Some (s1, es)"
    "fatal s1 \<or> global_holder s1 = None \<or> (global_holder s1 = Some i \<and> steps_left (threads s1 ! i) < steps_left (threads s ! i))"
    using holder_progress[OF Suc.prems(1-3)] by blast
  show ?case
  proof (cases "fatal s1 \<or> global_holder s1 = None")
    case True
    with s1 show ?thesis by (intro exI[of _ "Suc 0"]) auto
  next
    case False
    with s1 Suc.prems(4) have h: "\<not> fatal s1" "global_holder s1 = Some i" "steps_left (threads s1 ! i) \<le> n" by auto
    have "mutexes_ok s1" using mutex_step_correct[OF Suc.prems(1) s1(1)] by blast
    then obtain k s' es' where "k \<le> Suc n" "exec_labels (replicate k (Step i)) s1 = Some (s', es')" "fatal s' \<or> global_holder s' = None"
      using Suc.IH h by blast
    with s1(1) show ?thesis by (intro exI[of _ "Suc k"]) auto
  qed
qed

text \<open>
  C17. Waiting for a named lock never blocks the table: a thread that waits does not hold
  \<^verbatim>\<open>GLOBAL_MUTEX\<close>, and the thread that holds it is never blocked; within four of its own
  statements it has released \<^verbatim>\<open>GLOBAL_MUTEX\<close>, or the process has ended by unlocking a mutex
  nobody holds.
\<close>

theorem global_mutex_is_released:
  assumes "step_runs any_thread_step (no_locks n) es s" "\<not> fatal s"
  shows "(\<forall>j l a. j < length (threads s) \<longrightarrow> threads s ! j = LockNamed l a \<longrightarrow> global_holder s \<noteq> Some j)
    \<and> (\<forall>i. global_holder s = Some i \<longrightarrow> (\<exists>k\<le>4. \<exists>s' es'. exec_labels (replicate k (Step i)) s = Some (s', es')
         \<and> (global_holder s' = None \<or> fatal s')))"
proof -
  have ok: "mutexes_ok s" using mutex_table.runs_implement[OF assms(1) no_locks_ok(1)] by blast
  have "steps_left p \<le> 3" for p by (cases p) auto
  then have "global_holder s = Some i \<Longrightarrow> \<exists>k\<le>4. \<exists>s' es'. exec_labels (replicate k (Step i)) s = Some (s', es')
      \<and> (global_holder s' = None \<or> fatal s')" for i
    using holder_finishes[OF ok assms(2), of i 3] by (auto simp: numeral_eq_Suc)
  moreover have "global_holder s \<noteq> Some j" if "j < length (threads s)" "threads s ! j = LockNamed l a" for j l a
    using holder_iff[OF ok that] by simp
  ultimately show ?thesis by blast
qed

theorem global_mutex_is_released_witness:
  "\<exists>s. global_holder s = Some 1 \<and> (\<exists>k\<le>4. \<exists>s' es'. exec_labels (replicate k (Step 1)) s = Some (s', es')
     \<and> (global_holder s' = None \<or> fatal s'))"
proof -
  let ?labs = "[CallLock 0 ''a'', CallLock 1 ''a'', Step 1, Step 1]"
  obtain s es where e: "exec_labels ?labs (no_locks 2) = Some (s, es)" "global_holder s = Some 1" "\<not> fatal s"
    by (simp add: no_locks_def mutex_step_def goto_def eval_nat_numeral)
  from global_mutex_is_released[OF exec_labels_runs[OF e(1)] e(3)] e(2) show ?thesis by blast
qed

end
