(* ===== verification/Services.thy ===== *)
theory Services
  imports World
begin

text \<open>
  The registries of services a server loads at its start: \<^verbatim>\<open>services.go\<close> and
  \<^verbatim>\<open>background_services.go\<close> of \<^verbatim>\<open>pkg/actions\<close>. The two managers differ in the table they fill, in
  the switch \<^verbatim>\<open>ENABLED_BACKGROUND_SERVICES\<close>, and in that background services are run.
\<close>

section \<open>Declarations\<close>

record ServiceDeclaration =
  sd_Name :: string
  sd_Type :: string
  sd_Config :: gmap

text \<open>What \<^verbatim>\<open>yaml.Unmarshal\<close> made of the file, as the struct the code reads.\<close>

fun as_gmap :: "gval \<Rightarrow> gmap" where
  "as_gmap (GMapS m) = m"
| "as_gmap _ = []"

definition declaration_of :: "gval \<Rightarrow> ServiceDeclaration" where
  "declaration_of v =
     \<lparr>sd_Name = as_string (gfield ''name'' v), sd_Type = as_string (gfield ''type'' v), sd_Config = as_gmap (gfield ''config'' v)\<rparr>"

definition declarations_of :: "gval \<Rightarrow> ServiceDeclaration list" where
  "declarations_of v = map declaration_of (as_list (gfield ''services'' v))"

text \<open>A constructor of \<^verbatim>\<open>SERVICE_TYPES\<close> or \<^verbatim>\<open>BACKGROUND_SERVICE_TYPES\<close>.\<close>

type_synonym constructor = "string \<Rightarrow> gmap \<Rightarrow> service prog"

section \<open>The service manager\<close>

definition ServiceManager_Register :: "service \<Rightarrow> unit prog" where
  "ServiceManager_Register s =
     sbind (env pr_services) (\<lambda>services.
       if map_of services (sv_name s) \<noteq> None then lift_out (Err (EText ''service already registered''))
       else sbind (print_out (''Registering service '' @ sv_name s @ '' of type '' @ sv_type s)) (\<lambda>_.
         change (\<lambda>w. w\<lparr>pr_services := AList.update (sv_name s) s (pr_services w)\<rparr>)))"

definition ServiceManager_Get :: "string \<Rightarrow> service prog" where
  "ServiceManager_Get n =
     sbind (env pr_services) (\<lambda>services.
       case map_of services n of
         None \<Rightarrow> lift_out (Err (EText ''service not found''))
       | Some s \<Rightarrow> sret s)"

fun load_services :: "(string \<Rightarrow> constructor option) \<Rightarrow> ServiceDeclaration list \<Rightarrow> unit prog" where
  "load_services types [] = sret ()"
| "load_services types (d # ds) =
     (case types (sd_Type d) of
        None \<Rightarrow> lift_out (Err (EText (''service type not found: '' @ sd_Type d)))
      | Some mk \<Rightarrow>
          sbind (mk (sd_Name d) (sd_Config d)) (\<lambda>s.
          sbind (ServiceManager_Register s) (\<lambda>_. load_services types ds)))"

definition ServiceManager_LoadFromFile :: "(string \<Rightarrow> constructor option) \<Rightarrow> string \<Rightarrow> unit prog" where
  "ServiceManager_LoadFromFile types path =
     sbind (lib ''os.ReadFile'' [GStr path]) (\<lambda>data.
     sbind (lib ''yaml.Unmarshal'' [data]) (\<lambda>config. load_services types (declarations_of config)))"

section \<open>The background service manager\<close>

definition BackgroundServiceManager_Register :: "service \<Rightarrow> unit prog" where
  "BackgroundServiceManager_Register s =
     sbind (env pr_background) (\<lambda>services.
       if map_of services (sv_name s) \<noteq> None then lift_out (Err (EText ''service already registered''))
       else sbind (print_out (''Registering background service '' @ sv_name s @ '' of type '' @ sv_type s)) (\<lambda>_.
         change (\<lambda>w. w\<lparr>pr_background := AList.update (sv_name s) s (pr_background w)\<rparr>)))"

fun load_background :: "(string \<Rightarrow> constructor option) \<Rightarrow> (string \<Rightarrow> bool) \<Rightarrow> ServiceDeclaration list \<Rightarrow> unit prog" where
  "load_background types enabled [] = sret ()"
| "load_background types enabled (d # ds) =
     (if \<not> enabled (sd_Name d) then load_background types enabled ds
      else case types (sd_Type d) of
        None \<Rightarrow> lift_out (Err (EText (''background service type not found: '' @ sd_Type d)))
      | Some mk \<Rightarrow>
          sbind (mk (sd_Name d) (sd_Config d)) (\<lambda>s.
          sbind (BackgroundServiceManager_Register s) (\<lambda>_. load_background types enabled ds)))"

definition BackgroundServiceManager_LoadFromFile :: "(string \<Rightarrow> constructor option) \<Rightarrow> string \<Rightarrow> unit prog" where
  "BackgroundServiceManager_LoadFromFile types path =
     sbind (env (\<lambda>w. pr_env w ''ENABLED_BACKGROUND_SERVICES'')) (\<lambda>enabledServices.
       if enabledServices = [] then sret ()
       else
         let names = split_char (CHR '','') enabledServices in
         sbind (lib ''os.ReadFile'' [GStr path]) (\<lambda>data.
         sbind (lib ''yaml.Unmarshal'' [data]) (\<lambda>config.
           load_background types (\<lambda>n. n \<in> set names) (declarations_of config))))"

text \<open>
  \<^verbatim>\<open>Run\<close> starts one goroutine per service, in the order in which ranging over the map meets
  them, which the environment gives; the body of a goroutine reports the error its service
  ends with.
\<close>

definition BackgroundServiceManager_Run :: "((string \<times> service) list \<Rightarrow> string list) \<Rightarrow> unit prog" where
  "BackgroundServiceManager_Run order =
     sbind (env pr_background) (\<lambda>services. change (\<lambda>w. w\<lparr>pr_started := pr_started w @ order services\<rparr>))"

definition background_goroutine :: "(service \<Rightarrow> unit prog) \<Rightarrow> service \<Rightarrow> unit prog" where
  "background_goroutine run_service s =
     on_err (run_service s) (\<lambda>e. print_out (''service '' @ sv_name s @ '' failed to run: '' @ error_text e))"

section \<open>What both registries promise\<close>

text \<open>The loop of both managers: \<open>reg\<close> registers, \<open>missing\<close> starts the error for an unknown type.\<close>

fun load_with :: "(service \<Rightarrow> unit prog) \<Rightarrow> string \<Rightarrow> (string \<Rightarrow> constructor option) \<Rightarrow> ServiceDeclaration list \<Rightarrow> unit prog" where
  "load_with reg missing types [] = sret ()"
| "load_with reg missing types (d # ds) =
     (case types (sd_Type d) of
        None \<Rightarrow> lift_out (Err (EText (missing @ sd_Type d)))
      | Some mk \<Rightarrow>
          sbind (mk (sd_Name d) (sd_Config d)) (\<lambda>s. sbind (reg s) (\<lambda>_. load_with reg missing types ds)))"

lemma load_services_with:
  "load_services types ds = load_with ServiceManager_Register ''service type not found: '' types ds"
  by (induction ds) (auto split: option.split)

lemma load_background_with:
  "load_background types enabled ds =
     load_with BackgroundServiceManager_Register ''background service type not found: '' types (filter (\<lambda>d. enabled (sd_Name d)) ds)"
  by (induction ds) (auto split: option.split)

text \<open>A table of constructors that leave the registry alone and whose objects carry the name and type declared.\<close>

definition constructs :: "(process \<Rightarrow> (string \<times> service) list) \<Rightarrow> (string \<Rightarrow> constructor option) \<Rightarrow> bool" where
  "constructs entries types \<longleftrightarrow> (\<forall>t c n m w w' r. types t = Some c \<longrightarrow> c n m w = (w', r) \<longrightarrow>
     entries w' = entries w \<and> (\<forall>s. r = Ret s \<longrightarrow> sv_name s = n \<and> sv_type s = t))"

definition declared :: "(string \<Rightarrow> service option) \<Rightarrow> ServiceDeclaration \<Rightarrow> bool" where
  "declared t d \<longleftrightarrow> (\<exists>s. t (sd_Name d) = Some s \<and> sv_type s = sd_Type d)"

lemma sbind_Ret_cases:
  assumes "sbind m f w = (w', Ret y)"
  obtains x w1 where "m w = (w1, Ret x)" "f x w1 = (w', Ret y)"
  using assms by (cases "m w"; cases "snd (m w)") (auto simp: sbind_def)

text \<open>A registry: the table a manager fills and its \<^verbatim>\<open>Register\<close>.\<close>

locale service_registry =
  fixes register :: "service \<Rightarrow> unit prog" and entries :: "process \<Rightarrow> (string \<times> service) list"
  assumes register_new: "map_of (entries w) (sv_name s) = None \<Longrightarrow>
      snd (register s w) = Ret () \<and> map_of (entries (fst (register s w))) = (map_of (entries w))(sv_name s \<mapsto> s)"
    and register_taken: "map_of (entries w) (sv_name s) \<noteq> None \<Longrightarrow>
      snd (register s w) = Err (EText ''service already registered'') \<and> entries (fst (register s w)) = entries w"
begin

lemma register_Ret: "register s w = (w', Ret ()) \<Longrightarrow>
    map_of (entries w) (sv_name s) = None \<and> map_of (entries w') = (map_of (entries w))(sv_name s \<mapsto> s)"
  using register_new[of w s] register_taken[of w s] by (cases "map_of (entries w) (sv_name s)") auto

lemma loaded:
  assumes "constructs entries types" "load_with register missing types ds w = (w', Ret ())"
  shows "map_of (entries w) \<subseteq>\<^sub>m map_of (entries w') \<and> distinct (map sd_Name ds)
    \<and> dom (map_of (entries w')) = dom (map_of (entries w)) \<union> sd_Name ` set ds
    \<and> dom (map_of (entries w)) \<inter> sd_Name ` set ds = {} \<and> (\<forall>d\<in>set ds. declared (map_of (entries w')) d)"
  using assms(2)
proof (induction ds arbitrary: w)
  case Nil
  then show ?case by (simp add: sret_def)
next
  case (Cons d ds)
  obtain c where c: "types (sd_Type d) = Some c" using Cons.prems by (cases "types (sd_Type d)") (auto simp: lift_out_def)
  with Cons.prems have "sbind (c (sd_Name d) (sd_Config d)) (\<lambda>s. sbind (register s) (\<lambda>_. load_with register missing types ds)) w
      = (w', Ret ())" by simp
  then obtain w1 w2 s where s: "c (sd_Name d) (sd_Config d) w = (w1, Ret s)"
    and r: "register s w1 = (w2, Ret ())" and l: "load_with register missing types ds w2 = (w', Ret ())"
    by (elim sbind_Ret_cases) auto
  have k: "entries w1 = entries w" "sv_name s = sd_Name d" "sv_type s = sd_Type d"
    using assms(1) c s unfolding constructs_def by blast+
  note n = register_Ret[OF r, unfolded k(1,2)]
  note ih = Cons.IH[OF l]
  have m: "map_of (entries w2) = (map_of (entries w))(sd_Name d \<mapsto> s)" and fresh: "map_of (entries w) (sd_Name d) = None"
    using n by blast+
  have le: "map_of (entries w2) \<subseteq>\<^sub>m map_of (entries w')" using ih by blast
  have "map_of (entries w2) (sd_Name d) = Some s" unfolding m by simp
  then have "map_of (entries w') (sd_Name d) = Some s" using le unfolding map_le_def by (metis domI)
  with k(3) have d: "declared (map_of (entries w')) d" unfolding declared_def by blast
  have "map_of (entries w) \<subseteq>\<^sub>m map_of (entries w2)"
    unfolding m map_le_def using fresh by auto
  then have le': "map_of (entries w) \<subseteq>\<^sub>m map_of (entries w')" using le by (rule map_le_trans)
  have dw2: "dom (map_of (entries w2)) = insert (sd_Name d) (dom (map_of (entries w)))" unfolding m by simp
  have "dom (map_of (entries w2)) \<inter> sd_Name ` set ds = {}" using ih by blast
  then have "sd_Name d \<notin> sd_Name ` set ds" "dom (map_of (entries w)) \<inter> sd_Name ` set ds = {}" unfolding dw2 by blast+
  moreover have "sd_Name d \<notin> dom (map_of (entries w))" using fresh by (simp add: domIff)
  moreover have "dom (map_of (entries w')) = dom (map_of (entries w2)) \<union> sd_Name ` set ds"
    using ih by (elim conjE)
  moreover have "distinct (map sd_Name ds)" "\<forall>d\<in>set ds. declared (map_of (entries w')) d" using ih by blast+
  ultimately show ?case using le' d unfolding dw2 by auto
qed

lemma load_append:
  "load_with register missing types (before @ after) w =
     sbind (load_with register missing types before) (\<lambda>_. load_with register missing types after) w"
  by (induction before arbitrary: w) (auto simp: sbind_def sret_def lift_out_def split: option.split outcome.split prod.split)

text \<open>A name that is taken stops the loading; what is registered by then stays.\<close>

lemma duplicate_stops:
  assumes "constructs entries types" "load_with register missing types before w = (w1, Ret ())"
    and "types (sd_Type d) = Some c" "c (sd_Name d) (sd_Config d) w1 = (w2, Ret s)"
    and "sd_Name d \<in> dom (map_of (entries w1))"
  shows "\<exists>w3. load_with register missing types (before @ d # after) w = (w3, Err (EText ''service already registered''))
    \<and> entries w3 = entries w1"
proof -
  have k: "entries w2 = entries w1" "sv_name s = sd_Name d" using assms(1,3,4) unfolding constructs_def by blast+
  then have "snd (register s w2) = Err (EText ''service already registered'') \<and> entries (fst (register s w2)) = entries w2"
    using assms(5) by (intro register_taken) auto
  with assms k show ?thesis
    by (cases "register s w2") (simp add: load_append sbind_def)
qed

end

interpretation services: service_registry ServiceManager_Register pr_services
  by unfold_locales
    (auto simp: ServiceManager_Register_def env_def change_def lift_out_def print_out_def sbind_def update_conv')

interpretation background: service_registry BackgroundServiceManager_Register pr_background
  by unfold_locales
    (auto simp: BackgroundServiceManager_Register_def env_def change_def lift_out_def print_out_def sbind_def update_conv')

section \<open>Properties\<close>

text \<open>
  A services file that loads without an error leaves exactly the declared services in the
  registry, under distinct names and each with the type it is declared with, and \<^verbatim>\<open>Get\<close> finds
  each of them and nothing else.
\<close>

theorem services_loaded:
  assumes "constructs pr_services types" "pr_services w = []"
    and "pr_answers w (length (pr_calls w)) = Ret data" "pr_answers w (Suc (length (pr_calls w))) = Ret config"
    and "ServiceManager_LoadFromFile types path w = (w', Ret ())"
  shows "distinct (map sd_Name (declarations_of config))
    \<and> (\<forall>n. (\<exists>s. ServiceManager_Get n w' = (w', Ret s)) \<longleftrightarrow> n \<in> sd_Name ` set (declarations_of config))
    \<and> (\<forall>d\<in>set (declarations_of config). \<exists>s. ServiceManager_Get (sd_Name d) w' = (w', Ret s) \<and> sv_type s = sd_Type d)"
proof -
  let ?w = "w\<lparr>pr_calls := pr_calls w @ [(''os.ReadFile'', [GStr path]), (''yaml.Unmarshal'', [data])]\<rparr>"
  have "load_services types (declarations_of config) ?w = (w', Ret ())"
    using assms(3-5) by (simp add: ServiceManager_LoadFromFile_def sbind_def lib_def)
  note l = services.loaded[OF assms(1) this[unfolded load_services_with]]
  have get: "ServiceManager_Get n w' = (w', case map_of (pr_services w') n of None \<Rightarrow> Err (EText ''service not found'') | Some s \<Rightarrow> Ret s)" for n
    by (simp add: ServiceManager_Get_def sbind_def env_def lift_out_def sret_def split: option.split)
  have dom': "dom (map_of (pr_services w')) = sd_Name ` set (declarations_of config)" using l assms(2) by simp
  have "(\<exists>s. ServiceManager_Get n w' = (w', Ret s)) \<longleftrightarrow> n \<in> dom (map_of (pr_services w'))" for n
    unfolding get by (auto split: option.split)
  moreover have "\<exists>s. ServiceManager_Get (sd_Name d) w' = (w', Ret s) \<and> sv_type s = sd_Type d" if "d \<in> set (declarations_of config)" for d
    using l that unfolding get declared_def by fastforce
  ultimately show ?thesis using l dom' by blast
qed

definition demo_types :: "string \<Rightarrow> constructor option" where
  "demo_types t = (if t = ''redis'' then
     Some (\<lambda>n m. sret \<lparr>sv_name = n, sv_type = ''redis'', sv_config = m, sv_handle = GNil\<rparr>) else None)"

lemma demo_types_construct: "constructs pr_services demo_types" "constructs pr_background demo_types"
  by (auto simp: constructs_def demo_types_def sret_def split: if_splits)

definition demo_file :: gval where
  "demo_file = GMapS [(''services'', GList
     [GMapS [(''name'', GStr ''cache''), (''type'', GStr ''redis'')], GMapS [(''name'', GStr ''queue''), (''type'', GStr ''redis'')]])]"

text \<open>
  C26. Background services run only on request: without \<^verbatim>\<open>ENABLED_BACKGROUND_SERVICES\<close> the file is
  not even read, and otherwise a load without an error registers exactly the declared services
  whose names are in the comma-separated list, whatever the rest of the file says.
\<close>

theorem background_enabled_only:
  assumes "constructs pr_background types" "pr_background w = []"
    and "pr_answers w (length (pr_calls w)) = Ret data" "pr_answers w (Suc (length (pr_calls w))) = Ret config"
    and "BackgroundServiceManager_LoadFromFile types path w = (w', Ret ())"
  shows "if pr_env w ''ENABLED_BACKGROUND_SERVICES'' = [] then w' = w
    else dom (map_of (pr_background w')) =
      {n. \<exists>d\<in>set (declarations_of config). sd_Name d = n \<and> n \<in> set (split_char (CHR '','') (pr_env w ''ENABLED_BACKGROUND_SERVICES''))}"
proof (cases "pr_env w ''ENABLED_BACKGROUND_SERVICES'' = []")
  case True
  with assms(5) show ?thesis by (simp add: BackgroundServiceManager_LoadFromFile_def sbind_def env_def sret_def)
next
  case False
  let ?on = "\<lambda>n. n \<in> set (split_char (CHR '','') (pr_env w ''ENABLED_BACKGROUND_SERVICES''))"
  let ?w = "w\<lparr>pr_calls := pr_calls w @ [(''os.ReadFile'', [GStr path]), (''yaml.Unmarshal'', [data])]\<rparr>"
  have "load_background types ?on (declarations_of config) ?w = (w', Ret ())"
    using assms(3-5) False by (simp add: BackgroundServiceManager_LoadFromFile_def sbind_def lib_def env_def Let_def)
  note l = background.loaded[OF assms(1) this[unfolded load_background_with]]
  with assms(2) False show ?thesis by auto
qed

theorem background_enabled_only_witness:
  "\<exists>w'. BackgroundServiceManager_LoadFromFile demo_types ''f''
      (idle_process\<lparr>pr_answers := \<lambda>k. Ret demo_file, pr_env := \<lambda>_. ''queue,other''\<rparr>) = (w', Ret ())
     \<and> dom (map_of (pr_background w')) = {''queue''}"
proof -
  let ?w = "idle_process\<lparr>pr_answers := \<lambda>k. Ret demo_file, pr_env := \<lambda>_. ''queue,other''\<rparr>"
  have s: "split_char (CHR '','') ''queue,other'' = [''queue'', ''other'']" by simp
  obtain w' where e: "BackgroundServiceManager_LoadFromFile demo_types ''f'' ?w = (w', Ret ())"
    by (simp add: BackgroundServiceManager_LoadFromFile_def sbind_def lib_def declarations_of_def declaration_of_def demo_file_def
        demo_types_def BackgroundServiceManager_Register_def env_def change_def print_out_def sret_def Let_def)
  have "dom (map_of (pr_background w')) = {n. \<exists>d\<in>set (declarations_of demo_file). sd_Name d = n \<and> n \<in> {''queue'', ''other''}}"
    using background_enabled_only[OF demo_types_construct(2) _ _ _ e, of demo_file demo_file] s by simp
  also have "\<dots> = {''queue''}" by (auto simp: demo_file_def declarations_of_def declaration_of_def)
  finally show ?thesis using e by blast
qed

end
