(* ===== verification/Sql.thy ===== *)
theory Sql
  imports World
begin

text \<open>
  The actions and services that query a database through \<^verbatim>\<open>database/sql\<close>: \<^verbatim>\<open>mysql_action.go\<close>,
  \<^verbatim>\<open>postgresql_action.go\<close>, \<^verbatim>\<open>mysql_service.go\<close> and \<^verbatim>\<open>postgresql_service.go\<close> of \<^verbatim>\<open>pkg/actions\<close>. The
  drivers are library calls; an open database is the value that \<^verbatim>\<open>sql.Open\<close> answers, and the nil
  handle is \<open>GNil\<close>.
\<close>

section \<open>Configs\<close>

record SqlConfig =
  sq_Host :: string
  sq_Port :: int
  sq_MaxOpen :: int
  sq_MaxIdle :: int
  sq_DBname :: string
  sq_User :: string
  sq_Password :: string
  sq_SSLMode :: string
  sq_AppName :: string
  sq_PeerService :: string
  sq_PeerNamespace :: string

record SqlQueryConfig = SqlConfig +
  sq_Query :: string
  sq_Repeat :: int

definition connection_fields :: "'r SqlConfig_scheme fields" where
  "connection_fields =
     [(''host'', fld dec_string sq_Host (\<lambda>v r. r\<lparr>sq_Host := v\<rparr>)),
      (''port'', fld dec_int sq_Port (\<lambda>v r. r\<lparr>sq_Port := v\<rparr>)),
      (''maxopen'', fld dec_int sq_MaxOpen (\<lambda>v r. r\<lparr>sq_MaxOpen := v\<rparr>)),
      (''maxidle'', fld dec_int sq_MaxIdle (\<lambda>v r. r\<lparr>sq_MaxIdle := v\<rparr>)),
      (''dbname'', fld dec_string sq_DBname (\<lambda>v r. r\<lparr>sq_DBname := v\<rparr>)),
      (''user'', fld dec_string sq_User (\<lambda>v r. r\<lparr>sq_User := v\<rparr>)),
      (''password'', fld dec_string sq_Password (\<lambda>v r. r\<lparr>sq_Password := v\<rparr>)),
      (''sslmode'', fld dec_string sq_SSLMode (\<lambda>v r. r\<lparr>sq_SSLMode := v\<rparr>)),
      (''appname'', fld dec_string sq_AppName (\<lambda>v r. r\<lparr>sq_AppName := v\<rparr>)),
      (''peer_service'', fld dec_string sq_PeerService (\<lambda>v r. r\<lparr>sq_PeerService := v\<rparr>)),
      (''peer_namespace'', fld dec_string sq_PeerNamespace (\<lambda>v r. r\<lparr>sq_PeerNamespace := v\<rparr>))]"

definition query_fields :: "SqlQueryConfig fields" where
  "query_fields =
     [(''query'', fld dec_string sq_Query (\<lambda>v r. r\<lparr>sq_Query := v\<rparr>)),
      (''repeat'', fld dec_int sq_Repeat (\<lambda>v r. r\<lparr>sq_Repeat := v\<rparr>))] @ connection_fields"

definition connection_zero :: SqlConfig where
  "connection_zero = \<lparr>sq_Host = [], sq_Port = 0, sq_MaxOpen = 0, sq_MaxIdle = 0, sq_DBname = [], sq_User = [], sq_Password = [],
     sq_SSLMode = [], sq_AppName = [], sq_PeerService = [], sq_PeerNamespace = []\<rparr>"

definition query_zero :: SqlQueryConfig where
  "query_zero = SqlConfig.extend connection_zero \<lparr>sq_Query = [], sq_Repeat = 0\<rparr>"

text \<open>\<^verbatim>\<open>x := d; if config.X != zero { x = config.X }\<close>\<close>

definition str_or :: "string \<Rightarrow> string \<Rightarrow> string" where
  "str_or d s = (if s \<noteq> [] then s else d)"

definition int_or :: "int \<Rightarrow> int \<Rightarrow> int" where
  "int_or d n = (if n \<noteq> 0 then n else d)"

definition mysql_dsn :: "'r SqlConfig_scheme \<Rightarrow> string" where
  "mysql_dsn c =
     str_or ''admin'' (sq_User c) @ '':'' @ str_or ''password'' (sq_Password c) @ ''@tcp('' @ str_or ''mysql'' (sq_Host c) @ '':''
     @ itoa (int_or 3306 (sq_Port c)) @ '')/'' @ str_or ''test'' (sq_DBname c) @ ''?tls='' @ str_or ''preferred'' (sq_SSLMode c)"

definition postgres_conn_str :: "string \<Rightarrow> int \<Rightarrow> string \<Rightarrow> string \<Rightarrow> string \<Rightarrow> string \<Rightarrow> string \<Rightarrow> string" where
  "postgres_conn_str host port user dbname password sslmode appname =
     ''host='' @ host @ '' port='' @ itoa port @ '' user='' @ user @ '' dbname='' @ dbname @ '' password='' @ password
     @ '' sslmode='' @ sslmode @ '' application_name='' @ appname"

definition postgres_action_dsn :: "'r SqlConfig_scheme \<Rightarrow> string" where
  "postgres_action_dsn c = postgres_conn_str (str_or ''postgres'' (sq_Host c)) (int_or 5432 (sq_Port c))
     (str_or ''postgres'' (sq_User c)) (str_or ''postgres'' (sq_DBname c)) (str_or ''postgres'' (sq_Password c))
     (str_or ''disable'' (sq_SSLMode c)) (str_or ''chaosmania'' (sq_AppName c))"

text \<open>The service gives the two middle arguments in the other order.\<close>

definition postgres_service_dsn :: "'r SqlConfig_scheme \<Rightarrow> string" where
  "postgres_service_dsn c = postgres_conn_str (str_or ''postgres'' (sq_Host c)) (int_or 5432 (sq_Port c))
     (str_or ''postgres'' (sq_DBname c)) (str_or ''postgres'' (sq_User c)) (str_or ''postgres'' (sq_Password c))
     (str_or ''disable'' (sq_SSLMode c)) (str_or ''chaosmania'' (sq_AppName c))"

section \<open>Opening a database\<close>

text \<open>
  The \<^verbatim>\<open>sync.Once\<close> around \<^verbatim>\<open>otelsql.Register\<close>: the first call registers the driver and keeps its
  name unless that fails, and no later call tries again. The result is the error of this call.
\<close>

definition register_once :: "string \<Rightarrow> gval list \<Rightarrow> gerror option prog" where
  "register_once driver opts =
     sbind (env pr_sql_drivers) (\<lambda>drivers.
       if map_of drivers driver \<noteq> None then sret None
       else
         sbind (change (\<lambda>w. w\<lparr>pr_sql_drivers := AList.update driver [] (pr_sql_drivers w)\<rparr>)) (\<lambda>_.
         on_err
           (sbind (lib ''otelsql.Register'' (GStr driver # opts)) (\<lambda>dn.
            sbind (change (\<lambda>w. w\<lparr>pr_sql_drivers := AList.update driver (as_string dn) (pr_sql_drivers w)\<rparr>)) (\<lambda>_. sret None)))
           (\<lambda>e. sret (Some e))))"

definition driver_name :: "string \<Rightarrow> process \<Rightarrow> string" where
  "driver_name driver w = (case map_of (pr_sql_drivers w) driver of None \<Rightarrow> [] | Some dn \<Rightarrow> dn)"

definition open_registered :: "string \<Rightarrow> string \<Rightarrow> gval list \<Rightarrow> gval prog" where
  "open_registered driver dsn opts =
     sbind (register_once driver opts) (\<lambda>err.
     sbind (env (driver_name driver)) (\<lambda>name.
       if name = [] \<or> err \<noteq> None then (case err of None \<Rightarrow> sret GNil | Some e \<Rightarrow> lift_out (Err e))
       else lib ''sql.Open'' [GStr name, GStr dsn]))"

definition openMysql :: "string \<Rightarrow> string \<Rightarrow> int \<Rightarrow> string \<Rightarrow> gval prog" where
  "openMysql dsn host port dbname = open_registered ''mysql'' dsn [GStr dbname, GStr host, GInt port]"

definition openPostgres :: "string \<Rightarrow> string \<Rightarrow> int \<Rightarrow> string \<Rightarrow> gval prog" where
  "openPostgres dsn host port dbname = open_registered ''postgres'' dsn [GStr dbname, GStr host, GInt port]"

text \<open>A method of a database that is nil panics.\<close>

definition db_call :: "string \<Rightarrow> gval \<Rightarrow> gval list \<Rightarrow> unit prog" where
  "db_call f db args = (if db = GNil then lift_out (Panic NilDereference) else call0 f (db # args))"

section \<open>Rows\<close>

text \<open>\<^verbatim>\<open>for rows.Next() { ... }\<close>, with the variable the body changes.\<close>

definition rows_pass :: "string \<Rightarrow> gval \<Rightarrow> ('a \<Rightarrow> 'a prog) \<Rightarrow> process \<times> 'a \<Rightarrow> (process \<times> 'a, process \<times> 'a outcome) ctl" where
  "rows_pass next_row rows body wx =
     (case lib0 next_row [rows] (fst wx) of
        (w1, Ret v) \<Rightarrow>
          if as_bool v then
            (case body (snd wx) w1 of
               (w2, Ret y) \<Rightarrow> Continue (w2, y)
             | (w2, Err e) \<Rightarrow> Stop (w2, Err e)
             | (w2, Panic p) \<Rightarrow> Stop (w2, Panic p))
          else Stop (w1, Ret (snd wx))
      | (w1, Err e) \<Rightarrow> Stop (w1, Err e)
      | (w1, Panic p) \<Rightarrow> Stop (w1, Panic p))"

definition each_row :: "string \<Rightarrow> gval \<Rightarrow> ('a \<Rightarrow> 'a prog) \<Rightarrow> 'a \<Rightarrow> 'a prog" where
  "each_row next_row rows body x w = (case loop (rows_pass next_row rows body) (w, x) of None \<Rightarrow> (w, Panic Blocked) | Some r \<Rightarrow> r)"

text \<open>
  The line \<^verbatim>\<open>column: value\<close> for every column is written with \<^verbatim>\<open>Debug\<close>, below the level of the
  logger; only the column is modelled.
\<close>

fun debug_columns :: "gval list \<Rightarrow> unit prog" where
  "debug_columns [] = sret ()"
| "debug_columns (col # cols) = sbind (say Debug (as_string col @ '': '')) (\<lambda>_. debug_columns cols)"

section \<open>The actions\<close>

text \<open>One query of \<^verbatim>\<open>MysqlQuery\<close>: columns that cannot be listed and rows that cannot be scanned are logged only.\<close>

definition mysql_query_once :: "gval \<Rightarrow> string \<Rightarrow> unit prog" where
  "mysql_query_once db query =
     sbind time_Now (\<lambda>now.
     sbind (or_warn ''failed to execute query'' (lib ''DB.QueryContext'' [db, GStr query])) (\<lambda>rows.
     sbind (warn_only Error ''failed to list columns'' (lib ''Rows.Columns'' [rows])) (\<lambda>cols.
     sbind (each_row ''Rows.Next'' rows (\<lambda>_.
        sbind (warn_only Error ''failed to scan row'' (lib ''Rows.Scan'' [rows, GInt (int (length (as_list cols)))])) (\<lambda>_.
        debug_columns (as_list cols))) ()) (\<lambda>_.
     sbind time_Now (\<lambda>_. call0 ''MYDBQueryHistogram.Observe'' [])))))"

definition MysqlQuery_Execute :: "gmap \<Rightarrow> unit prog" where
  "MysqlQuery_Execute cfg =
     sbind (parse_warn query_fields query_zero cfg) (\<lambda>config.
       let repeat = int_or 1 (sq_Repeat config) in
     sbind (or_warn ''failed to connect to DB''
        (openMysql (mysql_dsn config) (str_or ''mysql'' (sq_Host config)) (int_or 3306 (sq_Port config)) (str_or ''test'' (sq_DBname config)))) (\<lambda>db.
     sbind (db_call ''DB.SetConnMaxLifetime'' db [GInt 180000000000]) (\<lambda>_.
     sbind (db_call ''DB.SetMaxOpenConns'' db [GInt (int_or 0 (sq_MaxOpen config))]) (\<lambda>_.
     sbind (db_call ''DB.SetConnMaxIdleTime'' db [GInt 10000000000]) (\<lambda>_.
     sbind (db_call ''DB.SetMaxIdleConns'' db [GInt (int_or 0 (sq_MaxIdle config))]) (\<lambda>_.
     deferred (db_call ''DB.Close'' db []) (repeat_times (nat repeat) (mysql_query_once db (sq_Query config)))))))))"

text \<open>One query of \<^verbatim>\<open>PostgresqlQuery\<close>: every error ends the action.\<close>

definition postgres_query_once :: "gval \<Rightarrow> string \<Rightarrow> unit prog" where
  "postgres_query_once db query =
     sbind time_Now (\<lambda>now.
     sbind (or_warn ''failed to execute query'' (lib ''DB.QueryContext'' [db, GStr query])) (\<lambda>rows.
     sbind (or_log Error ''failed to list columns'' (lib ''Rows.Columns'' [rows])) (\<lambda>cols.
     sbind (each_row ''Rows.Next'' rows (\<lambda>_.
        sbind (or_log Error ''failed to scan row'' (lib ''Rows.Scan'' [rows, GInt (int (length (as_list cols)))])) (\<lambda>_.
        debug_columns (as_list cols))) ()) (\<lambda>_.
     sbind time_Now (\<lambda>_. call0 ''PQDBQueryHistogram.Observe'' [])))))"

definition open_postgres_traced :: "'r SqlConfig_scheme \<Rightarrow> string \<Rightarrow> gval prog" where
  "open_postgres_traced config connStr =
     sbind (env pr_env) (\<lambda>getenv.
       if IsDatadogEnabled getenv then lib ''sqltrace.Open'' [GStr ''postgres'', GStr connStr, GStr (sq_PeerService config)]
       else openPostgres connStr (str_or ''postgres'' (sq_Host config)) (int_or 5432 (sq_Port config)) (str_or ''postgres'' (sq_DBname config)))"

definition PostgresqlQuery_Execute :: "gmap \<Rightarrow> unit prog" where
  "PostgresqlQuery_Execute cfg =
     sbind (parse_warn query_fields query_zero cfg) (\<lambda>config.
       let repeat = int_or 1 (sq_Repeat config) in
     sbind (or_warn ''failed to connect to DB'' (open_postgres_traced config (postgres_action_dsn config))) (\<lambda>db.
     sbind (db_call ''DB.SetMaxOpenConns'' db [GInt (int_or 0 (sq_MaxOpen config))]) (\<lambda>_.
     sbind (db_call ''DB.SetMaxIdleConns'' db [GInt (int_or 0 (sq_MaxIdle config))]) (\<lambda>_.
     deferred (db_call ''DB.Close'' db []) (repeat_times (nat repeat) (postgres_query_once db (sq_Query config)))))))"

section \<open>The services\<close>

text \<open>A row as a map from column to value; a column that occurs twice keeps its last value.\<close>

fun make_row :: "gval list \<Rightarrow> gval list \<Rightarrow> gmap \<Rightarrow> gmap" where
  "make_row [] vals row = row"
| "make_row (col # cols) vals row =
     make_row cols (tl vals) (AList.update (as_string col) (case vals of [] \<Rightarrow> GNil | v # _ \<Rightarrow> v) row)"

text \<open>\<^verbatim>\<open>Query\<close>, the same for both services.\<close>

definition sql_service_Query :: "service \<Rightarrow> string \<Rightarrow> gmap list prog" where
  "sql_service_Query s query =
     sbind (or_warn ''failed to execute query'' (lib ''DB.QueryContext'' [sv_handle s, GStr query])) (\<lambda>rows.
     deferred (call0 ''Rows.Close'' [rows])
       (sbind (or_log Error ''failed to list columns'' (lib ''Rows.Columns'' [rows])) (\<lambda>cols.
        each_row ''Rows.Next'' rows (\<lambda>result.
          sbind (or_log Error ''failed to scan row'' (lib ''Rows.Scan'' [rows, GInt (int (length (as_list cols)))])) (\<lambda>vals.
          sret (result @ [make_row (as_list cols) (as_list vals) []]))) [])))"

definition MysqlService_Query :: "service \<Rightarrow> string \<Rightarrow> gmap list prog" where
  "MysqlService_Query = sql_service_Query"

definition PostgresqlService_Query :: "service \<Rightarrow> string \<Rightarrow> gmap list prog" where
  "PostgresqlService_Query = sql_service_Query"

definition NewMysqlService :: "string \<Rightarrow> gmap \<Rightarrow> service prog" where
  "NewMysqlService name config =
     sbind (lift_out (ParseConfig connection_fields connection_zero config)) (\<lambda>cfg.
     sbind (openMysql (mysql_dsn cfg) (str_or ''mysql'' (sq_Host cfg)) (int_or 3306 (sq_Port cfg)) (str_or ''test'' (sq_DBname cfg))) (\<lambda>db.
     sbind (db_call ''DB.SetConnMaxLifetime'' db [GInt 180000000000]) (\<lambda>_.
     sbind (db_call ''DB.SetMaxOpenConns'' db [GInt (int_or 0 (sq_MaxOpen cfg))]) (\<lambda>_.
     sbind (db_call ''DB.SetConnMaxIdleTime'' db [GInt 10000000000]) (\<lambda>_.
     sbind (db_call ''DB.SetMaxIdleConns'' db [GInt (int_or 0 (sq_MaxIdle cfg))]) (\<lambda>_.
     sret \<lparr>sv_name = name, sv_type = ''mysql'', sv_config = config, sv_handle = db\<rparr>))))))"

definition NewPostgresqlService :: "string \<Rightarrow> gmap \<Rightarrow> service prog" where
  "NewPostgresqlService name config =
     sbind (lift_out (ParseConfig connection_fields connection_zero config)) (\<lambda>cfg.
     sbind (open_postgres_traced cfg (postgres_service_dsn cfg)) (\<lambda>db.
     sbind (db_call ''DB.SetMaxOpenConns'' db [GInt (int_or 0 (sq_MaxOpen cfg))]) (\<lambda>_.
     sbind (db_call ''DB.SetMaxIdleConns'' db [GInt (int_or 0 (sq_MaxIdle cfg))]) (\<lambda>_.
     sret \<lparr>sv_name = name, sv_type = ''postgresql'', sv_config = config, sv_handle = db\<rparr>))))"

text \<open>The entries of \<^verbatim>\<open>SERVICE_TYPES\<close>: an error of the constructor is a panic.\<close>

definition or_panic :: "'a prog \<Rightarrow> 'a prog" where
  "or_panic m = on_err m (\<lambda>e. lift_out (Panic (UserPanic (error_text e))))"

definition mysql_constructor :: "string \<Rightarrow> gmap \<Rightarrow> service prog" where
  "mysql_constructor name m = or_panic (NewMysqlService name m)"

definition postgresql_constructor :: "string \<Rightarrow> gmap \<Rightarrow> service prog" where
  "postgresql_constructor name m = or_panic (NewPostgresqlService name m)"

section \<open>The calls of a loop over rows\<close>

lemma rows_pass_calls:
  assumes "\<And>x. calls_only P (body x)" "P (next_row, [rows])"
    and "pr_answers (fst wx) = A \<and> (\<exists>cs. pr_calls (fst wx) = base @ cs \<and> (\<forall>c\<in>set cs. P c))"
  shows "case rows_pass next_row rows body wx of
      Continue wx' \<Rightarrow> pr_answers (fst wx') = A \<and> (\<exists>cs. pr_calls (fst wx') = base @ cs \<and> (\<forall>c\<in>set cs. P c))
    | Stop (w', r) \<Rightarrow> pr_answers w' = A \<and> (\<exists>cs. pr_calls w' = base @ cs \<and> (\<forall>c\<in>set cs. P c))"
proof -
  obtain cs where cs: "pr_calls (fst wx) = base @ cs" "\<forall>c\<in>set cs. P c" using assms(3) by blast
  have l: "calls_only P (lib0 next_row [rows])" using assms(2) by (rule calls_lib0)
  obtain w1 r1 where m: "lib0 next_row [rows] (fst wx) = (w1, r1)" by fastforce
  obtain cs1 where cs1: "pr_calls w1 = pr_calls (fst wx) @ cs1" "\<forall>c\<in>set cs1. P c" using l m by (rule calls_onlyE)
  obtain w2 r2 where b: "body (snd wx) w1 = (w2, r2)" by fastforce
  obtain cs2 where cs2: "pr_calls w2 = pr_calls w1 @ cs2" "\<forall>c\<in>set cs2. P c" using assms(1) b by (rule calls_onlyE)
  have k1: "\<exists>cs. pr_calls w1 = base @ cs \<and> (\<forall>c\<in>set cs. P c)" using cs cs1 by (intro exI[of _ "cs @ cs1"]) auto
  have k2: "\<exists>cs. pr_calls w2 = base @ cs \<and> (\<forall>c\<in>set cs. P c)" using cs cs1 cs2 by (intro exI[of _ "cs @ cs1 @ cs2"]) auto
  have "pr_answers w1 = A" "pr_answers w2 = A" using assms(3) calls_only_answers[OF l m] calls_only_answers[OF assms(1) b] by simp_all
  then show ?thesis using m b k1 k2 by (cases r1; cases r2) (auto simp: rows_pass_def)
qed

lemma calls_each_row [calls_rules]:
  assumes "\<And>x. calls_only P (body x)" "P (next_row, [rows])"
  shows "calls_only P (each_row next_row rows body x)"
proof (rule calls_onlyI)
  fix w
  show "pr_answers (fst (each_row next_row rows body x w)) = pr_answers w
    \<and> (\<exists>cs. pr_calls (fst (each_row next_row rows body x w)) = pr_calls w @ cs \<and> (\<forall>c\<in>set cs. P c))"
  proof (cases "loop (rows_pass next_row rows body) (w, x)")
    case (Some wr)
    have "case wr of (w', r) \<Rightarrow> pr_answers w' = pr_answers w \<and> (\<exists>cs. pr_calls w' = pr_calls w @ cs \<and> (\<forall>c\<in>set cs. P c))"
      by (rule loop_keeps[where P = "\<lambda>wx. pr_answers (fst wx) = pr_answers w \<and> (\<exists>cs. pr_calls (fst wx) = pr_calls w @ cs \<and> (\<forall>c\<in>set cs. P c))", OF Some])
        (simp, rule rows_pass_calls[OF assms], simp)
    with Some show ?thesis by (auto simp: each_row_def)
  qed (simp add: each_row_def)
qed

lemma calls_debug_columns [calls_rules]: "calls_only P (debug_columns cols)"
  by (induction cols) (auto intro!: calls_rules)

section \<open>No query fails for a config that parses\<close>

lemma rows_pass_keeps:
  assumes "\<And>x. clean (body x)" "honest (fst wx)"
  shows "case rows_pass next_row rows body wx of Continue wx' \<Rightarrow> honest (fst wx')
    | Stop (w', r) \<Rightarrow> honest w' \<and> r \<noteq> Err unmarshal_error \<and> r \<noteq> Err marshal_error"
proof -
  obtain w1 r1 where m: "lib0 next_row [rows] (fst wx) = (w1, r1)" by fastforce
  note n = cleanD[OF clean_lib0 assms(2) m]
  obtain w2 r2 where b: "body (snd wx) w1 = (w2, r2)" by fastforce
  from n have "honest w1" by blast
  note k = cleanD[OF assms(1) this b]
  show ?thesis using m b n k by (cases r1; cases r2) (auto simp: rows_pass_def)
qed

lemma clean_each_row [clean_rules, intro]:
  assumes "\<And>x. clean (body x)"
  shows "clean (each_row next_row rows body x)"
proof (rule cleanI)
  fix w w' r assume h: "honest w" and e: "each_row next_row rows body x w = (w', r)"
  show "honest w' \<and> r \<noteq> Err unmarshal_error \<and> r \<noteq> Err marshal_error"
  proof (cases "loop (rows_pass next_row rows body) (w, x)")
    case None
    with e h show ?thesis by (auto simp: each_row_def)
  next
    case (Some wr)
    with e have l: "loop (rows_pass next_row rows body) (w, x) = Some (w', r)" by (simp add: each_row_def)
    have "case (w', r) of (w', r) \<Rightarrow> honest w' \<and> r \<noteq> Err unmarshal_error \<and> r \<noteq> Err marshal_error"
      by (rule loop_keeps[where P = "\<lambda>wx. honest (fst wx)", OF l]) (use h rows_pass_keeps[OF assms] in auto)
    then show ?thesis by simp
  qed
qed

lemma clean_debug_columns [clean_rules, intro]: "clean (debug_columns cols)"
  by (induction cols) (auto intro!: clean_rules)

lemma clean_on_err_value [intro]: "clean m \<Longrightarrow> clean (on_err m (\<lambda>e. sret (f e)))"
  by (intro clean_rules)

lemma clean_register_once [clean_rules, intro]: "clean (register_once driver opts)"
  unfolding register_once_def by (intro clean_rules) simp_all

text \<open>An error that is kept in a variable and returned later is still not an error of the config.\<close>

lemma register_once_error:
  assumes "honest w" "register_once driver opts w = (w', Ret (Some e))"
  shows "e \<noteq> unmarshal_error \<and> e \<noteq> marshal_error"
  using assms
  by (auto simp: register_once_def prog_defs honest_def split: if_splits outcome.splits prod.splits)

lemma clean_open_registered [clean_rules, intro]: "clean (open_registered driver dsn opts)"
proof (rule cleanI)
  fix w w' r assume h: "honest w" and e: "open_registered driver dsn opts w = (w', r)"
  obtain w1 r1 where m: "register_once driver opts w = (w1, r1)" by fastforce
  note c = cleanD[OF clean_register_once h m]
  show "honest w' \<and> r \<noteq> Err unmarshal_error \<and> r \<noteq> Err marshal_error"
  proof (cases r1)
    case (Ret err)
    have "err = Some x \<Longrightarrow> x \<noteq> unmarshal_error \<and> x \<noteq> marshal_error" for x using register_once_error[OF h] m Ret by blast
    with e m c Ret show ?thesis
      by (auto simp: open_registered_def prog_defs honest_def split: if_splits option.splits)
  qed (use e m c in \<open>auto simp: open_registered_def sbind_def\<close>)
qed

lemma clean_db_call [clean_rules, intro]: "clean (db_call f db args)"
  unfolding db_call_def by (intro clean_rules) simp_all

lemma clean_open_postgres [clean_rules, intro]: "clean (open_postgres_traced c dsn)"
  unfolding open_postgres_traced_def openPostgres_def by (intro clean_rules)

lemma MysqlQuery_clean: "parse_only query_fields query_zero cfg = Ret () \<Longrightarrow> clean (MysqlQuery_Execute cfg)"
  unfolding MysqlQuery_Execute_def Let_def openMysql_def mysql_query_once_def by (intro clean_rules)

lemma PostgresqlQuery_clean: "parse_only query_fields query_zero cfg = Ret () \<Longrightarrow> clean (PostgresqlQuery_Execute cfg)"
  unfolding PostgresqlQuery_Execute_def Let_def postgres_query_once_def by (intro clean_rules)

section \<open>Properties\<close>

text \<open>
  \<^verbatim>\<open>MysqlQuery\<close> never recovers from a driver registration that failed: the first execution
  returns the error, and every later one, of whatever config, panics on the nil database without
  having called a library; \<^verbatim>\<open>openMysql\<close> returns neither a database nor an error then.
\<close>

theorem mysql_registration_fails_for_good:
  assumes "ParseConfig query_fields query_zero cfg = Ret c" "ParseConfig query_fields query_zero cfg' = Ret c'"
    and "pr_sql_drivers w = []" "pr_answers w (length (pr_calls w)) = Err e"
  shows "\<exists>w1. MysqlQuery_Execute cfg w = (w1, Err e) \<and> MysqlQuery_Execute cfg' w1 = (w1, Panic NilDereference)"
  using assms
  by (simp add: MysqlQuery_Execute_def openMysql_def open_registered_def register_once_def prog_defs go_simps req_emit_def
    driver_name_def db_call_def)

lemma parse_empty_query: "ParseConfig query_fields query_zero [] = Ret query_zero"
  by (simp add: parse_eval)

theorem mysql_registration_fails_for_good_witness:
  "\<exists>w1. MysqlQuery_Execute [] (idle_process\<lparr>pr_answers := \<lambda>k. Err (EExt ''no driver'')\<rparr>) = (w1, Err (EExt ''no driver''))
    \<and> MysqlQuery_Execute [] w1 = (w1, Panic NilDereference)"
  using mysql_registration_fails_for_good[OF parse_empty_query parse_empty_query,
      of "idle_process\<lparr>pr_answers := \<lambda>k. Err (EExt ''no driver'')\<rparr>"] by simp

text \<open>
  The PostgreSQL service connects as the wrong user to the wrong database: what it hands to
  \<^verbatim>\<open>sql.Open\<close> is the connection string that the action \<^verbatim>\<open>PostgresqlQuery\<close> makes of the same config
  with its user and its database name exchanged.
\<close>

theorem postgres_service_swaps_user_and_database:
  assumes "ParseConfig connection_fields connection_zero cfg = Ret c"
    and "\<not> IsDatadogEnabled (pr_env w)" "pr_sql_drivers w = [(''postgres'', dn)]" "dn \<noteq> []"
    and "pr_answers w (length (pr_calls w)) = Err e"
  shows "NewPostgresqlService name cfg w =
    (w\<lparr>pr_calls := pr_calls w @ [(''sql.Open'',
        [GStr dn, GStr (postgres_action_dsn (c\<lparr>sq_User := sq_DBname c, sq_DBname := sq_User c\<rparr>))])]\<rparr>, Err e)"
  using assms
  by (simp add: NewPostgresqlService_def open_postgres_traced_def openPostgres_def open_registered_def register_once_def
    prog_defs driver_name_def postgres_service_dsn_def postgres_action_dsn_def)

definition demo_pg :: gmap where
  "demo_pg = [(''user'', GStr ''bob''), (''dbname'', GStr ''shop'')]"

theorem postgres_service_swaps_user_and_database_witness:
  "NewPostgresqlService ''db'' demo_pg
      (idle_process\<lparr>pr_sql_drivers := [(''postgres'', ''pg-otel'')], pr_answers := \<lambda>k. Err (EExt ''refused'')\<rparr>)
    = (idle_process\<lparr>pr_sql_drivers := [(''postgres'', ''pg-otel'')], pr_answers := \<lambda>k. Err (EExt ''refused''),
         pr_calls := [(''sql.Open'', [GStr ''pg-otel'', GStr (''host=postgres port=5432 user=shop dbname=bob ''
           @ ''password=postgres sslmode=disable application_name=chaosmania'')])]\<rparr>, Err (EExt ''refused''))"
proof -
  have p: "ParseConfig connection_fields connection_zero demo_pg = Ret (connection_zero\<lparr>sq_User := ''bob'', sq_DBname := ''shop''\<rparr>)"
    by (simp add: parse_eval demo_pg_def connection_fields_def)
  show ?thesis
    by (subst postgres_service_swaps_user_and_database[OF p, where dn = "''pg-otel''" and e = "EExt ''refused''"])
      (simp_all add: IsDatadogEnabled_def connection_zero_def postgres_action_dsn_def postgres_conn_str_def str_or_def int_or_def
        itoa_def show_eval)
qed

text \<open>The rows a query reads, one call of \<^verbatim>\<open>Next\<close> and one of \<^verbatim>\<open>Scan\<close> each.\<close>

definition row_calls :: "gval \<Rightarrow> int \<Rightarrow> (string \<times> gval list) list" where
  "row_calls rows n = [(''Rows.Next'', [rows]), (''Rows.Scan'', [rows, GInt n])]"

definition scan_into :: "gval \<Rightarrow> gval list \<Rightarrow> gmap list \<Rightarrow> gmap list prog" where
  "scan_into rows cols result =
     sbind (or_log Error ''failed to scan row'' (lib ''Rows.Scan'' [rows, GInt (int (length cols))])) (\<lambda>vals.
     sret (result @ [make_row cols (as_list vals) []]))"

lemma rows_loop:
  assumes "\<forall>i<length vs. pr_answers w (length (pr_calls w) + 2 * i) = Ret (GBool True)
      \<and> pr_answers w (length (pr_calls w) + 2 * i + 1) = Ret (GList (vs ! i))"
    and "pr_answers w (length (pr_calls w) + 2 * length vs) = Ret (GBool False)"
  shows "loop (rows_pass ''Rows.Next'' rows (scan_into rows cols)) (w, acc) =
    Some (w\<lparr>pr_calls := pr_calls w @ concat (replicate (length vs) (row_calls rows (int (length cols)))) @ [(''Rows.Next'', [rows])]\<rparr>,
      Ret (acc @ map (\<lambda>v. make_row cols v []) vs))"
  using assms
proof (induction vs arbitrary: w acc)
  case Nil
  then show ?case by (intro loop_Stop) (simp add: rows_pass_def lib0_def on_err_def lib_def)
next
  case (Cons v vs)
  let ?w = "w\<lparr>pr_calls := pr_calls w @ row_calls rows (int (length cols))\<rparr>"
  have first: "pr_answers w (length (pr_calls w)) = Ret (GBool True)" "pr_answers w (Suc (length (pr_calls w))) = Ret (GList v)"
    using Cons.prems(1)[rule_format, of 0] by simp_all
  have "rows_pass ''Rows.Next'' rows (scan_into rows cols) (w, acc) = Continue (?w, acc @ [make_row cols v []])"
    using first by (simp add: rows_pass_def scan_into_def prog_defs row_calls_def)
  moreover have "pr_answers ?w (length (pr_calls ?w) + 2 * i) = Ret (GBool True)
      \<and> pr_answers ?w (length (pr_calls ?w) + 2 * i + 1) = Ret (GList (vs ! i))" if "i < length vs" for i
    using Cons.prems(1)[rule_format, of "Suc i"] that by (simp add: row_calls_def)
  moreover have "pr_answers ?w (length (pr_calls ?w) + 2 * length vs) = Ret (GBool False)"
    using Cons.prems(2) by (simp add: row_calls_def)
  ultimately show ?case
    using Cons.IH[of ?w "acc @ [make_row cols v []]"] by (simp add: loop_Continue)
qed

text \<open>
  C33. \<^verbatim>\<open>Query\<close> of a SQL service returns the rows of the database in order, each as the map from
  column to scanned value; it reads until \<^verbatim>\<open>Next\<close> says there is no more and closes the rows last.
\<close>

theorem service_query_returns_rows:
  assumes "\<forall>i<length vs. pr_answers w (length (pr_calls w) + 2 + 2 * i) = Ret (GBool True)
      \<and> pr_answers w (length (pr_calls w) + 2 + 2 * i + 1) = Ret (GList (vs ! i))"
    and "pr_answers w (length (pr_calls w) + 2 + 2 * length vs) = Ret (GBool False)"
    and "pr_answers w (length (pr_calls w)) = Ret rows" "pr_answers w (length (pr_calls w) + 1) = Ret (GList cols)"
    and "pr_answers w (length (pr_calls w) + 2 + 2 * length vs + 1) = Ret ended"
  shows "\<exists>w'. MysqlService_Query s query w = (w', Ret (map (\<lambda>v. make_row cols v []) vs))
    \<and> pr_calls w' = pr_calls w @ (''DB.QueryContext'', [sv_handle s, GStr query]) # (''Rows.Columns'', [rows])
        # concat (replicate (length vs) (row_calls rows (int (length cols)))) @ [(''Rows.Next'', [rows]), (''Rows.Close'', [rows])]"
proof -
  let ?w = "w\<lparr>pr_calls := pr_calls w @ [(''DB.QueryContext'', [sv_handle s, GStr query]), (''Rows.Columns'', [rows])]\<rparr>"
  have l: "length (concat (replicate k (row_calls rows n))) = 2 * k" for k n
    by (induction k) (simp_all add: row_calls_def)
  have "loop (rows_pass ''Rows.Next'' rows (scan_into rows cols)) (?w, []) =
      Some (?w\<lparr>pr_calls := pr_calls ?w @ concat (replicate (length vs) (row_calls rows (int (length cols)))) @ [(''Rows.Next'', [rows])]\<rparr>,
        Ret ([] @ map (\<lambda>v. make_row cols v []) vs))"
    using assms(1,2) by (intro rows_loop) (simp_all add: add.assoc)
  then show ?thesis
    using assms(3-5) l
    by (simp add: MysqlService_Query_def sql_service_Query_def prog_defs deferred_def each_row_def scan_into_def[abs_def] add.commute)
qed

theorem service_query_returns_rows_witness:
  "\<exists>w'. MysqlService_Query \<lparr>sv_name = ''db'', sv_type = ''mysql'', sv_config = [], sv_handle = GStr ''db''\<rparr> ''SELECT id FROM t''
      (idle_process\<lparr>pr_answers := \<lambda>k. nth [Ret (GStr ''rows''), Ret (GList [GStr ''id'']), Ret (GBool True), Ret (GList [GInt 7]),
         Ret (GBool False), Ret GNil] k\<rparr>)
    = (w', Ret [[(''id'', GInt 7)]])"
  using service_query_returns_rows[of "[[GInt 7]]" "idle_process\<lparr>pr_answers := \<lambda>k. nth [Ret (GStr ''rows''), Ret (GList [GStr ''id'']),
      Ret (GBool True), Ret (GList [GInt 7]), Ret (GBool False), Ret GNil] k\<rparr>" "GStr ''rows''" "[GStr ''id'']" GNil
      "\<lparr>sv_name = ''db'', sv_type = ''mysql'', sv_config = [], sv_handle = GStr ''db''\<rparr>" "''SELECT id FROM t''"]
  by (auto simp: eval_nat_numeral)

end
