(* ===== verification/StoreActions.thy ===== *)
theory StoreActions
  imports Sql Services HttpActions
begin

text \<open>
  The actions and the service that talk to other stores: \<^verbatim>\<open>redis_action.go\<close>, \<^verbatim>\<open>redis_service.go\<close>,
  \<^verbatim>\<open>snowflake_action.go\<close>, \<^verbatim>\<open>elastic_insert_action.go\<close> and \<^verbatim>\<open>elastic_query_action.go\<close> of
  \<^verbatim>\<open>pkg/actions\<close>. Their clients are library calls.
\<close>

section \<open>RedisCommand\<close>

record RedisCommandConfig =
  rd_Address :: string
  rd_Command :: string
  rd_Args :: "gval list"
  rd_PeerService :: string
  rd_PeerNamespace :: string

definition redis_fields :: "RedisCommandConfig fields" where
  "redis_fields =
     [(''address'', fld dec_string rd_Address (\<lambda>v r. r\<lparr>rd_Address := v\<rparr>)),
      (''command'', fld dec_string rd_Command (\<lambda>v r. r\<lparr>rd_Command := v\<rparr>)),
      (''args'', fld dec_any_list rd_Args (\<lambda>v r. r\<lparr>rd_Args := v\<rparr>)),
      (''peer_service'', fld dec_string rd_PeerService (\<lambda>v r. r\<lparr>rd_PeerService := v\<rparr>)),
      (''peer_namespace'', fld dec_string rd_PeerNamespace (\<lambda>v r. r\<lparr>rd_PeerNamespace := v\<rparr>))]"

definition redis_zero :: RedisCommandConfig where
  "redis_zero = \<lparr>rd_Address = [], rd_Command = [], rd_Args = [], rd_PeerService = [], rd_PeerNamespace = []\<rparr>"

text \<open>\<^verbatim>\<open>config.Args[i].(string)\<close>\<close>

definition string_arg :: "gval list \<Rightarrow> int \<Rightarrow> string outcome" where
  "string_arg args i = obind (idx args i) (\<lambda>v. case v of GStr s \<Rightarrow> Ret s | _ \<Rightarrow> Panic TypeAssertion)"

text \<open>
  The switch over the command, the same for both versions of the client. What \<^verbatim>\<open>lpush\<close> pushes is
  \<^verbatim>\<open>config.Args[:1]\<close>, the key itself.
\<close>

definition redis_switch :: "gval \<Rightarrow> RedisCommandConfig \<Rightarrow> gval prog" where
  "redis_switch rdb config =
     (let command = fold_case (rd_Command config); args = rd_Args config in
      if command = ''lpop'' then
        sbind (lift_out (string_arg args 0)) (\<lambda>key. lib ''LPop'' [rdb, GStr key])
      else if command = ''lpush'' then
        sbind (lift_out (string_arg args 0)) (\<lambda>key. lib ''LPush'' (rdb # GStr key # take 1 args))
      else if command = ''get'' then
        sbind (lift_out (string_arg args 0)) (\<lambda>key. lib ''Get'' [rdb, GStr key])
      else if command = ''set'' then
        sbind (lift_out (string_arg args 0)) (\<lambda>key.
        sbind (lift_out (string_arg args 1)) (\<lambda>v. lib ''Set'' [rdb, GStr key, GStr v]))
      else lift_out (Err (EText (''redis command not supported: '' @ rd_Command config))))"

text \<open>\<^verbatim>\<open>redis.Nil\<close>, the answer for a key that does not exist, is not an error.\<close>

definition redis_Nil :: gerror where
  "redis_Nil = EExt ''redis: nil''"

definition unless_nil :: "gval prog \<Rightarrow> unit prog" where
  "unless_nil m = sbind (on_err m (\<lambda>e. if e = redis_Nil then sret GNil else lift_out (Err e))) (\<lambda>_. sret ())"

definition RedisCommand_Execute :: "gmap \<Rightarrow> unit prog" where
  "RedisCommand_Execute cfg =
     sbind (parse_warn redis_fields redis_zero cfg) (\<lambda>config.
     sbind (env pr_env) (\<lambda>getenv.
       if IsDatadogEnabled getenv then
         sbind (lib0 ''redistrace.NewClient'' [GStr (rd_Address config), GStr (rd_PeerService config)]) (\<lambda>rdb.
           unless_nil (redis_switch rdb config))
       else
         sbind (lib0 ''redis9.NewClient'' [GStr (rd_Address config)]) (\<lambda>rdb.
         sbind (warn_only Error ''failed to enable redis opentelemetry metrics'' (lib ''redisotel.InstrumentMetrics'' [rdb])) (\<lambda>_.
         sbind (warn_only Error ''failed to enable redis opentelemetry tracing'' (lib ''redisotel.InstrumentTracing'' [rdb])) (\<lambda>_.
         deferred (call0 ''Client.Close'' [rdb]) (unless_nil (redis_switch rdb config)))))))"

section \<open>The Redis service\<close>

record RedisServiceConfig =
  rs_Address :: string
  rs_PeerService :: string
  rs_PeerNamespace :: string

definition redis_service_fields :: "RedisServiceConfig fields" where
  "redis_service_fields =
     [(''address'', fld dec_string rs_Address (\<lambda>v r. r\<lparr>rs_Address := v\<rparr>)),
      (''peer_service'', fld dec_string rs_PeerService (\<lambda>v r. r\<lparr>rs_PeerService := v\<rparr>)),
      (''peer_namespace'', fld dec_string rs_PeerNamespace (\<lambda>v r. r\<lparr>rs_PeerNamespace := v\<rparr>))]"

definition redis_service_zero :: RedisServiceConfig where
  "redis_service_zero = \<lparr>rs_Address = [], rs_PeerService = [], rs_PeerNamespace = []\<rparr>"

text \<open>The handle of the service is the struct's \<^verbatim>\<open>rdb8\<close> or its \<^verbatim>\<open>rdb9\<close>, whichever is not nil.\<close>

definition NewRedisService :: "string \<Rightarrow> gmap \<Rightarrow> service prog" where
  "NewRedisService name config =
     sbind (lift_out (ParseConfig redis_service_fields redis_service_zero config)) (\<lambda>cfg.
     sbind (env pr_env) (\<lambda>getenv.
       if IsDatadogEnabled getenv then
         sbind (lib0 ''redistrace.NewClient'' [GStr (rs_Address cfg), GStr (rs_PeerService cfg)]) (\<lambda>rdb.
           sret \<lparr>sv_name = name, sv_type = ''redis'', sv_config = config, sv_handle = GMapS [(''rdb8'', rdb)]\<rparr>)
       else
         sbind (lib0 ''redis9.NewClient'' [GStr (rs_Address cfg)]) (\<lambda>rdb.
         sbind (lib ''redisotel.InstrumentMetrics'' [rdb]) (\<lambda>_.
         sbind (lib ''redisotel.InstrumentTracing'' [rdb]) (\<lambda>_.
           sret \<lparr>sv_name = name, sv_type = ''redis'', sv_config = config, sv_handle = GMapS [(''rdb9'', rdb)]\<rparr>)))))"

definition RedisService_Set :: "service \<Rightarrow> string \<Rightarrow> string \<Rightarrow> unit prog" where
  "RedisService_Set s key v =
     (if gfield ''rdb8'' (sv_handle s) \<noteq> GNil
      then sbind (lib ''redis8.Set'' [gfield ''rdb8'' (sv_handle s), GStr key, GStr v]) (\<lambda>_. sret ())
      else sbind (lib ''redis9.Set'' [gfield ''rdb9'' (sv_handle s), GStr key, GStr v]) (\<lambda>_. sret ()))"

definition RedisService_Get :: "service \<Rightarrow> string \<Rightarrow> string prog" where
  "RedisService_Get s key =
     (if gfield ''rdb8'' (sv_handle s) \<noteq> GNil
      then sbind (lib ''redis8.Get'' [gfield ''rdb8'' (sv_handle s), GStr key]) (\<lambda>v. sret (as_string v))
      else sbind (lib ''redis9.Get'' [gfield ''rdb9'' (sv_handle s), GStr key]) (\<lambda>v. sret (as_string v)))"

definition redis_constructor :: "string \<Rightarrow> gmap \<Rightarrow> service prog" where
  "redis_constructor name m = or_panic (NewRedisService name m)"

section \<open>SnowflakeQuery\<close>

record SnowflakeQueryConfig =
  sf_Query :: string
  sf_Account :: string
  sf_User :: string
  sf_Password :: string
  sf_Database :: string
  sf_Warehouse :: string
  sf_Schema :: string

definition snowflake_fields :: "SnowflakeQueryConfig fields" where
  "snowflake_fields =
     [(''query'', fld dec_string sf_Query (\<lambda>v r. r\<lparr>sf_Query := v\<rparr>)),
      (''account'', fld dec_string sf_Account (\<lambda>v r. r\<lparr>sf_Account := v\<rparr>)),
      (''user'', fld dec_string sf_User (\<lambda>v r. r\<lparr>sf_User := v\<rparr>)),
      (''password'', fld dec_string sf_Password (\<lambda>v r. r\<lparr>sf_Password := v\<rparr>)),
      (''database'', fld dec_string sf_Database (\<lambda>v r. r\<lparr>sf_Database := v\<rparr>)),
      (''warehouse'', fld dec_string sf_Warehouse (\<lambda>v r. r\<lparr>sf_Warehouse := v\<rparr>)),
      (''schema'', fld dec_string sf_Schema (\<lambda>v r. r\<lparr>sf_Schema := v\<rparr>))]"

definition snowflake_zero :: SnowflakeQueryConfig where
  "snowflake_zero = \<lparr>sf_Query = [], sf_Account = [], sf_User = [], sf_Password = [], sf_Database = [], sf_Warehouse = [], sf_Schema = []\<rparr>"

definition SnowflakeQuery_Execute :: "gmap \<Rightarrow> unit prog" where
  "SnowflakeQuery_Execute cfg =
     sbind (parse_warn snowflake_fields snowflake_zero cfg) (\<lambda>config.
     sbind (or_warn ''failed to create DSN'' (lib ''gosnowflake.DSN''
        [GStr (sf_Account config), GStr (sf_User config), GStr (sf_Password config), GStr (sf_Database config), GStr (sf_Warehouse config)])) (\<lambda>connStr.
     sbind (or_warn ''failed to connect to DB'' (lib ''sql.Open'' [GStr ''snowflake'', connStr])) (\<lambda>db.
     deferred (call0 ''DB.Close'' [db])
       (sbind (or_warn ''failed to execute query'' (lib ''DB.QueryContext'' [db, GStr (sf_Query config)])) (\<lambda>rows.
        sbind (or_log Error ''failed to list columns'' (lib ''Rows.Columns'' [rows])) (\<lambda>cols.
        each_row ''Rows.Next'' rows (\<lambda>_.
          sbind (or_log Error ''failed to scan row'' (lib ''Rows.Scan'' [rows, GInt (int (length (as_list cols)))])) (\<lambda>_.
          debug_columns (as_list cols))) ()))))))"

section \<open>Elasticsearch\<close>

text \<open>A map field that is nil as long as nothing is decoded into it, and is marshalled as \<^verbatim>\<open>null\<close> then.\<close>

fun dec_map_opt :: "gmap option \<Rightarrow> json \<Rightarrow> gmap option option" where
  "dec_map_opt old (JObj kvs) = map_option Some (any_of_obj kvs (case old of None \<Rightarrow> [] | Some m \<Rightarrow> m))"
| "dec_map_opt old JNull = Some None"
| "dec_map_opt old _ = None"

record ElasticInsertConfig =
  ei_Document :: "gmap option"
  ei_Index :: string
  ei_Address :: string
  ei_ApiKey :: string
  ei_Insecure :: bool

definition elastic_insert_fields :: "ElasticInsertConfig fields" where
  "elastic_insert_fields =
     [(''document'', fld dec_map_opt ei_Document (\<lambda>v r. r\<lparr>ei_Document := v\<rparr>)),
      (''index'', fld dec_string ei_Index (\<lambda>v r. r\<lparr>ei_Index := v\<rparr>)),
      (''address'', fld dec_string ei_Address (\<lambda>v r. r\<lparr>ei_Address := v\<rparr>)),
      (''apikey'', fld dec_string ei_ApiKey (\<lambda>v r. r\<lparr>ei_ApiKey := v\<rparr>)),
      (''insecure'', fld dec_bool ei_Insecure (\<lambda>v r. r\<lparr>ei_Insecure := v\<rparr>))]"

definition elastic_insert_zero :: ElasticInsertConfig where
  "elastic_insert_zero = \<lparr>ei_Document = None, ei_Index = [], ei_Address = [], ei_ApiKey = [], ei_Insecure = False\<rparr>"

definition elastic_client :: "string \<Rightarrow> string \<Rightarrow> bool \<Rightarrow> gval prog" where
  "elastic_client address apikey insecure =
     or_warn ''failed to create client'' (lib ''elasticsearch.NewClient'' [GList [GStr address], GStr apikey, GBool insecure])"

definition encode_document :: "gmap option \<Rightarrow> json outcome" where
  "encode_document doc = (case doc of None \<Rightarrow> Ret JNull | Some m \<Rightarrow> Marshal (GMapS m))"

definition ElasticInsert_Execute :: "gmap \<Rightarrow> unit prog" where
  "ElasticInsert_Execute cfg =
     sbind (parse_warn elastic_insert_fields elastic_insert_zero cfg) (\<lambda>config.
     sbind (elastic_client (ei_Address config) (ei_ApiKey config) (ei_Insecure config)) (\<lambda>es.
     sbind (or_warn ''failed to encode document'' (lift_out (encode_document (ei_Document config)))) (\<lambda>buf.
     sbind (lib ''Client.Index'' [es, GStr (ei_Index config), json_arg buf, GStr ''1'']) (\<lambda>res.
     deferred (call0 ''Body.Close'' [res])
       (sbind (lib0 ''Response.IsError'' [res]) (\<lambda>failed.
          if as_bool failed then
            sbind (lib0 ''Response.String'' [res]) (\<lambda>s.
              print_out (''Error indexing document ID=1 to index '' @ ei_Index config @ '': '' @ as_string s))
          else print_out (''Document indexed successfully in index '' @ ei_Index config)))))))"

record ElasticQueryConfig =
  eq_Query :: string
  eq_Index :: string
  eq_Address :: string
  eq_ApiKey :: string
  eq_Insecure :: bool

definition elastic_query_fields :: "ElasticQueryConfig fields" where
  "elastic_query_fields =
     [(''query'', fld dec_string eq_Query (\<lambda>v r. r\<lparr>eq_Query := v\<rparr>)),
      (''index'', fld dec_string eq_Index (\<lambda>v r. r\<lparr>eq_Index := v\<rparr>)),
      (''address'', fld dec_string eq_Address (\<lambda>v r. r\<lparr>eq_Address := v\<rparr>)),
      (''apikey'', fld dec_string eq_ApiKey (\<lambda>v r. r\<lparr>eq_ApiKey := v\<rparr>)),
      (''insecure'', fld dec_bool eq_Insecure (\<lambda>v r. r\<lparr>eq_Insecure := v\<rparr>))]"

definition elastic_query_zero :: ElasticQueryConfig where
  "elastic_query_zero = \<lparr>eq_Query = [], eq_Index = [], eq_Address = [], eq_ApiKey = [], eq_Insecure = False\<rparr>"

definition ElasticQuery_Execute :: "gmap \<Rightarrow> unit prog" where
  "ElasticQuery_Execute cfg =
     sbind (parse_warn elastic_query_fields elastic_query_zero cfg) (\<lambda>config.
     sbind (elastic_client (eq_Address config) (eq_ApiKey config) (eq_Insecure config)) (\<lambda>es.
     sbind (or_warn ''failed to execute search query'' (lib ''Client.Search'' [es, GStr (eq_Index config), GStr (eq_Query config)])) (\<lambda>res.
     deferred (call0 ''Body.Close'' [res])
       (sbind (or_warn ''failed to decode response body'' (lib ''json.Decoder.Decode'' [res])) (\<lambda>result.
        sbind (print_out ''Search Results:'') (\<lambda>_. call0 ''fmt.Println'' [result]))))))"

section \<open>None fails for a config that parses\<close>

lemma string_arg_not_Err [simp]: "string_arg args i \<noteq> Err e"
  by (auto simp: string_arg_def go_simps split: gval.splits)

lemma clean_redis_switch [clean_rules, intro]: "clean (redis_switch rdb config)"
  unfolding redis_switch_def Let_def by (intro clean_rules) (simp_all add: unmarshal_error_def marshal_error_def)

lemma clean_unless_nil [clean_rules, intro]: "clean m \<Longrightarrow> clean (unless_nil m)"
  unfolding unless_nil_def by (intro clean_rules) simp_all

lemma RedisCommand_clean: "parse_only redis_fields redis_zero cfg = Ret () \<Longrightarrow> clean (RedisCommand_Execute cfg)"
  unfolding RedisCommand_Execute_def by (intro clean_rules)

lemma SnowflakeQuery_clean: "parse_only snowflake_fields snowflake_zero cfg = Ret () \<Longrightarrow> clean (SnowflakeQuery_Execute cfg)"
  unfolding SnowflakeQuery_Execute_def by (intro clean_rules)

lemma ElasticQuery_clean: "parse_only elastic_query_fields elastic_query_zero cfg = Ret () \<Longrightarrow> clean (ElasticQuery_Execute cfg)"
  unfolding ElasticQuery_Execute_def elastic_client_def by (intro clean_rules)

lemma document_good:
  assumes "ParseConfig elastic_insert_fields elastic_insert_zero cfg = Ret c" "ei_Document c = Some m"
  shows "plain (GMapS m) \<and> finite_floats (GMapS m)"
proof -
  define good where "good = (\<lambda>c :: ElasticInsertConfig. \<forall>m. ei_Document c = Some m \<longrightarrow> plain (GMapS m) \<and> finite_floats (GMapS m))"
  have keep: "good r'" if "(t, put) \<in> set elastic_insert_fields" "good r" "put r j = Some r'" for t put r j r'
  proof (cases "t = ''document''")
    case True
    with that(1) have "put = fld dec_map_opt ei_Document (\<lambda>v r. r\<lparr>ei_Document := v\<rparr>)"
      by (simp add: elastic_insert_fields_def)
    with that(3) obtain v where v: "dec_map_opt (ei_Document r) j = Some v" "r' = r\<lparr>ei_Document := v\<rparr>" by (auto simp: fld_def)
    show ?thesis
    proof (cases j)
      case (JObj kvs)
      define old where "old = (case ei_Document r of None \<Rightarrow> [] | Some m \<Rightarrow> m)"
      obtain m where m: "any_of_obj kvs old = Some m" "v = Some m" using v JObj by (auto simp: old_def)
      have "plain (GMapS old) \<and> finite_floats (GMapS old)"
        using that(2) by (cases "ei_Document r") (simp_all add: old_def good_def)
      then have "plain (GMapS m) \<and> finite_floats (GMapS m)" using any_of_json_good(3)[OF m(1)] by blast
      then show ?thesis using v m by (simp add: good_def)
    qed (use v in \<open>auto simp: good_def\<close>)
  next
    case False
    with that have "ei_Document r' = ei_Document r" by (auto simp: elastic_insert_fields_def fld_def)
    with that(2) show ?thesis by (simp add: good_def)
  qed
  have "good elastic_insert_zero" by (simp add: good_def elastic_insert_zero_def)
  then have "good c" by (rule ParseConfig_keeps[where P = good, OF assms(1)]) (rule keep)
  with assms(2) show ?thesis by (simp add: good_def)
qed

lemma ElasticInsert_clean:
  assumes "parse_only elastic_insert_fields elastic_insert_zero cfg = Ret ()"
  shows "clean (ElasticInsert_Execute cfg)"
  unfolding ElasticInsert_Execute_def elastic_client_def
proof (rule clean_bind_parse[OF assms])
  fix c assume c: "ParseConfig elastic_insert_fields elastic_insert_zero cfg = Ret c"
  have "encode_document (ei_Document c) \<noteq> Err e" for e
  proof (cases "ei_Document c")
    case (Some m)
    with document_good[OF c] Marshal_total(1)[of "GMapS m"] obtain j where "Marshal (GMapS m) = Ret j" by blast
    with Some show ?thesis by (simp add: encode_document_def)
  qed (simp add: encode_document_def)
  then show "clean (sbind (or_warn ''failed to create client'' (lib ''elasticsearch.NewClient''
        [GList [GStr (ei_Address c)], GStr (ei_ApiKey c), GBool (ei_Insecure c)])) (\<lambda>es.
     sbind (or_warn ''failed to encode document'' (lift_out (encode_document (ei_Document c)))) (\<lambda>buf.
     sbind (lib ''Client.Index'' [es, GStr (ei_Index c), json_arg buf, GStr ''1'']) (\<lambda>res.
     deferred (call0 ''Body.Close'' [res])
       (sbind (lib0 ''Response.IsError'' [res]) (\<lambda>failed.
          if as_bool failed then
            sbind (lib0 ''Response.String'' [res]) (\<lambda>s.
              print_out (''Error indexing document ID=1 to index '' @ ei_Index c @ '': '' @ as_string s))
          else print_out (''Document indexed successfully in index '' @ ei_Index c)))))))"
    by (intro clean_rules; simp)
qed

end
