(* ===== verification/Mongo.thy ===== *)
theory Mongo
  imports Sql BasicActions MutexActions
begin

text \<open>
  The action \<^verbatim>\<open>MongodbQuery\<close> (\<^verbatim>\<open>mongodb.go\<close>): its connection string and its query loop. Decoding
  into the driver's own struct of client options, and the order in which ranging over the map
  \<^verbatim>\<open>query\<close> meets its keys, are parameters.
\<close>

section \<open>Config\<close>

fun dec_opt_int :: "int option \<Rightarrow> json \<Rightarrow> int option option" where
  "dec_opt_int old JNull = Some None"
| "dec_opt_int old j = map_option Some (dec_int (case old of None \<Rightarrow> 0 | Some n \<Rightarrow> n) j)"

fun dec_opt_options :: "(json \<Rightarrow> gval option) \<Rightarrow> gval \<Rightarrow> json \<Rightarrow> gval option" where
  "dec_opt_options client_options old JNull = Some GNil"
| "dec_opt_options client_options old j = client_options j"

record MongoDBConnection =
  ConnScheme :: string
  Hosts :: "string list"
  mg_Port :: int
  mg_User :: string
  mg_Password :: string
  mg_SSLMode :: bool
  ReplicaSet :: string
  OpTimeoutMS :: "int option"
  ConnectingTimeoutMs :: "int option"
  UseClientOptsOnly :: bool
  ClientOptions :: gval
  mg_PeerService :: string
  mg_PeerNamespace :: string

record MongoDbQueryConfig =
  mg_AppName :: string
  mg_Query :: gmap
  mg_DBname :: string
  Connection :: MongoDBConnection
  mg_MaxOpen :: int
  mg_MaxIdle :: int
  mg_Repeat :: int
  BurnDuration :: int

text \<open>The tags are taken as they are written: what follows the name after a semicolon or colon is part of the key.\<close>

definition mongo_connection_fields :: "(json \<Rightarrow> gval option) \<Rightarrow> MongoDBConnection fields" where
  "mongo_connection_fields opts =
     [(''conn_scheme'', fld dec_string ConnScheme (\<lambda>v r. r\<lparr>ConnScheme := v\<rparr>)),
      (''hosts'', fld (dec_list dec_string []) Hosts (\<lambda>v r. r\<lparr>Hosts := v\<rparr>)),
      (''port'', fld dec_int mg_Port (\<lambda>v r. r\<lparr>mg_Port := v\<rparr>)),
      (''user'', fld dec_string mg_User (\<lambda>v r. r\<lparr>mg_User := v\<rparr>)),
      (''password'', fld dec_string mg_Password (\<lambda>v r. r\<lparr>mg_Password := v\<rparr>)),
      (''sslmode;default:false'', fld dec_bool mg_SSLMode (\<lambda>v r. r\<lparr>mg_SSLMode := v\<rparr>)),
      (''replica_set'', fld dec_string ReplicaSet (\<lambda>v r. r\<lparr>ReplicaSet := v\<rparr>)),
      (''op_timeout_ms;default:nil'', fld dec_opt_int OpTimeoutMS (\<lambda>v r. r\<lparr>OpTimeoutMS := v\<rparr>)),
      (''connecting_timeout_ms;default:nil'', fld dec_opt_int ConnectingTimeoutMs (\<lambda>v r. r\<lparr>ConnectingTimeoutMs := v\<rparr>)),
      (''use_client_opts_only;default:false'', fld dec_bool UseClientOptsOnly (\<lambda>v r. r\<lparr>UseClientOptsOnly := v\<rparr>)),
      (''client_options:default:nil'', fld (dec_opt_options opts) ClientOptions (\<lambda>v r. r\<lparr>ClientOptions := v\<rparr>)),
      (''peer_service'', fld dec_string mg_PeerService (\<lambda>v r. r\<lparr>mg_PeerService := v\<rparr>)),
      (''peer_namespace'', fld dec_string mg_PeerNamespace (\<lambda>v r. r\<lparr>mg_PeerNamespace := v\<rparr>))]"

definition mongo_fields :: "(rat \<Rightarrow> int) \<Rightarrow> (json \<Rightarrow> gval option) \<Rightarrow> MongoDbQueryConfig fields" where
  "mongo_fields oor opts =
     [(''appname;default:chaosmania'', fld dec_string mg_AppName (\<lambda>v r. r\<lparr>mg_AppName := v\<rparr>)),
      (''query'', fld dec_map mg_Query (\<lambda>v r. r\<lparr>mg_Query := v\<rparr>)),
      (''dbname'', fld dec_string mg_DBname (\<lambda>v r. r\<lparr>mg_DBname := v\<rparr>)),
      (''connection'', fld (decode_struct (mongo_connection_fields opts)) Connection (\<lambda>v r. r\<lparr>Connection := v\<rparr>)),
      (''maxopen'', fld dec_int mg_MaxOpen (\<lambda>v r. r\<lparr>mg_MaxOpen := v\<rparr>)),
      (''maxidle'', fld dec_int mg_MaxIdle (\<lambda>v r. r\<lparr>mg_MaxIdle := v\<rparr>)),
      (''repeat'', fld dec_int mg_Repeat (\<lambda>v r. r\<lparr>mg_Repeat := v\<rparr>)),
      (''burn_duration'', fld (\<lambda>_. dec_duration oor) BurnDuration (\<lambda>v r. r\<lparr>BurnDuration := v\<rparr>))]"

definition mongo_connection_zero :: MongoDBConnection where
  "mongo_connection_zero = \<lparr>ConnScheme = [], Hosts = [], mg_Port = 0, mg_User = [], mg_Password = [], mg_SSLMode = False,
     ReplicaSet = [], OpTimeoutMS = None, ConnectingTimeoutMs = None, UseClientOptsOnly = False, ClientOptions = GNil,
     mg_PeerService = [], mg_PeerNamespace = []\<rparr>"

definition mongo_zero :: MongoDbQueryConfig where
  "mongo_zero = \<lparr>mg_AppName = [], mg_Query = [], mg_DBname = [], Connection = mongo_connection_zero, mg_MaxOpen = 0, mg_MaxIdle = 0,
     mg_Repeat = 0, BurnDuration = 0\<rparr>"

section \<open>Client options\<close>

text \<open>The host loop: a slash after every host, and a comma after all but the last.\<close>

fun write_hosts :: "int \<Rightarrow> string list \<Rightarrow> string" where
  "write_hosts port [] = []"
| "write_hosts port (host # hosts) =
     host @ '':'' @ itoa port @ ''/'' @ (if hosts \<noteq> [] then '','' else []) @ write_hosts port hosts"

definition uri_options :: "MongoDBConnection \<Rightarrow> string list" where
  "uri_options c =
     (if mg_SSLMode c then [''ssl=true''] else []) @ (if ReplicaSet c \<noteq> [] then [''replicaSet='' @ ReplicaSet c] else [])"

fun join :: "string \<Rightarrow> string list \<Rightarrow> string" where
  "join sep [] = []"
| "join sep [s] = s"
| "join sep (s # ss) = s @ sep @ join sep ss"

definition mongo_uri :: "MongoDBConnection \<Rightarrow> string" where
  "mongo_uri c =
     str_or ''mongodb'' (ConnScheme c) @ ''://''
     @ (if mg_User c \<noteq> [] \<and> mg_Password c \<noteq> [] then mg_User c @ '':'' @ mg_Password c @ ''@'' else [])
     @ write_hosts (int_or 27017 (mg_Port c)) (if Hosts c \<noteq> [] then Hosts c else [''localhost''])
     @ (if uri_options c \<noteq> [] then ''?'' @ join ''&'' (uri_options c) else [])"

definition when_some :: "'a option \<Rightarrow> ('a \<Rightarrow> unit prog) \<Rightarrow> unit prog" where
  "when_some x f = (case x of None \<Rightarrow> sret () | Some v \<Rightarrow> f v)"

definition buildClientOpts :: "MongoDbQueryConfig \<Rightarrow> gval prog" where
  "buildClientOpts config =
     (let c = Connection config in
      sbind (if UseClientOptsOnly c then sret (ClientOptions c)
        else
          sbind (lib0 ''options.Client'' []) (\<lambda>o1.
          sbind (when_some (OpTimeoutMS c) (\<lambda>t. call0 ''SetTimeout'' [o1, GInt t])) (\<lambda>_.
          sbind (when_some (ConnectingTimeoutMs c) (\<lambda>t. call0 ''SetConnectTimeout'' [o1, GInt t])) (\<lambda>_.
          sbind (call0 ''ApplyURI'' [o1, GStr (mongo_uri c)]) (\<lambda>_.
          sbind (call0 ''SetAppName'' [o1, GStr (mg_AppName config)]) (\<lambda>_.
          sbind (call0 ''SetMaxConnecting'' [o1, GInt (int_or 0 (mg_MaxOpen config) mod 18446744073709551616)]) (\<lambda>_.
          sbind (call0 ''SetMaxConnIdleTime'' [o1, GInt (int_or 0 (mg_MaxIdle config))]) (\<lambda>_. sret o1)))))))) (\<lambda>clientOpts.
      sbind (lib0 ''GetURI'' [clientOpts]) (\<lambda>_.
      sbind (say Debug ''Connecting to MongoDB: '') (\<lambda>_. sret clientOpts))))"

section \<open>The action\<close>

definition mongo_query_once :: "(gmap \<Rightarrow> gmap) \<Rightarrow> gval \<Rightarrow> MongoDbQueryConfig \<Rightarrow> unit prog" where
  "mongo_query_once ord db config =
     sbind time_Now (\<lambda>now.
     sbind (or_warn ''failed to marshal query'' (lib ''bson.Marshal'' [GMapS (ord (mg_Query config))])) (\<lambda>command.
     sbind (or_warn ''failed to execute query'' (lib ''RunCommandCursor'' [db, command])) (\<lambda>cursor.
     sbind (each_row ''Cursor.Next'' cursor (\<lambda>results.
        sbind (or_log Error ''failed to decode cursor'' (lib ''Cursor.Decode'' [cursor])) (\<lambda>result. sret (results @ [result]))) []) (\<lambda>results.
     sbind (or_log Error ''failed to iterate cursor'' (lib ''Cursor.Err'' [cursor])) (\<lambda>_.
     sbind (debug_columns results) (\<lambda>_.
     sbind time_Now (\<lambda>_. call0 ''MongoDBQueryHistogram.Observe'' [])))))))"

definition mongo_burn :: "int \<Rightarrow> unit prog" where
  "mongo_burn d =
     (if \<bar>d\<bar> div 1000000 \<noteq> 0 then
        sbind (say Info (''Running burn for: '' @ Duration_String d)) (\<lambda>_.
        sbind time_Now (\<lambda>now. spin_until (now + d)))
      else sret ())"

text \<open>
  The deferred close of the cursor gets the value \<^verbatim>\<open>cursor\<close> has when it is deferred, which is nil.
\<close>

definition MongoDBQuery_Execute :: "(rat \<Rightarrow> int) \<Rightarrow> (json \<Rightarrow> gval option) \<Rightarrow> (gmap \<Rightarrow> gmap) \<Rightarrow> gmap \<Rightarrow> unit prog" where
  "MongoDBQuery_Execute oor opts ord cfg =
     sbind (parse_warn (mongo_fields oor opts) mongo_zero cfg) (\<lambda>config.
     sbind (buildClientOpts config) (\<lambda>clientOpts.
     sbind (if clientOpts = GNil then lift_out (Panic NilDereference) else sret ()) (\<lambda>_.
     sbind (call0 ''otelmongo.NewMonitor'' [clientOpts]) (\<lambda>_.
     sbind (lib0 ''context.WithTimeout'' [GInt 20000000000]) (\<lambda>ctx.
     deferred (call0 ''cancel'' [ctx])
       (sbind (or_log Error ''failed to connect to mongodb'' (lib ''mongo.Connect'' [clientOpts])) (\<lambda>client.
        sbind (lib0 ''Client.Database'' [client, GStr (str_or ''admin'' (mg_DBname config))]) (\<lambda>db.
        deferred (sbind (warn_only Warn ''failed to disconnect from mongodb'' (lib ''Client.Disconnect'' [client])) (\<lambda>_. sret ()))
          (deferred (sbind (warn_only Error ''failed to close cursor'' (lib ''Cursor.Close'' [GNil])) (\<lambda>_. sret ()))
            (sbind (repeat_times (nat (int_or 1 (mg_Repeat config))) (mongo_query_once ord db config)) (\<lambda>_.
             mongo_burn (BurnDuration config))))))))))))"

lemma clean_when_some [clean_rules]: "(\<And>v. clean (f v)) \<Longrightarrow> clean (when_some x f)"
  by (cases x) (auto simp: when_some_def)

lemma MongoDBQuery_clean:
  "parse_only (mongo_fields oor opts) mongo_zero cfg = Ret () \<Longrightarrow> clean (MongoDBQuery_Execute oor opts ord cfg)"
  unfolding MongoDBQuery_Execute_def buildClientOpts_def mongo_query_once_def mongo_burn_def Let_def by (intro clean_rules; simp)

section \<open>The cursor that is closed\<close>

lemma calls_when_some [calls_rules]: "(\<And>v. calls_only P (f v)) \<Longrightarrow> calls_only P (when_some x f)"
  by (cases x) (auto simp: when_some_def intro: calls_basic)

text \<open>No cursor that a query has opened is ever closed: the only cursor that is, is nil.\<close>

lemma mongo_closes_only_nil:
  "calls_only (\<lambda>c. fst c = ''Cursor.Close'' \<longrightarrow> snd c = [GNil]) (MongoDBQuery_Execute oor opts ord cfg)"
  unfolding MongoDBQuery_Execute_def buildClientOpts_def mongo_query_once_def mongo_burn_def Let_def
  by (intro calls_rules; simp)

text \<open>
  The connection string of a replica set has a slash after every host, where the separator of
  hosts is expected, and the key \<^verbatim>\<open>sslmode\<close> of a config is not the key of the field.
\<close>

lemma mongo_uri_of_replica_set:
  "mongo_uri (mongo_connection_zero\<lparr>Hosts := [''db0'', ''db1''], ReplicaSet := ''rs''\<rparr>) =
     ''mongodb://db0:27017/,db1:27017/?replicaSet=rs''"
  by (simp add: mongo_uri_def mongo_connection_zero_def str_or_def int_or_def uri_options_def itoa_def show_eval)

lemma mongo_sslmode_key_is_ignored:
  "ParseConfig (mongo_fields oor opts) mongo_zero [(''connection'', GMapS [(''sslmode'', GBool True)])] = Ret mongo_zero"
  by (simp add: parse_eval mongo_fields_def mongo_connection_fields_def mongo_zero_def lower_char_def)

end
