(* ===== verification/Spans.thy ===== *)
theory Spans
  imports World
begin

text \<open>
  Spans of the two tracers, Datadog's \<^verbatim>\<open>ddtrace/tracer\<close> and OpenTelemetry's \<^verbatim>\<open>otel/trace\<close>, as
  the services use them. A span is known by the number of the call that started it; a variable
  of a span interface that nothing was assigned to is nil, and a method of nil panics.
  Calls of a tracer are recorded; they return nothing the code looks at and do not fail.
\<close>

section \<open>Starting and ending spans\<close>

type_synonym span = "nat option"

definition trace_call :: "string \<Rightarrow> gval list \<Rightarrow> unit prog" where
  "trace_call f args w = (w\<lparr>pr_calls := pr_calls w @ [(f, args)]\<rparr>, Ret ())"

definition start_span :: "string \<Rightarrow> gval list \<Rightarrow> span prog" where
  "start_span f args w = (w\<lparr>pr_calls := pr_calls w @ [(f, args)]\<rparr>, Ret (Some (length (pr_calls w))))"

definition span_call :: "string \<Rightarrow> span \<Rightarrow> gval list \<Rightarrow> unit prog" where
  "span_call f s args =
     (case s of None \<Rightarrow> lift_out (Panic NilDereference) | Some i \<Rightarrow> trace_call f (GInt (int i) # args))"

abbreviation Span_Finish :: "span \<Rightarrow> unit prog" where
  "Span_Finish s \<equiv> span_call ''Span.Finish'' s []"

text \<open>\<^verbatim>\<open>span.Finish(tracer.WithError(err))\<close>\<close>

abbreviation Span_Finish_error :: "span \<Rightarrow> gerror \<Rightarrow> unit prog" where
  "Span_Finish_error s e \<equiv> span_call ''Span.Finish'' s [GStr (error_text e)]"

abbreviation Span_End :: "span \<Rightarrow> unit prog" where
  "Span_End s \<equiv> span_call ''Span.End'' s []"

abbreviation Span_SetAttribute :: "span \<Rightarrow> string \<Rightarrow> gval \<Rightarrow> unit prog" where
  "Span_SetAttribute s k v \<equiv> span_call ''Span.SetAttributes'' s [GStr k, v]"

text \<open>\<^verbatim>\<open>span.RecordError(err); span.SetStatus(codes.Error, err.Error())\<close>\<close>

definition Span_error :: "span \<Rightarrow> gerror \<Rightarrow> unit prog" where
  "Span_error s e =
     sbind (span_call ''Span.RecordError'' s [GStr (error_text e)]) (\<lambda>_.
     span_call ''Span.SetStatus'' s [GStr ''Error'', GStr (error_text e)])"

abbreviation Span_ok :: "span \<Rightarrow> string \<Rightarrow> unit prog" where
  "Span_ok s msg \<equiv> span_call ''Span.SetStatus'' s [GStr ''Ok'', GStr msg]"

text \<open>\<^verbatim>\<open>span := start; defer span.Finish(); body\<close>\<close>

definition with_span :: "span prog \<Rightarrow> (span \<Rightarrow> unit prog) \<Rightarrow> (span \<Rightarrow> 'a prog) \<Rightarrow> 'a prog" where
  "with_span start finish body = sbind start (\<lambda>s. deferred (finish s) (body s))"

section \<open>Every span that is started is ended\<close>

type_synonym call = "string \<times> gval list"

definition is_start :: "call \<Rightarrow> bool" where
  "is_start c \<longleftrightarrow> fst c = ''tracer.StartSpan'' \<or> fst c = ''Tracer.Start''"

definition ends_span :: "nat \<Rightarrow> call \<Rightarrow> bool" where
  "ends_span i c \<longleftrightarrow> (fst c = ''Span.Finish'' \<or> fst c = ''Span.End'') \<and> (\<exists>as. snd c = GInt (int i) # as)"

text \<open>Calls number \<open>n\<close> and following: behind each start of a span there is an end of it.\<close>

definition all_end :: "nat \<Rightarrow> call list \<Rightarrow> bool" where
  "all_end n cs \<longleftrightarrow> (\<forall>i<length cs. is_start (cs ! i) \<longrightarrow> (\<exists>j>i. j < length cs \<and> ends_span (n + i) (cs ! j)))"

text \<open>A call that does not return, or that takes the process with it, may leave spans open.\<close>

definition closes_spans :: "'a prog \<Rightarrow> bool" where
  "closes_spans m \<longleftrightarrow> (\<forall>w. no_return (snd (m w))
     \<or> (\<exists>cs. pr_calls (fst (m w)) = pr_calls w @ cs \<and> all_end (length (pr_calls w)) cs))"

named_theorems span_rules \<open>programs that end every span they start\<close>

lemma all_end_Nil [simp]: "all_end n []"
  by (simp add: all_end_def)

lemma all_end_none: "\<forall>c\<in>set cs. \<not> is_start c \<Longrightarrow> all_end n cs"
  by (auto simp: all_end_def)

lemma all_end_append:
  assumes "all_end n xs" "all_end (n + length xs) ys"
  shows "all_end n (xs @ ys)"
  unfolding all_end_def
proof (intro allI impI)
  fix i assume i: "i < length (xs @ ys)" "is_start ((xs @ ys) ! i)"
  show "\<exists>j>i. j < length (xs @ ys) \<and> ends_span (n + i) ((xs @ ys) ! j)"
  proof (cases "i < length xs")
    case True
    with i assms(1) obtain j where "i < j" "j < length xs" "ends_span (n + i) (xs ! j)"
      by (auto simp: all_end_def nth_append)
    then show ?thesis by (intro exI[of _ j]) (simp add: nth_append)
  next
    case False
    define k where "k = i - length xs"
    have k: "i = length xs + k" "k < length ys" "is_start (ys ! k)" using False i by (simp_all add: k_def nth_append)
    with assms(2) obtain j where "k < j" "j < length ys" "ends_span (n + length xs + k) (ys ! j)"
      by (auto simp: all_end_def)
    then show ?thesis using k(1) by (intro exI[of _ "length xs + j"]) (simp add: add.assoc)
  qed
qed

text \<open>A start followed by calls that close their own spans and end with the end of this one.\<close>

lemma all_end_span:
  assumes "all_end (Suc n) cs" "ends_span n e" "\<not> is_start e"
  shows "all_end n (s # cs @ [e])"
  unfolding all_end_def
proof (intro allI impI)
  fix i assume i: "i < length (s # cs @ [e])" "is_start ((s # cs @ [e]) ! i)"
  show "\<exists>j>i. j < length (s # cs @ [e]) \<and> ends_span (n + i) ((s # cs @ [e]) ! j)"
  proof (cases i)
    case 0
    then show ?thesis using assms(2) by (intro exI[of _ "Suc (length cs)"]) (simp add: nth_append)
  next
    case (Suc k)
    with i assms(3) have k: "k < length cs" "is_start (cs ! k)"
      by (auto simp: nth_append less_Suc_eq split: if_splits)
    with assms(1) obtain j where "k < j" "j < length cs" "ends_span (Suc n + k) (cs ! j)" by (auto simp: all_end_def)
    then show ?thesis using Suc by (intro exI[of _ "Suc j"]) (simp add: nth_append)
  qed
qed

lemma closes_spansI:
  "(\<And>w. \<not> no_return (snd (m w)) \<Longrightarrow> \<exists>cs. pr_calls (fst (m w)) = pr_calls w @ cs \<and> all_end (length (pr_calls w)) cs)
    \<Longrightarrow> closes_spans m"
  by (auto simp: closes_spans_def)

lemma closes_spansE:
  assumes "closes_spans m" "m w = (w', r)" "\<not> no_return r"
  obtains cs where "pr_calls w' = pr_calls w @ cs" "all_end (length (pr_calls w)) cs"
  using assms unfolding closes_spans_def by (metis fst_conv snd_conv)

lemma closes_then:
  assumes "pr_calls w1 = pr_calls w @ cs" "all_end (length (pr_calls w)) cs" "closes_spans m" "\<not> no_return (snd (m w1))"
  shows "\<exists>cs'. pr_calls (fst (m w1)) = pr_calls w @ cs' \<and> all_end (length (pr_calls w)) cs'"
proof -
  obtain cs1 where c: "pr_calls (fst (m w1)) = pr_calls w1 @ cs1" "all_end (length (pr_calls w1)) cs1"
    using assms(3,4) by (auto simp: closes_spans_def)
  with assms(1,2) show ?thesis by (intro exI[of _ "cs @ cs1"]) (simp add: all_end_append)
qed

lemma closes_calls_only:
  assumes "calls_only (\<lambda>c. \<not> is_start c) m"
  shows "closes_spans m"
  using assms all_end_none unfolding closes_spans_def calls_only_def by meson

lemma closes_sbind [span_rules]:
  assumes "closes_spans m" "\<And>x. closes_spans (f x)"
  shows "closes_spans (sbind m f)"
proof (rule closes_spansI)
  fix w
  assume n: "\<not> no_return (snd (sbind m f w))"
  obtain w1 r where m: "m w = (w1, r)" by fastforce
  have "\<not> no_return r" using n m by (cases r) (auto simp: sbind_def)
  with assms(1) m obtain cs where cs: "pr_calls w1 = pr_calls w @ cs" "all_end (length (pr_calls w)) cs" by (rule closes_spansE)
  show "\<exists>cs. pr_calls (fst (sbind m f w)) = pr_calls w @ cs \<and> all_end (length (pr_calls w)) cs"
    using n m cs closes_then[OF cs assms(2)] by (cases r) (auto simp: sbind_def)
qed

lemma closes_on_err [span_rules]:
  assumes "closes_spans m" "\<And>e. closes_spans (h e)"
  shows "closes_spans (on_err m h)"
proof (rule closes_spansI)
  fix w
  assume n: "\<not> no_return (snd (on_err m h w))"
  obtain w1 r where m: "m w = (w1, r)" by fastforce
  have "\<not> no_return r" using n m by (cases r) (auto simp: on_err_def)
  with assms(1) m obtain cs where cs: "pr_calls w1 = pr_calls w @ cs" "all_end (length (pr_calls w)) cs" by (rule closes_spansE)
  show "\<exists>cs. pr_calls (fst (on_err m h w)) = pr_calls w @ cs \<and> all_end (length (pr_calls w)) cs"
    using n m cs closes_then[OF cs assms(2)] by (cases r) (auto simp: on_err_def)
qed

lemma deferred_returns:
  assumes "m w = (w1, r)" "\<not> no_return (snd (deferred d m w))"
  shows "\<not> no_return r \<and> \<not> no_return (snd (d w1)) \<and> fst (deferred d m w) = fst (d w1)"
  using assms by (auto simp: deferred_def split: prod.splits outcome.splits if_splits)

lemma closes_deferred [span_rules]:
  assumes "closes_spans d" "closes_spans m"
  shows "closes_spans (deferred d m)"
proof (rule closes_spansI)
  fix w
  assume n: "\<not> no_return (snd (deferred d m w))"
  obtain w1 r where m: "m w = (w1, r)" by fastforce
  note r = deferred_returns[OF m n]
  from assms(2) m r[THEN conjunct1] obtain cs where cs: "pr_calls w1 = pr_calls w @ cs" "all_end (length (pr_calls w)) cs"
    by (rule closes_spansE)
  show "\<exists>cs. pr_calls (fst (deferred d m w)) = pr_calls w @ cs \<and> all_end (length (pr_calls w)) cs"
    using r closes_then[OF cs assms(1)] by simp
qed

lemma closes_basic [span_rules]: "closes_spans (sret x)" "closes_spans (lift_out r)" "closes_spans (say l msg)"
  "closes_spans (print_out s)" "closes_spans (env g)"
  by (rule closes_calls_only, rule calls_basic)+

lemma closes_if [span_rules]: "(b \<Longrightarrow> closes_spans m) \<Longrightarrow> (\<not> b \<Longrightarrow> closes_spans m') \<Longrightarrow> closes_spans (if b then m else m')"
  by simp

lemma closes_option [span_rules]: "closes_spans m \<Longrightarrow> (\<And>x. closes_spans (f x)) \<Longrightarrow> closes_spans (case v of None \<Rightarrow> m | Some x \<Rightarrow> f x)"
  by (cases v) auto

lemma closes_change [span_rules]: "(\<And>w. pr_calls (g w) = pr_calls w) \<Longrightarrow> closes_spans (change g)"
  by (rule closes_spansI) (simp add: change_def)

lemma closes_lib [span_rules]: "\<not> is_start (f, args) \<Longrightarrow> closes_spans (lib f args)"
  by (rule closes_calls_only) (rule calls_lib)

lemma closes_lib0 [span_rules]: "\<not> is_start (f, args) \<Longrightarrow> closes_spans (lib0 f args)"
  by (rule closes_calls_only) (rule calls_lib0)

lemma closes_call0 [span_rules]: "\<not> is_start (f, args) \<Longrightarrow> closes_spans (call0 f args)"
  by (rule closes_calls_only) (rule calls_call0)

lemma calls_trace_call [calls_rules]: "P (f, args) \<Longrightarrow> calls_only P (trace_call f args)"
  by (simp add: calls_only_def trace_call_def)

lemma calls_start_span [calls_rules]: "P (f, args) \<Longrightarrow> calls_only P (start_span f args)"
  by (simp add: calls_only_def start_span_def)

lemma calls_span_call [calls_rules]: "(\<And>i. P (f, GInt (int i) # args)) \<Longrightarrow> calls_only P (span_call f s args)"
  unfolding span_call_def by (cases s) (auto intro!: calls_rules)

lemma calls_with_span [calls_rules]:
  "calls_only P start \<Longrightarrow> (\<And>s. calls_only P (finish s)) \<Longrightarrow> (\<And>s. calls_only P (body s)) \<Longrightarrow> calls_only P (with_span start finish body)"
  unfolding with_span_def by (intro calls_rules)

lemma closes_trace_call [span_rules]: "\<not> is_start (f, args) \<Longrightarrow> closes_spans (trace_call f args)"
  by (rule closes_calls_only) (rule calls_trace_call)

lemma closes_span_call [span_rules]: "f \<noteq> ''tracer.StartSpan'' \<Longrightarrow> f \<noteq> ''Tracer.Start'' \<Longrightarrow> closes_spans (span_call f s args)"
  by (rule closes_calls_only) (intro calls_rules, simp add: is_start_def)

lemma closes_Span_error [span_rules]: "closes_spans (Span_error s e)"
  unfolding Span_error_def by (intro span_rules) simp_all

lemma closes_or_warn [span_rules]: "closes_spans m \<Longrightarrow> closes_spans (or_warn msg m)"
  unfolding or_warn_def by (intro span_rules)

lemma closes_with_span [span_rules]:
  assumes "\<And>s. closes_spans (body s)" "g = ''Span.Finish'' \<or> g = ''Span.End''"
  shows "closes_spans (with_span (start_span f args) (\<lambda>s. span_call g s as) body)"
proof (rule closes_spansI)
  fix w :: process
  assume n: "\<not> no_return (snd (with_span (start_span f args) (\<lambda>s. span_call g s as) body w))"
  let ?s = "Some (length (pr_calls w)) :: span" and ?w = "w\<lparr>pr_calls := pr_calls w @ [(f, args)]\<rparr>"
  obtain w1 r where b: "body ?s ?w = (w1, r)" by fastforce
  have n': "\<not> no_return r" using n b by (auto simp: with_span_def sbind_def start_span_def deferred_def)
  obtain cs where cs: "pr_calls w1 = pr_calls ?w @ cs" "all_end (length (pr_calls ?w)) cs" using assms(1) b n' by (rule closes_spansE)
  have "all_end (length (pr_calls w)) ((f, args) # cs @ [(g, GInt (int (length (pr_calls w))) # as)])"
    using cs(2) assms(2) by (intro all_end_span) (auto simp: ends_span_def is_start_def)
  then show "\<exists>cs. pr_calls (fst (with_span (start_span f args) (\<lambda>s. span_call g s as) body w)) = pr_calls w @ cs
      \<and> all_end (length (pr_calls w)) cs"
    using b n' cs(1) by (simp add: with_span_def sbind_def start_span_def deferred_def span_call_def trace_call_def)
qed

text \<open>\<^verbatim>\<open>span := start; span.Finish(); m\<close>, with \<open>m\<close> still holding the span.\<close>

lemma closes_at_once [span_rules]:
  assumes "\<And>s. closes_spans (m s)" "g = ''Span.Finish'' \<or> g = ''Span.End''"
  shows "closes_spans (sbind (start_span f args) (\<lambda>s. sbind (span_call g s as) (\<lambda>_. m s)))"
proof (rule closes_spansI)
  fix w :: process
  assume n: "\<not> no_return (snd (sbind (start_span f args) (\<lambda>s. sbind (span_call g s as) (\<lambda>_. m s)) w))"
  let ?i = "length (pr_calls w)" and ?c = "(g, GInt (int (length (pr_calls w))) # as)"
  let ?w = "w\<lparr>pr_calls := pr_calls w @ [(f, args), ?c]\<rparr>"
  have "all_end ?i ((f, args) # [] @ [?c])" using assms(2) by (intro all_end_span) (auto simp: ends_span_def is_start_def)
  then have e: "all_end ?i [(f, args), ?c]" by simp
  have c: "pr_calls ?w = pr_calls w @ [(f, args), ?c]" by simp
  show "\<exists>cs. pr_calls (fst (sbind (start_span f args) (\<lambda>s. sbind (span_call g s as) (\<lambda>_. m s)) w)) = pr_calls w @ cs
      \<and> all_end (length (pr_calls w)) cs"
    using n closes_then[OF c e assms(1)] by (simp add: sbind_def start_span_def span_call_def trace_call_def)
qed

lemma sbind_env [simp]: "sbind (env g) f w = f (g w) w"
  by (simp add: sbind_def env_def)

lemma trace_call_run [simp]: "trace_call f args w = (w\<lparr>pr_calls := pr_calls w @ [(f, args)]\<rparr>, Ret ())"
  by (simp add: trace_call_def)

lemma span_call_cases [simp]: "span_call f None args = lift_out (Panic NilDereference)"
  "span_call f (Some i) args = trace_call f (GInt (int i) # args)"
  by (simp_all add: span_call_def)

lemmas span_defs = start_span_def with_span_def Span_error_def

end
