(* ===== verification/Minio.thy ===== *)
theory Minio
  imports Spans Sql
begin

text \<open>
  The MinIO service (\<^verbatim>\<open>pkg/actions/minio_service.go\<close>). Each operation runs inside a span of the
  tracer that is enabled; the two span variables \<^verbatim>\<open>child\<close> and \<^verbatim>\<open>span\<close> of the code are nil unless the
  branch for that tracer assigns them. The client is a set of library calls.
\<close>

section \<open>Config\<close>

record MinioBucket =
  mb_Name :: string

record MinioServiceConfig =
  mi_Endpoint :: string
  mi_AccessKeyID :: string
  mi_SecretAccessKey :: string
  mi_UseSSL :: bool
  mi_Buckets :: "MinioBucket list"
  mi_PeerService :: string
  mi_PeerNamespace :: string

record MinioService =
  ms_name :: string
  ms_config :: MinioServiceConfig
  ms_client :: gval

definition bucket_fields :: "MinioBucket fields" where
  "bucket_fields = [(''name'', fld dec_string mb_Name (\<lambda>v r. r\<lparr>mb_Name := v\<rparr>))]"

definition bucket_zero :: MinioBucket where
  "bucket_zero = \<lparr>mb_Name = []\<rparr>"

definition minio_fields :: "MinioServiceConfig fields" where
  "minio_fields =
     [(''endpoint'', fld dec_string mi_Endpoint (\<lambda>v r. r\<lparr>mi_Endpoint := v\<rparr>)),
      (''accesskeyid'', fld dec_string mi_AccessKeyID (\<lambda>v r. r\<lparr>mi_AccessKeyID := v\<rparr>)),
      (''secretaccesskey'', fld dec_string mi_SecretAccessKey (\<lambda>v r. r\<lparr>mi_SecretAccessKey := v\<rparr>)),
      (''usessl'', fld dec_bool mi_UseSSL (\<lambda>v r. r\<lparr>mi_UseSSL := v\<rparr>)),
      (''buckets'', fld (dec_list (decode_struct bucket_fields) bucket_zero) mi_Buckets (\<lambda>v r. r\<lparr>mi_Buckets := v\<rparr>)),
      (''peer_service'', fld dec_string mi_PeerService (\<lambda>v r. r\<lparr>mi_PeerService := v\<rparr>)),
      (''peer_namespace'', fld dec_string mi_PeerNamespace (\<lambda>v r. r\<lparr>mi_PeerNamespace := v\<rparr>))]"

definition minio_zero :: MinioServiceConfig where
  "minio_zero = \<lparr>mi_Endpoint = [], mi_AccessKeyID = [], mi_SecretAccessKey = [], mi_UseSSL = False, mi_Buckets = [],
     mi_PeerService = [], mi_PeerNamespace = []\<rparr>"

section \<open>Objects\<close>

definition minio_ddStartSpan :: "MinioService \<Rightarrow> string \<Rightarrow> span prog" where
  "minio_ddStartSpan ms resource =
     start_span ''tracer.StartSpan'' [GStr ''minio.command'', GStr resource, GStr (mi_PeerService (ms_config ms)),
       GStr (mi_Endpoint (ms_config ms))]"

text \<open>The OpenTelemetry branch in front of an operation.\<close>

definition minio_otel_span :: "MinioService \<Rightarrow> string \<Rightarrow> string \<Rightarrow> (span \<Rightarrow> 'a prog) \<Rightarrow> 'a prog" where
  "minio_otel_span ms resource bucket body =
     with_span (start_span ''Tracer.Start'' [GStr ''minio-storage'', GStr resource, GStr ''client'']) (\<lambda>span. Span_End span) (\<lambda>span.
       sbind (Span_SetAttribute span ''aws.s3.bucket'' (GStr bucket)) (\<lambda>_.
       sbind (Span_SetAttribute span ''peer.service'' (GStr (mi_PeerService (ms_config ms)))) (\<lambda>_.
       sbind (Span_SetAttribute span ''peer.namespace'' (GStr (mi_PeerNamespace (ms_config ms)))) (\<lambda>_.
       body span))))"

text \<open>The end of an operation that failed: the span of the enabled tracer gets the error.\<close>

definition minio_failed :: "bool \<Rightarrow> span \<Rightarrow> span \<Rightarrow> gerror \<Rightarrow> 'a prog" where
  "minio_failed datadog child ospan e =
     sbind (say Warn ''failed to send message'') (\<lambda>_.
     sbind (if datadog then Span_Finish_error child e else Span_error ospan e) (\<lambda>_.
     lift_out (Err e)))"

text \<open>
  \<^verbatim>\<open>Get_object\<close> assigns the outer \<^verbatim>\<open>child\<close>, and finishes it when \<^verbatim>\<open>GetObject\<close> fails, whatever the
  tracer.
\<close>

definition get_object_body :: "bool \<Rightarrow> MinioService \<Rightarrow> string \<Rightarrow> string \<Rightarrow> span \<Rightarrow> span \<Rightarrow> string prog" where
  "get_object_body datadog ms bucket object child ospan =
     sbind (on_err (lib ''Client.GetObject'' [ms_client ms, GStr bucket, GStr object])
        (\<lambda>e. sbind (Span_Finish_error child e) (\<lambda>_. lift_out (Err e)))) (\<lambda>obj.
     sbind (on_err (lib ''io.ReadAll'' [obj]) (minio_failed datadog child ospan)) (\<lambda>data.
     sret (as_string data)))"

definition MinioService_Get_object :: "MinioService \<Rightarrow> string \<Rightarrow> string \<Rightarrow> string prog" where
  "MinioService_Get_object ms bucket object =
     sbind (env pr_env) (\<lambda>getenv.
       if IsDatadogEnabled getenv then
         with_span (minio_ddStartSpan ms ''GetObject'') (\<lambda>child. Span_Finish child) (\<lambda>child.
           get_object_body True ms bucket object child None)
       else minio_otel_span ms ''GetObject'' bucket (\<lambda>span. get_object_body False ms bucket object None span))"

text \<open>
  \<^verbatim>\<open>Put_object\<close> and \<^verbatim>\<open>Remove_object\<close> declare a new \<^verbatim>\<open>child\<close> in the branch for Datadog
  (\<^verbatim>\<open>child := ms.ddStartSpan(...)\<close>); behind the branch the outer one is still nil.
\<close>

definition put_object_body :: "bool \<Rightarrow> MinioService \<Rightarrow> string \<Rightarrow> string \<Rightarrow> string \<Rightarrow> span \<Rightarrow> span \<Rightarrow> unit prog" where
  "put_object_body datadog ms bucket object data child ospan =
     sbind (on_err (lib ''Client.PutObject'' [ms_client ms, GStr bucket, GStr object, GStr data, GInt (int (length data)), GStr ''text/plain''])
        (minio_failed datadog child ospan)) (\<lambda>_. sret ())"

definition MinioService_Put_object :: "MinioService \<Rightarrow> string \<Rightarrow> string \<Rightarrow> string \<Rightarrow> unit prog" where
  "MinioService_Put_object ms bucket object data =
     sbind (env pr_env) (\<lambda>getenv.
       if IsDatadogEnabled getenv then
         with_span (minio_ddStartSpan ms ''PutObject'') (\<lambda>shadow. Span_Finish shadow) (\<lambda>shadow.
           put_object_body True ms bucket object data None None)
       else minio_otel_span ms ''PutObject'' bucket (\<lambda>span. put_object_body False ms bucket object data None span))"

definition remove_object_body :: "bool \<Rightarrow> MinioService \<Rightarrow> string \<Rightarrow> string \<Rightarrow> span \<Rightarrow> span \<Rightarrow> unit prog" where
  "remove_object_body datadog ms bucket object child ospan =
     sbind (on_err (lib ''Client.RemoveObject'' [ms_client ms, GStr bucket, GStr object]) (minio_failed datadog child ospan)) (\<lambda>_. sret ())"

definition MinioService_Remove_object :: "MinioService \<Rightarrow> string \<Rightarrow> string \<Rightarrow> unit prog" where
  "MinioService_Remove_object ms bucket object =
     sbind (env pr_env) (\<lambda>getenv.
       if IsDatadogEnabled getenv then
         with_span (minio_ddStartSpan ms ''RemoveObject'') (\<lambda>shadow. Span_Finish shadow) (\<lambda>shadow.
           remove_object_body True ms bucket object None None)
       else minio_otel_span ms ''RemoveObject'' bucket (\<lambda>span. remove_object_body False ms bucket object None span))"

section \<open>The constructor\<close>

fun make_buckets :: "gval \<Rightarrow> MinioBucket list \<Rightarrow> unit prog" where
  "make_buckets client [] = sret ()"
| "make_buckets client (b # bs) =
     sbind (lib ''Client.BucketExists'' [client, GStr (mb_Name b)]) (\<lambda>exists.
       if as_bool exists then make_buckets client bs
       else sbind (lib ''Client.MakeBucket'' [client, GStr (mb_Name b)]) (\<lambda>_. make_buckets client bs))"

definition NewMinioService :: "string \<Rightarrow> gmap \<Rightarrow> MinioService prog" where
  "NewMinioService name config =
     sbind (lift_out (ParseConfig minio_fields minio_zero config)) (\<lambda>cfg.
     sbind (lib ''minio.New'' [GStr (mi_Endpoint cfg), GStr (mi_AccessKeyID cfg), GStr (mi_SecretAccessKey cfg), GBool (mi_UseSSL cfg)]) (\<lambda>client.
     sbind (make_buckets client (mi_Buckets cfg)) (\<lambda>_.
     sret \<lparr>ms_name = name, ms_config = cfg, ms_client = client\<rparr>)))"

text \<open>The service as the registry holds it, and the struct behind the interface.\<close>

definition minio_constructor :: "string \<Rightarrow> gmap \<Rightarrow> service prog" where
  "minio_constructor name m =
     sbind (or_panic (NewMinioService name m)) (\<lambda>ms.
     sret \<lparr>sv_name = ms_name ms, sv_type = ''minio'', sv_config = m, sv_handle = ms_client ms\<rparr>)"

definition as_minio :: "service \<Rightarrow> MinioService" where
  "as_minio s = \<lparr>ms_name = sv_name s,
     ms_config = (case ParseConfig minio_fields minio_zero (sv_config s) of Ret c \<Rightarrow> c | _ \<Rightarrow> minio_zero), ms_client = sv_handle s\<rparr>"

lemma as_minio_constructed:
  "NewMinioService n m w = (w', Ret ms) \<Longrightarrow> \<exists>s. minio_constructor n m w = (w', Ret s) \<and> as_minio s = ms"
  by (cases "ParseConfig minio_fields minio_zero m")
    (auto simp: minio_constructor_def or_panic_def NewMinioService_def as_minio_def prog_defs split: prod.splits outcome.splits)

section \<open>Lemmas\<close>

lemma calls_minio_failed [calls_rules]:
  "(\<And>f as. f \<in> {''Span.Finish'', ''Span.RecordError'', ''Span.SetStatus''} \<Longrightarrow> P (f, as)) \<Longrightarrow> calls_only P (minio_failed dd child ospan e)"
  unfolding minio_failed_def Span_error_def by (intro calls_rules) auto

lemma closes_minio_failed [span_rules]: "closes_spans (minio_failed dd child ospan e)"
  unfolding minio_failed_def by (intro span_rules) simp_all

lemma closes_minio_otel [span_rules]: "(\<And>s. closes_spans (body s)) \<Longrightarrow> closes_spans (minio_otel_span ms resource bucket body)"
  unfolding minio_otel_span_def by (intro span_rules) simp_all

lemma closes_minio: "closes_spans (MinioService_Get_object ms bucket object)"
  "closes_spans (MinioService_Put_object ms bucket object data)" "closes_spans (MinioService_Remove_object ms bucket object)"
  unfolding MinioService_Get_object_def MinioService_Put_object_def MinioService_Remove_object_def minio_ddStartSpan_def
    get_object_body_def put_object_body_def remove_object_body_def
  by (intro span_rules; simp add: is_start_def)+

text \<open>Where the call of the client stands among the calls of an operation.\<close>

definition minio_call :: "process \<Rightarrow> nat" where
  "minio_call w = length (pr_calls w) + (if IsDatadogEnabled (pr_env w) then 1 else 4)"

lemma otel_span_run:
  "snd (minio_otel_span ms resource bucket body w) =
     snd (body (Some (length (pr_calls w))) (w\<lparr>pr_calls := pr_calls w @ [(''Tracer.Start'', [GStr ''minio-storage'', GStr resource, GStr ''client'']),
        (''Span.SetAttributes'', [GInt (int (length (pr_calls w))), GStr ''aws.s3.bucket'', GStr bucket]),
        (''Span.SetAttributes'', [GInt (int (length (pr_calls w))), GStr ''peer.service'', GStr (mi_PeerService (ms_config ms))]),
        (''Span.SetAttributes'', [GInt (int (length (pr_calls w))), GStr ''peer.namespace'', GStr (mi_PeerNamespace (ms_config ms))])]\<rparr>))"
  by (simp add: minio_otel_span_def span_defs sbind_def deferred_def split: prod.splits outcome.splits)

lemma dd_span_run:
  "snd (with_span (minio_ddStartSpan ms resource) (\<lambda>child. Span_Finish child) body w) =
     snd (body (Some (length (pr_calls w))) (w\<lparr>pr_calls := pr_calls w @ [(''tracer.StartSpan'', [GStr ''minio.command'', GStr resource,
        GStr (mi_PeerService (ms_config ms)), GStr (mi_Endpoint (ms_config ms))])]\<rparr>))"
  by (simp add: minio_ddStartSpan_def span_defs sbind_def deferred_def split: prod.splits outcome.splits)

text \<open>What the constructor asks for, from call number \<open>n\<close> on, and is answered.\<close>

inductive buckets_seen :: "(nat \<Rightarrow> gval outcome) \<Rightarrow> gval \<Rightarrow> nat \<Rightarrow> MinioBucket list \<Rightarrow> call list \<Rightarrow> bool" for answers client where
  seen_none: "buckets_seen answers client n [] []"
| seen_there: "answers n = Ret v \<Longrightarrow> as_bool v \<Longrightarrow> buckets_seen answers client (Suc n) bs cs \<Longrightarrow>
    buckets_seen answers client n (b # bs) ((''Client.BucketExists'', [client, GStr (mb_Name b)]) # cs)"
| seen_made: "answers n = Ret v \<Longrightarrow> \<not> as_bool v \<Longrightarrow> answers (Suc n) = Ret u \<Longrightarrow> buckets_seen answers client (Suc (Suc n)) bs cs \<Longrightarrow>
    buckets_seen answers client n (b # bs)
      ((''Client.BucketExists'', [client, GStr (mb_Name b)]) # (''Client.MakeBucket'', [client, GStr (mb_Name b)]) # cs)"

lemma make_buckets_seen:
  "make_buckets client bs w = (w', Ret ()) \<Longrightarrow>
    \<exists>cs. pr_calls w' = pr_calls w @ cs \<and> buckets_seen (pr_answers w) client (length (pr_calls w)) bs cs"
proof (induction bs arbitrary: w)
  case Nil
  then show ?case by (auto simp: sret_def intro: seen_none)
next
  case (Cons b bs)
  let ?e = "(''Client.BucketExists'', [client, GStr (mb_Name b)])" and ?m = "(''Client.MakeBucket'', [client, GStr (mb_Name b)])"
  obtain v where v: "pr_answers w (length (pr_calls w)) = Ret v"
    using Cons.prems by (cases "pr_answers w (length (pr_calls w))") (auto simp: sbind_def lib_def)
  show ?case
  proof (cases "as_bool v")
    case True
    with Cons.prems v have "make_buckets client bs (w\<lparr>pr_calls := pr_calls w @ [?e]\<rparr>) = (w', Ret ())"
      by (simp add: sbind_def lib_def)
    from Cons.IH[OF this] v True show ?thesis by (auto intro: seen_there)
  next
    case False
    obtain u where u: "pr_answers w (Suc (length (pr_calls w))) = Ret u"
      using Cons.prems v False by (cases "pr_answers w (Suc (length (pr_calls w)))") (auto simp: sbind_def lib_def)
    with Cons.prems v False have "make_buckets client bs (w\<lparr>pr_calls := pr_calls w @ [?e, ?m]\<rparr>) = (w', Ret ())"
      by (simp add: sbind_def lib_def)
    from Cons.IH[OF this] v u False show ?thesis by (auto intro: seen_made)
  qed
qed

text \<open>Call number \<open>n + i\<close> asked for the bucket, and it was there or the next call made it.\<close>

definition bucket_ready :: "(nat \<Rightarrow> gval outcome) \<Rightarrow> gval \<Rightarrow> nat \<Rightarrow> call list \<Rightarrow> MinioBucket \<Rightarrow> bool" where
  "bucket_ready answers client n cs b \<longleftrightarrow> (\<exists>i<length cs. cs ! i = (''Client.BucketExists'', [client, GStr (mb_Name b)])
     \<and> (answers (n + i) = Ret (GBool True)
       \<or> (Suc i < length cs \<and> cs ! Suc i = (''Client.MakeBucket'', [client, GStr (mb_Name b)]) \<and> is_ret (answers (n + Suc i)))))"

definition never_made_again :: "(nat \<Rightarrow> gval outcome) \<Rightarrow> nat \<Rightarrow> call list \<Rightarrow> bool" where
  "never_made_again answers n cs \<longleftrightarrow> (\<forall>i<length cs. fst (cs ! i) = ''Client.MakeBucket'' \<longrightarrow>
     (\<exists>k. i = Suc k \<and> cs ! k = (''Client.BucketExists'', snd (cs ! i)) \<and> answers (n + k) \<noteq> Ret (GBool True)))"

lemma ready_later: "bucket_ready answers client (n + length xs) cs b \<Longrightarrow> bucket_ready answers client n (xs @ cs) b"
  unfolding bucket_ready_def
  by (elim exE conjE) (rule_tac x = "length xs + i" in exI, simp add: nth_append add.assoc)

lemma as_bool_True: "as_bool v \<longleftrightarrow> v = GBool True"
  by (cases v) auto

lemma seen_ready: "buckets_seen answers client n bs cs \<Longrightarrow> b \<in> set bs \<Longrightarrow> bucket_ready answers client n cs b"
proof (induction rule: buckets_seen.induct)
  case (seen_there n v bs cs b')
  let ?e = "(''Client.BucketExists'', [client, GStr (mb_Name b')])"
  have "bucket_ready answers client n (?e # cs) b'"
    unfolding bucket_ready_def using seen_there by (intro exI[of _ 0]) (simp add: as_bool_True)
  moreover have "b \<in> set bs \<Longrightarrow> bucket_ready answers client n ([?e] @ cs) b"
    using seen_there by (intro ready_later) simp
  ultimately show ?case using seen_there.prems by auto
next
  case (seen_made n v u bs cs b')
  let ?e = "(''Client.BucketExists'', [client, GStr (mb_Name b')])" and ?m = "(''Client.MakeBucket'', [client, GStr (mb_Name b')])"
  have "bucket_ready answers client n (?e # ?m # cs) b'"
    unfolding bucket_ready_def using seen_made by (intro exI[of _ 0]) simp
  moreover have "b \<in> set bs \<Longrightarrow> bucket_ready answers client n ([?e, ?m] @ cs) b"
    using seen_made by (intro ready_later) simp
  ultimately show ?case using seen_made.prems by auto
qed simp

lemma never_made_Nil: "never_made_again answers n []"
  by (simp add: never_made_again_def)

lemma never_made_later:
  assumes "never_made_again answers (n + length xs) cs" "never_made_again answers n xs"
  shows "never_made_again answers n (xs @ cs)"
  unfolding never_made_again_def
proof (intro allI impI)
  fix i assume i: "i < length (xs @ cs)" "fst ((xs @ cs) ! i) = ''Client.MakeBucket''"
  show "\<exists>k. i = Suc k \<and> (xs @ cs) ! k = (''Client.BucketExists'', snd ((xs @ cs) ! i)) \<and> answers (n + k) \<noteq> Ret (GBool True)"
  proof (cases "i < length xs")
    case True
    with i have "fst (xs ! i) = ''Client.MakeBucket''" by (simp add: nth_append)
    with assms(2) True obtain k where "i = Suc k" "xs ! k = (''Client.BucketExists'', snd (xs ! i))"
      "answers (n + k) \<noteq> Ret (GBool True)" unfolding never_made_again_def by blast
    with True show ?thesis by (intro exI[of _ k]) (auto simp: nth_append)
  next
    case False
    with i have "i - length xs < length cs" "fst (cs ! (i - length xs)) = ''Client.MakeBucket''" by (simp_all add: nth_append)
    with assms(1) obtain k where "i - length xs = Suc k" "cs ! k = (''Client.BucketExists'', snd (cs ! (i - length xs)))"
      "answers (n + length xs + k) \<noteq> Ret (GBool True)" unfolding never_made_again_def by blast
    with False show ?thesis by (intro exI[of _ "length xs + k"]) (auto simp: nth_append add.assoc)
  qed
qed

lemma seen_never_made: "buckets_seen answers client n bs cs \<Longrightarrow> never_made_again answers n cs"
proof (induction rule: buckets_seen.induct)
  case (seen_there n v bs cs b)
  let ?e = "(''Client.BucketExists'', [client, GStr (mb_Name b)])"
  have "never_made_again answers n ([?e] @ cs)"
    using seen_there by (intro never_made_later) (simp_all add: never_made_again_def)
  then show ?case by simp
next
  case (seen_made n v u bs cs b)
  let ?e = "(''Client.BucketExists'', [client, GStr (mb_Name b)])" and ?m = "(''Client.MakeBucket'', [client, GStr (mb_Name b)])"
  have "never_made_again answers n ([?e, ?m] @ cs)"
    using seen_made by (intro never_made_later) (auto simp: never_made_again_def less_Suc_eq as_bool_True)
  then show ?case by simp
qed (rule never_made_Nil)

section \<open>Properties\<close>

text \<open>
  C22. When the store refuses an operation, the error is returned only half of the time: a failed
  \<^verbatim>\<open>GetObject\<close> is returned under Datadog and panics with a nil span otherwise, while a failed
  \<^verbatim>\<open>PutObject\<close> or \<^verbatim>\<open>RemoveObject\<close> panics under Datadog and is returned otherwise.
\<close>

theorem minio_errors_crash:
  assumes "pr_answers w (minio_call w) = Err e"
  shows "snd (MinioService_Get_object ms bucket object w) = (if IsDatadogEnabled (pr_env w) then Err e else Panic NilDereference)
    \<and> snd (MinioService_Put_object ms bucket object data w) = (if IsDatadogEnabled (pr_env w) then Panic NilDereference else Err e)
    \<and> snd (MinioService_Remove_object ms bucket object w) = (if IsDatadogEnabled (pr_env w) then Panic NilDereference else Err e)"
  using assms
  by (cases "IsDatadogEnabled (pr_env w)")
    (simp_all add: MinioService_Get_object_def MinioService_Put_object_def MinioService_Remove_object_def dd_span_run otel_span_run
      minio_call_def get_object_body_def put_object_body_def remove_object_body_def minio_failed_def Span_error_def
      prog_defs req_emit_def eval_nat_numeral)

definition demo_minio :: MinioService where
  "demo_minio = \<lparr>ms_name = ''s3'', ms_config = minio_zero, ms_client = GInt 0\<rparr>"

theorem minio_errors_crash_witness:
  "snd (MinioService_Get_object demo_minio ''b'' ''o'' (idle_process\<lparr>pr_answers := \<lambda>_. Err (EExt ''denied'')\<rparr>)) = Panic NilDereference"
  using minio_errors_crash[of "idle_process\<lparr>pr_answers := \<lambda>_. Err (EExt ''denied'')\<rparr>" "EExt ''denied''" demo_minio "''b''" "''o''"]
  by (simp add: IsDatadogEnabled_def)

text \<open>
  C23. A MinIO service that is constructed has its buckets: each bucket of the config was reported
  to exist or made without an error, and a bucket is made only right after the store said that it
  does not exist.
\<close>

theorem minio_buckets_ready:
  assumes "NewMinioService name m w = (w', Ret ms)"
  shows "\<exists>c0 cs. pr_calls w' = pr_calls w @ c0 # cs \<and> fst c0 = ''minio.New''
    \<and> (\<forall>b\<in>set (mi_Buckets (ms_config ms)). bucket_ready (pr_answers w) (ms_client ms) (Suc (length (pr_calls w))) cs b)
    \<and> never_made_again (pr_answers w) (Suc (length (pr_calls w))) cs"
proof -
  obtain cfg where cfg: "ParseConfig minio_fields minio_zero m = Ret cfg"
    using assms by (cases "ParseConfig minio_fields minio_zero m") (auto simp: NewMinioService_def lift_out_def)
  let ?c = "(''minio.New'', [GStr (mi_Endpoint cfg), GStr (mi_AccessKeyID cfg), GStr (mi_SecretAccessKey cfg), GBool (mi_UseSSL cfg)])"
  obtain client where client: "pr_answers w (length (pr_calls w)) = Ret client"
    using assms cfg by (cases "pr_answers w (length (pr_calls w))") (auto simp: NewMinioService_def sbind_def lib_def)
  with assms cfg have "sbind (make_buckets client (mi_Buckets cfg)) (\<lambda>_. sret \<lparr>ms_name = name, ms_config = cfg, ms_client = client\<rparr>)
      (w\<lparr>pr_calls := pr_calls w @ [?c]\<rparr>) = (w', Ret ms)" by (simp add: NewMinioService_def sbind_def lib_def)
  then have m: "make_buckets client (mi_Buckets cfg) (w\<lparr>pr_calls := pr_calls w @ [?c]\<rparr>) = (w', Ret ())"
    and ms: "ms_client ms = client" "ms_config ms = cfg"
    by (auto simp: sbind_def sret_def split: prod.splits outcome.splits)
  obtain cs where cs: "pr_calls w' = pr_calls w @ ?c # cs" "buckets_seen (pr_answers w) client (Suc (length (pr_calls w))) (mi_Buckets cfg) cs"
    using make_buckets_seen[OF m] by auto
  show ?thesis
    unfolding ms using cs(1) seen_ready[OF cs(2)] seen_never_made[OF cs(2)] by (intro exI[of _ ?c] exI[of _ cs]) auto
qed

theorem minio_buckets_ready_witness:
  "\<exists>w' ms. NewMinioService ''s3'' [(''buckets'', GList [GMapS [(''name'', GStr ''videos'')]])] (idle_process\<lparr>pr_answers := \<lambda>_. Ret GNil\<rparr>)
      = (w', Ret ms) \<and> pr_calls w' ! 2 = (''Client.MakeBucket'', [GNil, GStr ''videos''])
    \<and> never_made_again (\<lambda>_. Ret GNil) 1 (drop 1 (pr_calls w'))"
proof -
  let ?w = "idle_process\<lparr>pr_answers := \<lambda>_. Ret GNil\<rparr>"
  have p: "ParseConfig minio_fields minio_zero [(''buckets'', GList [GMapS [(''name'', GStr ''videos'')]])]
      = Ret (minio_zero\<lparr>mi_Buckets := [\<lparr>mb_Name = ''videos''\<rparr>]\<rparr>)"
    by (simp add: parse_eval minio_fields_def minio_zero_def bucket_fields_def bucket_zero_def)
  obtain w' ms where e: "NewMinioService ''s3'' [(''buckets'', GList [GMapS [(''name'', GStr ''videos'')]])] ?w = (w', Ret ms)"
      "pr_calls w' ! 2 = (''Client.MakeBucket'', [GNil, GStr ''videos''])"
    by (simp add: NewMinioService_def p sbind_def lib_def sret_def)
  with minio_buckets_ready[OF e(1)] show ?thesis by auto
qed

end
