(* ===== verification/Amqp.thy ===== *)
theory Amqp
  imports Spans
begin

text \<open>
  What the two RabbitMQ services share: the fields \<^verbatim>\<open>conn\<close> and \<^verbatim>\<open>channel\<close> behind their pointers,
  and the contract of a \<^verbatim>\<open>getChannel\<close> that keeps one connection and dials a new one only when it has
  none or finds it closed. \<^verbatim>\<open>streadway/amqp\<close> is a set of library calls.
\<close>

section \<open>The fields\<close>

definition no_link :: amqp where
  "no_link = \<lparr>am_conn = None, am_channel = None\<rparr>"

definition amqp_at :: "nat \<Rightarrow> process \<Rightarrow> amqp" where
  "amqp_at a w = (if a < length (pr_amqp w) then pr_amqp w ! a else no_link)"

definition set_amqp :: "nat \<Rightarrow> (amqp \<Rightarrow> amqp) \<Rightarrow> unit prog" where
  "set_amqp a f = change (\<lambda>w. w\<lparr>pr_amqp := (pr_amqp w)[a := f (amqp_at a w)]\<rparr>)"

text \<open>A new struct with both fields nil, and its address.\<close>

definition new_amqp :: "nat prog" where
  "new_amqp w = (w\<lparr>pr_amqp := pr_amqp w @ [no_link]\<rparr>, Ret (length (pr_amqp w)))"

text \<open>\<^verbatim>\<open>if x.conn != nil && x.conn.IsClosed() { x.conn = nil; x.channel = nil }\<close>\<close>

definition drop_closed :: "nat \<Rightarrow> unit prog" where
  "drop_closed a =
     sbind (env (amqp_at a)) (\<lambda>l.
       case am_conn l of
         None \<Rightarrow> sret ()
       | Some conn \<Rightarrow>
           sbind (lib0 ''Connection.IsClosed'' [conn]) (\<lambda>closed.
             if as_bool closed then set_amqp a (\<lambda>_. no_link) else sret ()))"

text \<open>A method of a channel; one of a nil channel dereferences nil.\<close>

definition channel_call :: "string \<Rightarrow> gval option \<Rightarrow> gval list \<Rightarrow> gval prog" where
  "channel_call f ch args = (case ch of None \<Rightarrow> lift_out (Panic NilDereference) | Some c \<Rightarrow> lib f (c # args))"

lemma amqp_at_set [simp]:
  "a < length (pr_amqp w) \<Longrightarrow> amqp_at a (w\<lparr>pr_amqp := (pr_amqp w)[a := l]\<rparr>) = l"
  "a < length (pr_amqp w) \<Longrightarrow> amqp_at a (w\<lparr>pr_calls := cs, pr_amqp := (pr_amqp w)[a := l]\<rparr>) = l"
  "amqp_at a (w\<lparr>pr_calls := cs\<rparr>) = amqp_at a w"
  by (simp_all add: amqp_at_def)

lemma set_amqp_run [simp]: "set_amqp a f w = (w\<lparr>pr_amqp := (pr_amqp w)[a := f (amqp_at a w)]\<rparr>, Ret ())"
  by (simp add: set_amqp_def change_def)

lemma calls_set_amqp [calls_rules]: "calls_only P (set_amqp a f)"
  unfolding set_amqp_def by (intro calls_rules) simp_all

lemma calls_option [calls_rules]: "calls_only P m \<Longrightarrow> (\<And>x. calls_only P (f x)) \<Longrightarrow> calls_only P (case v of None \<Rightarrow> m | Some x \<Rightarrow> f x)"
  by (cases v) auto

lemma calls_drop_closed [calls_rules]: "(\<And>as. P (''Connection.IsClosed'', as)) \<Longrightarrow> calls_only P (drop_closed a)"
  unfolding drop_closed_def by (intro calls_rules)

lemma calls_channel_call [calls_rules]: "(\<And>as. P (f, as)) \<Longrightarrow> calls_only P (channel_call f ch args)"
  unfolding channel_call_def by (intro calls_rules)

section \<open>Connections opened and lost\<close>

text \<open>Of the calls \<open>cs\<close>, the first of which is call number \<open>n\<close>: dials that succeeded, and connections found closed.\<close>

fun opened :: "(nat \<Rightarrow> gval outcome) \<Rightarrow> nat \<Rightarrow> call list \<Rightarrow> nat" where
  "opened A n [] = 0"
| "opened A n (c # cs) = (if fst c = ''amqp.Dial'' \<and> is_ret (A n) then 1 else 0) + opened A (Suc n) cs"

fun lost :: "(nat \<Rightarrow> gval outcome) \<Rightarrow> nat \<Rightarrow> call list \<Rightarrow> nat" where
  "lost A n [] = 0"
| "lost A n (c # cs) = (if fst c = ''Connection.IsClosed'' \<and> A n = Ret (GBool True) then 1 else 0) + lost A (Suc n) cs"

definition held :: "nat \<Rightarrow> process \<Rightarrow> nat" where
  "held a w = (if am_conn (amqp_at a w) = None then 0 else 1)"

lemma opened_append [simp]: "opened A n (xs @ ys) = opened A n xs + opened A (n + length xs) ys"
  by (induction xs arbitrary: n) auto

lemma lost_append [simp]: "lost A n (xs @ ys) = lost A n xs + lost A (n + length xs) ys"
  by (induction xs arbitrary: n) auto

text \<open>
  A program keeps the books of the link at \<open>a\<close>: what it opens it holds or has found closed.
\<close>

definition balanced :: "nat \<Rightarrow> 'a prog \<Rightarrow> bool" where
  "balanced a m \<longleftrightarrow> (\<forall>w. a < length (pr_amqp w) \<longrightarrow> pr_answers (fst (m w)) = pr_answers w
     \<and> length (pr_amqp (fst (m w))) = length (pr_amqp w)
     \<and> (\<exists>cs. pr_calls (fst (m w)) = pr_calls w @ cs
          \<and> opened (pr_answers w) (length (pr_calls w)) cs + held a w
            = lost (pr_answers w) (length (pr_calls w)) cs + held a (fst (m w))))"

named_theorems link_rules \<open>programs that keep the books of a link\<close>

lemma balancedI:
  assumes "\<And>w w' r. a < length (pr_amqp w) \<Longrightarrow> m w = (w', r) \<Longrightarrow> pr_answers w' = pr_answers w \<and> length (pr_amqp w') = length (pr_amqp w)
     \<and> (\<exists>cs. pr_calls w' = pr_calls w @ cs
          \<and> opened (pr_answers w) (length (pr_calls w)) cs + held a w = lost (pr_answers w) (length (pr_calls w)) cs + held a w')"
  shows "balanced a m"
  unfolding balanced_def using assms by (metis prod.collapse)

lemma balancedE:
  assumes "balanced a m" "a < length (pr_amqp w)" "m w = (w', r)"
  obtains cs where "pr_answers w' = pr_answers w" "length (pr_amqp w') = length (pr_amqp w)" "pr_calls w' = pr_calls w @ cs"
    "opened (pr_answers w) (length (pr_calls w)) cs + held a w = lost (pr_answers w) (length (pr_calls w)) cs + held a w'"
  using assms unfolding balanced_def by (metis fst_conv)

lemma balanced_then:
  assumes "balanced a m" "balanced a m'" "a < length (pr_amqp w)" "m w = (w1, r1)" "m' w1 = (w', r)"
  shows "pr_answers w' = pr_answers w \<and> length (pr_amqp w') = length (pr_amqp w)
     \<and> (\<exists>cs. pr_calls w' = pr_calls w @ cs
          \<and> opened (pr_answers w) (length (pr_calls w)) cs + held a w = lost (pr_answers w) (length (pr_calls w)) cs + held a w')"
proof -
  obtain cs1 where 1: "pr_answers w1 = pr_answers w" "length (pr_amqp w1) = length (pr_amqp w)" "pr_calls w1 = pr_calls w @ cs1"
    "opened (pr_answers w) (length (pr_calls w)) cs1 + held a w = lost (pr_answers w) (length (pr_calls w)) cs1 + held a w1"
    using balancedE[OF assms(1,3,4)] by blast
  have "a < length (pr_amqp w1)" using assms(3) 1(2) by simp
  from balancedE[OF assms(2) this assms(5)] obtain cs2 where 2: "pr_answers w' = pr_answers w1" "length (pr_amqp w') = length (pr_amqp w1)"
    "pr_calls w' = pr_calls w1 @ cs2"
    "opened (pr_answers w1) (length (pr_calls w1)) cs2 + held a w1 = lost (pr_answers w1) (length (pr_calls w1)) cs2 + held a w'"
    by blast
  show ?thesis using 1 2 by (intro conjI exI[of _ "cs1 @ cs2"]) simp_all
qed

lemma balanced_done:
  assumes "balanced a m" "a < length (pr_amqp w)" "m w = (w', r)"
  shows "pr_answers w' = pr_answers w \<and> length (pr_amqp w') = length (pr_amqp w)
     \<and> (\<exists>cs. pr_calls w' = pr_calls w @ cs
          \<and> opened (pr_answers w) (length (pr_calls w)) cs + held a w = lost (pr_answers w) (length (pr_calls w)) cs + held a w')"
  using balancedE[OF assms] by metis

lemma balanced_sbind [link_rules]:
  assumes "balanced a m" "\<And>x. balanced a (f x)"
  shows "balanced a (sbind m f)"
proof (rule balancedI, goal_cases)
  case (1 w w' r)
  obtain w1 r1 where m: "m w = (w1, r1)" by fastforce
  then show ?case
    using 1 balanced_done[OF assms(1) 1(1) m] balanced_then[OF assms(1) assms(2) 1(1) m]
    by (cases r1) (auto simp: sbind_def)
qed

lemma balanced_on_err [link_rules]:
  assumes "balanced a m" "\<And>e. balanced a (h e)"
  shows "balanced a (on_err m h)"
proof (rule balancedI, goal_cases)
  case (1 w w' r)
  obtain w1 r1 where m: "m w = (w1, r1)" by fastforce
  then show ?case
    using 1 balanced_done[OF assms(1) 1(1) m] balanced_then[OF assms(1) assms(2) 1(1) m]
    by (cases r1) (auto simp: on_err_def)
qed

lemma balanced_deferred [link_rules]:
  assumes "balanced a d" "balanced a m"
  shows "balanced a (deferred d m)"
proof (rule balancedI, goal_cases)
  case (1 w w' r)
  obtain w1 r1 where m: "m w = (w1, r1)" by fastforce
  obtain w2 r2 where d: "d w1 = (w2, r2)" by fastforce
  show ?case
  proof (cases "no_return r1")
    case True
    then have "w' = w1" using 1 m by (simp add: deferred_def)
    then show ?thesis using balanced_done[OF assms(2) 1(1) m] by simp
  next
    case False
    then have "w' = w2" using 1 m d by (cases r2) (auto simp: deferred_def)
    then show ?thesis using balanced_then[OF assms(2,1) 1(1) m d] by simp
  qed
qed

lemma balanced_if [link_rules]: "(b \<Longrightarrow> balanced a m) \<Longrightarrow> (\<not> b \<Longrightarrow> balanced a m') \<Longrightarrow> balanced a (if b then m else m')"
  by simp

lemma balanced_option [link_rules]: "balanced a m \<Longrightarrow> (\<And>x. balanced a (f x)) \<Longrightarrow> balanced a (case v of None \<Rightarrow> m | Some x \<Rightarrow> f x)"
  by (cases v) auto

lemma balanced_basic [link_rules]: "balanced a (sret x)" "balanced a (lift_out r)" "balanced a (say l msg)" "balanced a (env g)"
  by (simp_all add: balanced_def prog_defs req_emit_def held_def amqp_at_def)

lemma balanced_lib [link_rules]: "f \<noteq> ''amqp.Dial'' \<Longrightarrow> f \<noteq> ''Connection.IsClosed'' \<Longrightarrow> balanced a (lib f args)"
  by (simp add: balanced_def lib_def held_def)

lemma balanced_or_warn [link_rules]: "balanced a m \<Longrightarrow> balanced a (or_warn msg m)"
  unfolding or_warn_def by (intro link_rules)

lemma balanced_trace [link_rules]: "f \<noteq> ''amqp.Dial'' \<Longrightarrow> f \<noteq> ''Connection.IsClosed'' \<Longrightarrow> balanced a (trace_call f args)"
  "f \<noteq> ''amqp.Dial'' \<Longrightarrow> f \<noteq> ''Connection.IsClosed'' \<Longrightarrow> balanced a (start_span f args)"
  by (simp_all add: balanced_def start_span_def held_def)

lemma balanced_span_call [link_rules]:
  "f \<noteq> ''amqp.Dial'' \<Longrightarrow> f \<noteq> ''Connection.IsClosed'' \<Longrightarrow> balanced a (span_call f s args)"
  by (cases s) (auto intro: link_rules)

lemma balanced_with_span [link_rules]:
  "balanced a start \<Longrightarrow> (\<And>s. balanced a (finish s)) \<Longrightarrow> (\<And>s. balanced a (body s)) \<Longrightarrow> balanced a (with_span start finish body)"
  unfolding with_span_def by (intro link_rules)

lemma balanced_channel_call [link_rules]:
  "f \<noteq> ''amqp.Dial'' \<Longrightarrow> f \<noteq> ''Connection.IsClosed'' \<Longrightarrow> balanced a (channel_call f ch args)"
  unfolding channel_call_def by (intro link_rules)

lemma balanced_drop_closed [link_rules]: "balanced a (drop_closed a)"
proof (rule balancedI, goal_cases)
  case (1 w w' r)
  show ?case
  proof (cases "am_conn (amqp_at a w)")
    case None
    with 1 show ?thesis by (auto simp: drop_closed_def sret_def)
  next
    case (Some c)
    have t: "as_bool v \<longleftrightarrow> v = GBool True" for v by (cases v) auto
    show ?thesis
      using 1 Some
      by (auto simp: drop_closed_def prog_defs held_def no_link_def t split: outcome.splits if_splits)
  qed
qed

text \<open>Setting the channel, or the connection of a link that has one.\<close>

lemma balanced_set_channel [link_rules]: "balanced a (set_amqp a (\<lambda>l. l\<lparr>am_channel := ch\<rparr>))"
  by (simp add: balanced_def held_def)

text \<open>\<^verbatim>\<open>if x.conn == nil { conn, err := amqp.Dial(url); if err != nil { return err }; x.conn = conn; body }\<close>\<close>

definition dial_if_nil :: "nat \<Rightarrow> string \<Rightarrow> (gval \<Rightarrow> unit prog) \<Rightarrow> unit prog" where
  "dial_if_nil a url body =
     sbind (env (amqp_at a)) (\<lambda>l.
       if am_conn l = None then
         sbind (lib ''amqp.Dial'' [GStr url]) (\<lambda>conn.
         sbind (set_amqp a (\<lambda>l. l\<lparr>am_conn := Some conn\<rparr>)) (\<lambda>_. body conn))
       else sret ())"

lemma balanced_dial [link_rules]:
  assumes "\<And>conn. balanced a (body conn)"
  shows "balanced a (dial_if_nil a url body)"
proof (rule balancedI, goal_cases)
  case (1 w w' r)
  show ?case
  proof (cases "am_conn (amqp_at a w)")
    case (Some c)
    with 1 show ?thesis by (auto simp: dial_if_nil_def sret_def)
  next
    case None
    let ?d = "w\<lparr>pr_calls := pr_calls w @ [(''amqp.Dial'', [GStr url])]\<rparr>"
    show ?thesis
    proof (cases "pr_answers w (length (pr_calls w))")
      case (Ret conn)
      let ?w1 = "?d\<lparr>pr_amqp := (pr_amqp w)[a := (amqp_at a w)\<lparr>am_conn := Some conn\<rparr>]\<rparr>"
      have b: "body conn ?w1 = (w', r)" using 1(2) None Ret by (simp add: dial_if_nil_def sbind_def lib_def env_def)
      have "a < length (pr_amqp ?w1)" using 1(1) by simp
      from assms this b obtain cs where cs: "pr_answers w' = pr_answers w" "length (pr_amqp w') = length (pr_amqp w)"
          "pr_calls w' = pr_calls ?w1 @ cs" "opened (pr_answers w) (length (pr_calls ?w1)) cs + held a ?w1
            = lost (pr_answers w) (length (pr_calls ?w1)) cs + held a w'" by (rule balancedE) simp
      have "held a ?w1 = 1" "held a w = 0" using 1(1) None by (simp_all add: held_def)
      then show ?thesis using cs Ret by (intro conjI exI[of _ "(''amqp.Dial'', [GStr url]) # cs"]) (simp_all add: is_ret_iff)
    qed (use 1 None in \<open>auto simp: dial_if_nil_def sbind_def lib_def held_def env_def intro!: exI[of _ "[(''amqp.Dial'', [GStr url])]"]\<close>)
  qed
qed

text \<open>Calls of a method one after another, whatever comes of each.\<close>

primrec run_each :: "('x \<Rightarrow> 'a prog) \<Rightarrow> 'x list \<Rightarrow> process \<Rightarrow> process" where
  "run_each m [] w = w"
| "run_each m (x # xs) w = run_each m xs (fst (m x w))"

primrec outcomes_of :: "('x \<Rightarrow> 'a prog) \<Rightarrow> 'x list \<Rightarrow> process \<Rightarrow> 'a outcome list" where
  "outcomes_of m [] w = []"
| "outcomes_of m (x # xs) w = snd (m x w) # outcomes_of m xs (fst (m x w))"

text \<open>A method of a service with a link, for any arguments and for the struct at any address.\<close>

locale connection_cache =
  fixes needs_link :: "nat \<Rightarrow> 'x \<Rightarrow> 'a prog"
  assumes keeps_books: "balanced a (needs_link a x)"
begin

lemma run_each_balance:
  assumes "a < length (pr_amqp w)"
  shows "\<exists>cs. pr_calls (run_each (needs_link a) xs w) = pr_calls w @ cs
    \<and> opened (pr_answers w) (length (pr_calls w)) cs + held a w
      = lost (pr_answers w) (length (pr_calls w)) cs + held a (run_each (needs_link a) xs w)"
  using assms
proof (induction xs arbitrary: w)
  case Nil
  then show ?case by (intro exI[of _ "[]"]) simp
next
  case (Cons x xs)
  obtain w1 r where m: "needs_link a x w = (w1, r)" by fastforce
  obtain cs1 where c1: "pr_answers w1 = pr_answers w" "length (pr_amqp w1) = length (pr_amqp w)" "pr_calls w1 = pr_calls w @ cs1"
    "opened (pr_answers w) (length (pr_calls w)) cs1 + held a w = lost (pr_answers w) (length (pr_calls w)) cs1 + held a w1"
    using balancedE[OF keeps_books Cons.prems m] by blast
  have "a < length (pr_amqp w1)" using Cons.prems c1(2) by simp
  from Cons.IH[OF this] obtain cs2 where "pr_calls (run_each (needs_link a) xs w1) = pr_calls w1 @ cs2"
    "opened (pr_answers w) (length (pr_calls w1)) cs2 + held a w1
      = lost (pr_answers w) (length (pr_calls w1)) cs2 + held a (run_each (needs_link a) xs w1)"
    using c1(1) by auto
  with c1 m show ?case by (intro exI[of _ "cs1 @ cs2"]) simp
qed

text \<open>From no connection on, all that were opened are lost but the one that is held.\<close>

lemma at_most_one_connection:
  assumes "a < length (pr_amqp w)" "am_conn (amqp_at a w) = None"
  shows "\<exists>cs. pr_calls (run_each (needs_link a) xs w) = pr_calls w @ cs
    \<and> opened (pr_answers w) (length (pr_calls w)) cs
      = lost (pr_answers w) (length (pr_calls w)) cs + held a (run_each (needs_link a) xs w)"
  using run_each_balance[OF assms(1), of xs] assms(2) by (simp add: held_def)

end

end
