(* ===== verification/RabbitProducer.thy ===== *)
theory RabbitProducer
  imports Amqp Sql
begin

text \<open>
  The service \<^verbatim>\<open>rabbitmq-producer\<close> (\<^verbatim>\<open>pkg/actions/rabbitmq_producer_service.go\<close>): it keeps a
  connection and a channel, and sends each message to a queue it declares first.
\<close>

section \<open>The service\<close>

record RabbitMQProducerServiceConfig =
  rp_URL :: string
  rp_PeerService :: string
  rp_PeerNamespace :: string

text \<open>The fields \<^verbatim>\<open>conn\<close> and \<^verbatim>\<open>channel\<close> are at \<open>rp_link\<close>.\<close>

record RabbitMQProducerService =
  rp_name :: string
  rp_config :: RabbitMQProducerServiceConfig
  rp_link :: nat

definition rabbit_producer_fields :: "RabbitMQProducerServiceConfig fields" where
  "rabbit_producer_fields =
     [(''url'', fld dec_string rp_URL (\<lambda>v r. r\<lparr>rp_URL := v\<rparr>)),
      (''peer_service'', fld dec_string rp_PeerService (\<lambda>v r. r\<lparr>rp_PeerService := v\<rparr>)),
      (''peer_namespace'', fld dec_string rp_PeerNamespace (\<lambda>v r. r\<lparr>rp_PeerNamespace := v\<rparr>))]"

definition rabbit_producer_zero :: RabbitMQProducerServiceConfig where
  "rabbit_producer_zero = \<lparr>rp_URL = [], rp_PeerService = [], rp_PeerNamespace = []\<rparr>"

definition Producer_getChannel :: "RabbitMQProducerService \<Rightarrow> gval option prog" where
  "Producer_getChannel p =
     sbind (drop_closed (rp_link p)) (\<lambda>_.
     sbind (dial_if_nil (rp_link p) (rp_URL (rp_config p)) (\<lambda>conn.
       sbind (lib ''Connection.Channel'' [conn]) (\<lambda>ch.
       set_amqp (rp_link p) (\<lambda>l. l\<lparr>am_channel := Some ch\<rparr>)))) (\<lambda>_.
     env (\<lambda>w. am_channel (amqp_at (rp_link p) w))))"

definition Producer_Close :: "RabbitMQProducerService \<Rightarrow> unit prog" where
  "Producer_Close p =
     sbind (env (amqp_at (rp_link p))) (\<lambda>l.
       case am_conn l of
         Some conn \<Rightarrow> sbind (lib ''Connection.Close'' [conn]) (\<lambda>_. sret ())
       | None \<Rightarrow> set_amqp (rp_link p) (\<lambda>_. no_link))"

text \<open>The declaration of the queue; when it fails the connection is closed, and the error returned.\<close>

definition declare_queue :: "RabbitMQProducerService \<Rightarrow> gval option \<Rightarrow> string \<Rightarrow> gval prog" where
  "declare_queue p ch queue =
     on_err (channel_call ''Channel.QueueDeclare'' ch [GStr queue]) (\<lambda>e.
       sbind (say Warn ''failed to declare queue'') (\<lambda>_.
       sbind (on_err (Producer_Close p) (\<lambda>e2. say Warn ''failed to close connection'')) (\<lambda>_.
       lift_out (Err e))))"

definition publish :: "gval option \<Rightarrow> gval \<Rightarrow> string \<Rightarrow> unit prog" where
  "publish ch q msg =
     sbind (channel_call ''Channel.Publish'' ch [GStr [], gfield ''Name'' q, GStr ''text/plain'', GStr msg]) (\<lambda>_. sret ())"

text \<open>The message goes out inside two spans of Datadog, or one of OpenTelemetry.\<close>

definition dd_send :: "RabbitMQProducerService \<Rightarrow> gval option \<Rightarrow> gval \<Rightarrow> string \<Rightarrow> string \<Rightarrow> unit prog" where
  "dd_send p ch q queue msg =
     with_span (start_span ''tracer.StartSpan'' [GStr ''rabbitmq.produce'', GStr queue]) (\<lambda>s. Span_Finish s) (\<lambda>s.
     with_span (start_span ''tracer.StartSpan'' [GStr ''rabbitmq.produce'', GStr queue, GStr ''producer'', GStr (rp_PeerService (rp_config p))])
       (\<lambda>child. Span_Finish child) (\<lambda>child.
     publish ch q msg))"

definition ddProduce :: "RabbitMQProducerService \<Rightarrow> string \<Rightarrow> string \<Rightarrow> unit prog" where
  "ddProduce p queue msg =
     sbind (or_warn ''failed to get channel'' (Producer_getChannel p)) (\<lambda>ch.
     sbind (declare_queue p ch queue) (\<lambda>q. dd_send p ch q queue msg))"

definition otel_send :: "RabbitMQProducerService \<Rightarrow> gval option \<Rightarrow> gval \<Rightarrow> string \<Rightarrow> string \<Rightarrow> unit prog" where
  "otel_send p ch q queue msg =
     with_span (start_span ''Tracer.Start'' [GStr ''kafka-producer'', GStr ''Produce Message'', GStr ''producer'']) (\<lambda>s. Span_End s) (\<lambda>s.
     sbind (Span_SetAttribute s ''messaging.destination.name'' (GStr queue)) (\<lambda>_.
     sbind (Span_SetAttribute s ''messaging.system'' (GStr ''rabbitmq'')) (\<lambda>_.
     sbind (Span_SetAttribute s ''peer.service'' (GStr (rp_PeerService (rp_config p)))) (\<lambda>_.
     sbind (Span_SetAttribute s ''peer.namespace'' (GStr (rp_PeerNamespace (rp_config p)))) (\<lambda>_.
     publish ch q msg)))))"

definition otelProduce :: "RabbitMQProducerService \<Rightarrow> string \<Rightarrow> string \<Rightarrow> unit prog" where
  "otelProduce p queue msg =
     sbind (or_warn ''failed to get channel'' (Producer_getChannel p)) (\<lambda>ch.
     sbind (declare_queue p ch queue) (\<lambda>q. otel_send p ch q queue msg))"

definition RabbitMQ_Produce :: "RabbitMQProducerService \<Rightarrow> string \<Rightarrow> string \<Rightarrow> unit prog" where
  "RabbitMQ_Produce p queue msg =
     sbind (env pr_env) (\<lambda>getenv. if IsDatadogEnabled getenv then ddProduce p queue msg else otelProduce p queue msg)"

definition NewRabbitMQProducerService :: "string \<Rightarrow> gmap \<Rightarrow> RabbitMQProducerService prog" where
  "NewRabbitMQProducerService name config =
     sbind (lift_out (ParseConfig rabbit_producer_fields rabbit_producer_zero config)) (\<lambda>cfg.
     sbind new_amqp (\<lambda>a. sret \<lparr>rp_name = name, rp_config = cfg, rp_link = a\<rparr>))"

definition rabbit_producer_constructor :: "string \<Rightarrow> gmap \<Rightarrow> service prog" where
  "rabbit_producer_constructor name m =
     sbind (or_panic (NewRabbitMQProducerService name m)) (\<lambda>p.
     sret \<lparr>sv_name = rp_name p, sv_type = ''rabbitmq-producer'', sv_config = m, sv_handle = GInt (int (rp_link p))\<rparr>)"

definition as_rabbit_producer :: "service \<Rightarrow> RabbitMQProducerService" where
  "as_rabbit_producer s = \<lparr>rp_name = sv_name s,
     rp_config = (case ParseConfig rabbit_producer_fields rabbit_producer_zero (sv_config s) of Ret c \<Rightarrow> c | _ \<Rightarrow> rabbit_producer_zero),
     rp_link = nat (as_int (sv_handle s))\<rparr>"

lemma as_rabbit_producer_constructed:
  "NewRabbitMQProducerService n m w = (w', Ret p) \<Longrightarrow> \<exists>s. rabbit_producer_constructor n m w = (w', Ret s) \<and> as_rabbit_producer s = p"
  by (cases "ParseConfig rabbit_producer_fields rabbit_producer_zero m")
    (auto simp: rabbit_producer_constructor_def or_panic_def NewRabbitMQProducerService_def as_rabbit_producer_def prog_defs new_amqp_def)

section \<open>Lemmas\<close>

lemma balanced_getChannel [link_rules]: "balanced (rp_link p) (Producer_getChannel p)"
  unfolding Producer_getChannel_def by (intro link_rules) simp_all

lemma Close_run:
  "Producer_Close p w =
     (case am_conn (amqp_at (rp_link p) w) of
        Some c \<Rightarrow> (w\<lparr>pr_calls := pr_calls w @ [(''Connection.Close'', [c])]\<rparr>,
           (case pr_answers w (length (pr_calls w)) of Ret _ \<Rightarrow> Ret () | Err e \<Rightarrow> Err e | Panic q \<Rightarrow> Panic q))
      | None \<Rightarrow> (w\<lparr>pr_amqp := (pr_amqp w)[rp_link p := no_link]\<rparr>, Ret ()))"
  by (auto simp: Producer_Close_def prog_defs split: option.split outcome.split)

lemma balanced_Close [link_rules]: "balanced (rp_link p) (Producer_Close p)"
  by (rule balancedI) (auto simp: Close_run held_def no_link_def split: option.splits outcome.splits)

lemma balanced_Produce: "balanced (rp_link p) (RabbitMQ_Produce p queue msg)"
  unfolding RabbitMQ_Produce_def ddProduce_def otelProduce_def dd_send_def otel_send_def declare_queue_def publish_def
  by (intro link_rules) simp_all

text \<open>\<^verbatim>\<open>Produce\<close> of the struct \<open>p\<close> at any address, with a queue and a message.\<close>

interpretation producer_link: connection_cache "\<lambda>a (queue, msg). RabbitMQ_Produce (p\<lparr>rp_link := a\<rparr>) queue msg"
proof (unfold_locales, goal_cases)
  case (1 a x)
  then show ?case using balanced_Produce[of "p\<lparr>rp_link := a\<rparr>"] by (cases x) simp
qed

lemma calls_getChannel [calls_rules]:
  "(\<And>f as. f \<in> {''Connection.IsClosed'', ''amqp.Dial'', ''Connection.Channel''} \<Longrightarrow> P (f, as)) \<Longrightarrow> calls_only P (Producer_getChannel p)"
  unfolding Producer_getChannel_def dial_if_nil_def by (intro calls_rules) auto

lemma closes_Produce: "closes_spans (RabbitMQ_Produce p queue msg)"
proof -
  have g: "closes_spans (Producer_getChannel p)" "closes_spans (declare_queue p ch queue)" "closes_spans (publish ch q msg)" for ch q
    unfolding declare_queue_def Producer_Close_def publish_def by (rule closes_calls_only; intro calls_rules; auto simp: is_start_def)+
  show ?thesis
    unfolding RabbitMQ_Produce_def ddProduce_def otelProduce_def dd_send_def otel_send_def by (intro span_rules g) simp_all
qed

text \<open>\<^verbatim>\<open>getChannel\<close> on a connection that is alive, and without one.\<close>

lemma getChannel_alive:
  assumes "am_conn (amqp_at (rp_link p) w) = Some conn" "pr_answers w (length (pr_calls w)) = Ret (GBool False)"
  shows "Producer_getChannel p w =
    (w\<lparr>pr_calls := pr_calls w @ [(''Connection.IsClosed'', [conn])]\<rparr>, Ret (am_channel (amqp_at (rp_link p) w)))"
  using assms by (simp add: Producer_getChannel_def drop_closed_def dial_if_nil_def prog_defs)

lemma getChannel_no_channel:
  assumes "rp_link p < length (pr_amqp w)" "am_conn (amqp_at (rp_link p) w) = None"
    and "pr_answers w (length (pr_calls w)) = Ret conn" "pr_answers w (Suc (length (pr_calls w))) = Err e"
  shows "Producer_getChannel p w =
    (w\<lparr>pr_calls := pr_calls w @ [(''amqp.Dial'', [GStr (rp_URL (rp_config p))]), (''Connection.Channel'', [conn])],
       pr_amqp := (pr_amqp w)[rp_link p := (amqp_at (rp_link p) w)\<lparr>am_conn := Some conn\<rparr>]\<rparr>, Err e)"
  using assms by (simp add: Producer_getChannel_def drop_closed_def dial_if_nil_def prog_defs)

lemma getChannel_returns:
  assumes "Producer_getChannel p w = (w1, Ret ch)"
  shows "ch = am_channel (amqp_at (rp_link p) w1)"
  using assms by (auto simp: Producer_getChannel_def sbind_def env_def split: prod.splits outcome.splits)

definition publishes :: "string \<times> gval list \<Rightarrow> bool" where
  "publishes c \<longleftrightarrow> fst c = ''Channel.Publish''"

lemma publish_run:
  "publish (Some c) q msg w =
    (w\<lparr>pr_calls := pr_calls w @ [(''Channel.Publish'', [c, GStr [], gfield ''Name'' q, GStr ''text/plain'', GStr msg])]\<rparr>,
     case pr_answers w (length (pr_calls w)) of Ret _ \<Rightarrow> Ret () | Err e \<Rightarrow> Err e | Panic x \<Rightarrow> Panic x)"
  by (simp add: publish_def channel_call_def prog_defs split: outcome.split)

text \<open>A program that makes the call \<open>c\<close> once, among others that publish nothing.\<close>

definition publishes_only :: "call \<Rightarrow> 'a prog \<Rightarrow> bool" where
  "publishes_only c m \<longleftrightarrow> (\<forall>w. pr_amqp (fst (m w)) = pr_amqp w
     \<and> (\<exists>xs ys. pr_calls (fst (m w)) = pr_calls w @ xs @ c # ys \<and> (\<forall>c\<in>set (xs @ ys). \<not> publishes c)))"

lemma publishes_only_publish:
  "publishes_only (''Channel.Publish'', [c, GStr [], gfield ''Name'' q, GStr ''text/plain'', GStr msg]) (publish (Some c) q msg)"
  unfolding publishes_only_def publish_run by (intro allI conjI exI[of _ "[]"]) simp_all

lemma publishes_only_span:
  assumes "\<And>i. publishes_only c (body (Some i))" "f \<noteq> ''Channel.Publish''" "g \<noteq> ''Channel.Publish''"
  shows "publishes_only c (with_span (start_span f args) (\<lambda>s. span_call g s as) body)"
  unfolding publishes_only_def
proof
  fix w :: process
  let ?s = "Some (length (pr_calls w)) :: span" and ?w = "w\<lparr>pr_calls := pr_calls w @ [(f, args)]\<rparr>"
  let ?e = "(g, GInt (int (length (pr_calls w))) # as)"
  let ?all = "with_span (start_span f args) (\<lambda>s. span_call g s as) body w"
  obtain w1 r where b: "body ?s ?w = (w1, r)" by fastforce
  have "pr_amqp (fst (body ?s ?w)) = pr_amqp ?w
      \<and> (\<exists>xs ys. pr_calls (fst (body ?s ?w)) = pr_calls ?w @ xs @ c # ys \<and> (\<forall>c\<in>set (xs @ ys). \<not> publishes c))"
    using assms(1) unfolding publishes_only_def by blast
  then obtain xs ys where x: "pr_amqp w1 = pr_amqp w" "pr_calls w1 = pr_calls w @ (f, args) # xs @ c # ys"
    "\<forall>c\<in>set (xs @ ys). \<not> publishes c" using b by auto
  have "\<not> publishes (f, args)" "\<not> publishes ?e" using assms(2,3) by (simp_all add: publishes_def)
  with x(3) have n: "\<forall>c\<in>set (((f, args) # xs) @ ys). \<not> publishes c" "\<forall>c\<in>set (((f, args) # xs) @ ys @ [?e]). \<not> publishes c" by auto
  have "pr_amqp (fst ?all) = pr_amqp w"
    "pr_calls (fst ?all) = pr_calls w @ ((f, args) # xs) @ c # (if no_return r then ys else ys @ [?e])"
    using b x(1,2) by (simp_all add: with_span_def sbind_def start_span_def deferred_def)
  with n show "pr_amqp (fst ?all) = pr_amqp w
      \<and> (\<exists>xs ys. pr_calls (fst ?all) = pr_calls w @ xs @ c # ys \<and> (\<forall>c\<in>set (xs @ ys). \<not> publishes c))"
    by (intro conjI exI[of _ "(f, args) # xs"] exI[of _ "if no_return r then ys else ys @ [?e]"]) (auto split: if_splits)
qed

lemma publishes_only_attribute:
  assumes "publishes_only c m"
  shows "publishes_only c (sbind (Span_SetAttribute (Some i) k v) (\<lambda>_. m))"
  unfolding publishes_only_def
proof
  fix w :: process
  let ?a = "(''Span.SetAttributes'', [GInt (int i), GStr k, v])" and ?w = "w\<lparr>pr_calls := pr_calls w @ [(''Span.SetAttributes'', [GInt (int i), GStr k, v])]\<rparr>"
  have "pr_amqp (fst (m ?w)) = pr_amqp ?w
      \<and> (\<exists>xs ys. pr_calls (fst (m ?w)) = pr_calls ?w @ xs @ c # ys \<and> (\<forall>c\<in>set (xs @ ys). \<not> publishes c))"
    using assms unfolding publishes_only_def by blast
  then obtain xs ys where "pr_amqp (fst (m ?w)) = pr_amqp w" "pr_calls (fst (m ?w)) = pr_calls w @ (?a # xs) @ c # ys"
    "\<forall>c\<in>set (xs @ ys). \<not> publishes c" by auto
  then show "pr_amqp (fst (sbind (Span_SetAttribute (Some i) k v) (\<lambda>_. m) w)) = pr_amqp w
      \<and> (\<exists>xs ys. pr_calls (fst (sbind (Span_SetAttribute (Some i) k v) (\<lambda>_. m) w)) = pr_calls w @ xs @ c # ys \<and> (\<forall>c\<in>set (xs @ ys). \<not> publishes c))"
    by (intro conjI exI[of _ "?a # xs"] exI[of _ ys]) (auto simp: sbind_def publishes_def)
qed

lemma send_publishes:
  assumes "send \<in> {dd_send, otel_send}"
  shows "publishes_only (''Channel.Publish'', [c, GStr [], gfield ''Name'' q, GStr ''text/plain'', GStr msg]) (send p (Some c) q queue msg)"
  using assms unfolding dd_send_def[abs_def] otel_send_def[abs_def]
  by (elim insertE emptyE; hypsubst) (intro publishes_only_span publishes_only_attribute publishes_only_publish; simp)+

lemma declare_returns:
  assumes "declare_queue p ch queue w = (w1, Ret q)"
  shows "\<exists>c. ch = Some c \<and> pr_answers w (length (pr_calls w)) = Ret q
    \<and> w1 = w\<lparr>pr_calls := pr_calls w @ [(''Channel.QueueDeclare'', [c, GStr queue])]\<rparr>"
  using assms
  by (auto simp: declare_queue_def channel_call_def prog_defs split: option.splits outcome.splits prod.splits)

text \<open>What comes of a \<^verbatim>\<open>getChannel\<close> that fails, and of one that returns nil.\<close>

lemma Produce_no_channel:
  "Producer_getChannel p w = (w1, Err e) \<Longrightarrow> RabbitMQ_Produce p queue msg w = (req_emit Warn ''failed to get channel'' w1, Err e)"
  "Producer_getChannel p w = (w1, Ret None) \<Longrightarrow> RabbitMQ_Produce p queue msg w = (w1, Panic NilDereference)"
  by (auto simp: RabbitMQ_Produce_def ddProduce_def otelProduce_def declare_queue_def channel_call_def or_warn_def
    say_def sbind_def on_err_def lift_out_def env_def)

lemma amqp_at_emit [simp]: "amqp_at a (req_emit l msg w) = amqp_at a w" "pr_answers (req_emit l msg w) = pr_answers w"
  "pr_calls (req_emit l msg w) = pr_calls w" "pr_amqp (req_emit l msg w) = pr_amqp w"
  by (simp_all add: amqp_at_def req_emit_def)

text \<open>Messages for a producer that holds a connection and no channel.\<close>

lemma crippled_messages:
  assumes "amqp_at (rp_link p) w = \<lparr>am_conn = Some conn, am_channel = None\<rparr>"
    and "\<forall>k<length msgs. pr_answers w (length (pr_calls w) + k) = Ret (GBool False)"
  shows "outcomes_of (\<lambda>(queue, msg). RabbitMQ_Produce p queue msg) msgs w = replicate (length msgs) (Panic NilDereference)
    \<and> pr_calls (run_each (\<lambda>(queue, msg). RabbitMQ_Produce p queue msg) msgs w)
        = pr_calls w @ replicate (length msgs) (''Connection.IsClosed'', [conn])"
  using assms
proof (induction msgs arbitrary: w)
  case (Cons m msgs)
  obtain queue msg where m: "m = (queue, msg)" by fastforce
  let ?w = "w\<lparr>pr_calls := pr_calls w @ [(''Connection.IsClosed'', [conn])]\<rparr>"
  have "pr_answers w (length (pr_calls w)) = Ret (GBool False)" using Cons.prems(2) by force
  then have "Producer_getChannel p w = (?w, Ret None)" using getChannel_alive[of p w conn] Cons.prems(1) by simp
  note r = Produce_no_channel(2)[OF this, of queue msg]
  have "\<forall>k<length msgs. pr_answers ?w (length (pr_calls ?w) + k) = Ret (GBool False)"
    using Cons.prems(2) by (auto dest: spec[of _ "Suc k" for k])
  with Cons.IH[of ?w] Cons.prems(1) r m show ?case by simp
qed simp

section \<open>Properties\<close>

text \<open>
  C13. A producer holds at most one connection and leaks none: over any sequence of messages, as many
  connections are opened as are found closed and given up, plus the one that is held at the end.
\<close>

theorem producer_holds_one_connection:
  assumes "rp_link p < length (pr_amqp w)" "am_conn (amqp_at (rp_link p) w) = None"
  shows "\<exists>cs. pr_calls (run_each (\<lambda>(queue, msg). RabbitMQ_Produce p queue msg) msgs w) = pr_calls w @ cs
    \<and> opened (pr_answers w) (length (pr_calls w)) cs
      = lost (pr_answers w) (length (pr_calls w)) cs + held (rp_link p) (run_each (\<lambda>(queue, msg). RabbitMQ_Produce p queue msg) msgs w)"
  using producer_link.at_most_one_connection[where p = p, OF assms, of msgs] by simp

definition demo_producer :: RabbitMQProducerService where
  "demo_producer = \<lparr>rp_name = ''q'', rp_config = rabbit_producer_zero, rp_link = 0\<rparr>"

theorem producer_holds_one_connection_witness:
  "\<exists>cs. pr_calls (run_each (\<lambda>(queue, msg). RabbitMQ_Produce demo_producer queue msg) [(''a'', ''x''), (''b'', ''y'')]
      (idle_process\<lparr>pr_amqp := [no_link]\<rparr>)) = cs
    \<and> opened (\<lambda>k. Ret (GInt (int k))) 0 cs \<le> lost (\<lambda>k. Ret (GInt (int k))) 0 cs + 1"
proof -
  have "rp_link demo_producer < length (pr_amqp (idle_process\<lparr>pr_amqp := [no_link]\<rparr>))"
    "am_conn (amqp_at (rp_link demo_producer) (idle_process\<lparr>pr_amqp := [no_link]\<rparr>)) = None"
    by (simp_all add: demo_producer_def amqp_at_def no_link_def)
  note h = producer_holds_one_connection[OF this, of "[(''a'', ''x''), (''b'', ''y'')]"]
  have "held a w \<le> 1" for a w by (simp add: held_def)
  with h show ?thesis by (auto intro!: add_left_mono simp del: run_each.simps)
qed

text \<open>
  C25. A channel that cannot be opened cripples the producer: the error is returned and the new
  connection kept without a channel, and from then on every message panics with a nil channel,
  however many there are, for as long as the connection is not found closed; each of them asks
  the connection whether it is closed and makes no other call, so none tries to open a channel.
\<close>

theorem failed_channel_cripples:
  assumes "rp_link p < length (pr_amqp w)" "am_conn (amqp_at (rp_link p) w) = None" "am_channel (amqp_at (rp_link p) w) = None"
    and "pr_answers w (length (pr_calls w)) = Ret conn" "pr_answers w (Suc (length (pr_calls w))) = Err e"
    and "\<forall>k<length msgs. pr_answers w (length (pr_calls w) + 2 + k) = Ret (GBool False)"
  shows "\<exists>w1. RabbitMQ_Produce p queue msg w = (w1, Err e)
    \<and> amqp_at (rp_link p) w1 = \<lparr>am_conn = Some conn, am_channel = None\<rparr>
    \<and> outcomes_of (\<lambda>(queue, msg). RabbitMQ_Produce p queue msg) msgs w1 = replicate (length msgs) (Panic NilDereference)
    \<and> pr_calls (run_each (\<lambda>(queue, msg). RabbitMQ_Produce p queue msg) msgs w1)
        = pr_calls w1 @ replicate (length msgs) (''Connection.IsClosed'', [conn])"
proof -
  let ?w0 = "w\<lparr>pr_calls := pr_calls w @ [(''amqp.Dial'', [GStr (rp_URL (rp_config p))]), (''Connection.Channel'', [conn])],
       pr_amqp := (pr_amqp w)[rp_link p := (amqp_at (rp_link p) w)\<lparr>am_conn := Some conn\<rparr>]\<rparr>"
  define w1 where "w1 = req_emit Warn ''failed to get channel'' ?w0"
  have 1: "RabbitMQ_Produce p queue msg w = (w1, Err e)"
    using Produce_no_channel(1)[OF getChannel_no_channel[OF assms(1,2,4,5)]] by (simp add: w1_def)
  have l: "amqp_at (rp_link p) w1 = \<lparr>am_conn = Some conn, am_channel = None\<rparr>"
    "\<forall>k<length msgs. pr_answers w1 (length (pr_calls w1) + k) = Ret (GBool False)"
    using assms(1,3,6) by (simp_all add: w1_def)
  from 1 l(1) crippled_messages[OF l] show ?thesis by blast
qed

theorem failed_channel_cripples_witness:
  "\<exists>w1. amqp_at 0 w1 = \<lparr>am_conn = Some (GInt 7), am_channel = None\<rparr>
    \<and> outcomes_of (\<lambda>(queue, msg). RabbitMQ_Produce demo_producer queue msg) [(''a'', ''x''), (''b'', ''y''), (''a'', ''z'')] w1
      = [Panic NilDereference, Panic NilDereference, Panic NilDereference]"
proof -
  let ?w = "idle_process\<lparr>pr_amqp := [no_link], pr_answers := \<lambda>k. if k = 0 then Ret (GInt 7) else if k = 1 then Err (EExt ''busy'') else Ret (GBool False)\<rparr>"
  have "rp_link demo_producer < length (pr_amqp ?w)" "am_conn (amqp_at (rp_link demo_producer) ?w) = None"
    "am_channel (amqp_at (rp_link demo_producer) ?w) = None"
    by (simp_all add: demo_producer_def amqp_at_def no_link_def)
  from failed_channel_cripples[OF this, of "GInt 7" "EExt ''busy''" "[(''a'', ''x''), (''b'', ''y''), (''a'', ''z'')]" "''a''" "''x''"]
  obtain w1 where "amqp_at 0 w1 = \<lparr>am_conn = Some (GInt 7), am_channel = None\<rparr>"
    "outcomes_of (\<lambda>(queue, msg). RabbitMQ_Produce demo_producer queue msg) [(''a'', ''x''), (''b'', ''y''), (''a'', ''z'')] w1
      = replicate 3 (Panic NilDereference)"
    by (auto simp: demo_producer_def simp del: outcomes_of.simps run_each.simps replicate.simps)
  then show ?thesis by (auto simp: numeral_3_eq_3)
qed

text \<open>
  C21. A message is published at most once by a call of \<^verbatim>\<open>Produce\<close>, and exactly once when it returns
  without an error: after the queue was declared, on the channel it was declared on, which the
  producer still holds, and under the name that the declaration was answered with.
\<close>

theorem produce_publishes_once:
  "\<exists>cs. pr_calls (fst (RabbitMQ_Produce p queue msg w)) = pr_calls w @ cs
    \<and> length (filter publishes cs) \<le> 1
    \<and> (snd (RabbitMQ_Produce p queue msg w) = Ret () \<longrightarrow>
        (\<exists>ch q pre post. am_channel (amqp_at (rp_link p) (fst (RabbitMQ_Produce p queue msg w))) = Some ch
          \<and> cs = pre @ (''Channel.QueueDeclare'', [ch, GStr queue]) # post
          \<and> pr_answers w (length (pr_calls w) + length pre) = Ret q
          \<and> filter publishes pre = []
          \<and> filter publishes post = [(''Channel.Publish'', [ch, GStr [], gfield ''Name'' q, GStr ''text/plain'', GStr msg])]))"
proof -
  obtain send where s: "send \<in> {dd_send, otel_send}"
    and r: "RabbitMQ_Produce p queue msg w =
      sbind (or_warn ''failed to get channel'' (Producer_getChannel p)) (\<lambda>ch. sbind (declare_queue p ch queue) (\<lambda>q. send p ch q queue msg)) w"
    by (cases "IsDatadogEnabled (pr_env w)") (auto simp: RabbitMQ_Produce_def ddProduce_def otelProduce_def)
  obtain w1 r1 where g: "or_warn ''failed to get channel'' (Producer_getChannel p) w = (w1, r1)" by fastforce
  have quiet: "calls_only (\<lambda>c. \<not> publishes c) (or_warn ''failed to get channel'' (Producer_getChannel p))"
    "calls_only (\<lambda>c. \<not> publishes c) (declare_queue p ch queue)" for ch
    unfolding declare_queue_def Producer_Close_def by (intro calls_rules; auto simp: publishes_def)+
  obtain cs1 where cs1: "pr_calls w1 = pr_calls w @ cs1" "\<forall>c\<in>set cs1. \<not> publishes c" using quiet(1) g by (rule calls_onlyE)
  have none: "filter publishes cs = []" if "\<forall>c\<in>set cs. \<not> publishes c" for cs
    using that by (simp add: filter_empty_conv)
  show ?thesis
  proof (cases r1)
    case (Ret ch)
    have ch: "ch = am_channel (amqp_at (rp_link p) w1)"
      using g Ret by (intro getChannel_returns) (auto simp: or_warn_def on_err_def say_def sbind_def lift_out_def split: prod.splits outcome.splits)
    obtain w2 r2 where d: "declare_queue p ch queue w1 = (w2, r2)" by fastforce
    obtain cs2 where cs2: "pr_calls w2 = pr_calls w1 @ cs2" "\<forall>c\<in>set cs2. \<not> publishes c" using quiet(2) d by (rule calls_onlyE)
    show ?thesis
    proof (cases r2)
      case r2: (Ret q)
      obtain c where c: "ch = Some c" "pr_answers w1 (length (pr_calls w1)) = Ret q"
        "w2 = w1\<lparr>pr_calls := pr_calls w1 @ [(''Channel.QueueDeclare'', [c, GStr queue])]\<rparr>"
        using declare_returns d r2 by blast
      have q: "pr_answers w (length (pr_calls w) + length cs1) = Ret q"
        using c(2) cs1(1) calls_only_answers[OF quiet(1) g] by simp
      let ?p = "(''Channel.Publish'', [c, GStr [], gfield ''Name'' q, GStr ''text/plain'', GStr msg])"
      let ?w3 = "fst (send p (Some c) q queue msg w2)"
      obtain xs ys where x: "pr_calls ?w3 = pr_calls w2 @ xs @ ?p # ys" "\<forall>c\<in>set (xs @ ys). \<not> publishes c" "pr_amqp ?w3 = pr_amqp w2"
        using send_publishes[OF s] unfolding publishes_only_def by blast
      have e: "RabbitMQ_Produce p queue msg w = send p (Some c) q queue msg w2" using r g Ret d r2 c(1) by (simp add: sbind_def)
      have "amqp_at (rp_link p) ?w3 = amqp_at (rp_link p) w1" using x(3) c(3) by (simp add: amqp_at_def)
      then have a: "am_channel (amqp_at (rp_link p) ?w3) = Some c" using ch c(1) by simp
      have n: "filter publishes xs = []" "filter publishes ys = []" "filter publishes cs1 = []" "publishes ?p"
        "\<not> publishes (''Channel.QueueDeclare'', [c, GStr queue])"
        using x(2) cs1(2) none[of xs] none[of ys] none[of cs1] by (auto simp: publishes_def)
      show ?thesis
        unfolding e using x(1) c(3) cs1(1) a n q
        by (intro exI[of _ "cs1 @ (''Channel.QueueDeclare'', [c, GStr queue]) # xs @ ?p # ys"] conjI impI
            exI[of _ c] exI[of _ q] exI[of _ cs1] exI[of _ "xs @ ?p # ys"]) simp_all
    qed (use r g Ret d cs1 cs2 none[OF cs1(2)] none[OF cs2(2)] in \<open>auto simp: sbind_def\<close>)
  qed (use r g cs1 none[OF cs1(2)] in \<open>auto simp: sbind_def\<close>)
qed

theorem produce_publishes_once_witness:
  "filter publishes (pr_calls (fst (RabbitMQ_Produce demo_producer ''a'' ''x'' (idle_process\<lparr>pr_amqp := [no_link],
      pr_answers := \<lambda>k. Ret (GMapS [(''Name'', GStr ''a'')])\<rparr>))))
    = [(''Channel.Publish'', [GMapS [(''Name'', GStr ''a'')], GStr [], GStr ''a'', GStr ''text/plain'', GStr ''x''])]"
proof -
  let ?w = "idle_process\<lparr>pr_amqp := [no_link], pr_answers := \<lambda>k. Ret (GMapS [(''Name'', GStr ''a'')])\<rparr>"
  have r: "snd (RabbitMQ_Produce demo_producer ''a'' ''x'' ?w) = Ret ()"
    "am_channel (amqp_at (rp_link demo_producer) (fst (RabbitMQ_Produce demo_producer ''a'' ''x'' ?w))) = Some (GMapS [(''Name'', GStr ''a'')])"
    by (simp_all add: RabbitMQ_Produce_def otelProduce_def otel_send_def IsDatadogEnabled_def Producer_getChannel_def drop_closed_def
      dial_if_nil_def declare_queue_def publish_def channel_call_def demo_producer_def no_link_def amqp_at_def span_defs prog_defs)
  have "\<not> publishes (''Channel.QueueDeclare'', as)" for as by (simp add: publishes_def)
  then show ?thesis using produce_publishes_once[of demo_producer "''a''" "''x''" ?w] r by auto
qed

end
