(* ===== verification/KafkaProducer.thy ===== *)
theory KafkaProducer
  imports Spans Sql
begin

text \<open>
  The service \<^verbatim>\<open>kafka-producer\<close> (\<^verbatim>\<open>pkg/actions/kafka_producer_service.go\<close>), and the part of the
  configuration it shares with the consumer. \<^verbatim>\<open>sarama\<close> and Datadog's data streams are library calls.
\<close>

section \<open>Config\<close>

record KafkaServiceConfig =
  kc_Username :: string
  kc_Password :: string
  kc_TLSEnable :: bool
  kc_SASLEnable :: bool
  kc_PeerService :: string
  kc_PeerNamespace :: string
  kc_Brokers :: "string list"

definition kafka_fields :: "'r KafkaServiceConfig_scheme fields" where
  "kafka_fields =
     [(''username'', fld dec_string kc_Username (\<lambda>v r. r\<lparr>kc_Username := v\<rparr>)),
      (''password'', fld dec_string kc_Password (\<lambda>v r. r\<lparr>kc_Password := v\<rparr>)),
      (''tls_enable'', fld dec_bool kc_TLSEnable (\<lambda>v r. r\<lparr>kc_TLSEnable := v\<rparr>)),
      (''sasl_enable'', fld dec_bool kc_SASLEnable (\<lambda>v r. r\<lparr>kc_SASLEnable := v\<rparr>)),
      (''peer_service'', fld dec_string kc_PeerService (\<lambda>v r. r\<lparr>kc_PeerService := v\<rparr>)),
      (''peer_namespace'', fld dec_string kc_PeerNamespace (\<lambda>v r. r\<lparr>kc_PeerNamespace := v\<rparr>)),
      (''brokers'', fld (dec_list dec_string []) kc_Brokers (\<lambda>v r. r\<lparr>kc_Brokers := v\<rparr>))]"

definition kafka_zero :: KafkaServiceConfig where
  "kafka_zero = \<lparr>kc_Username = [], kc_Password = [], kc_TLSEnable = False, kc_SASLEnable = False, kc_PeerService = [],
     kc_PeerNamespace = [], kc_Brokers = []\<rparr>"

text \<open>
  The fields of \<^verbatim>\<open>sarama.Config\<close> the code assigns; \<open>None\<close> is what \<^verbatim>\<open>sarama.NewConfig\<close> leaves there.
  A TLS config is the pair of \<^verbatim>\<open>InsecureSkipVerify\<close> and \<^verbatim>\<open>ClientAuth\<close>.
\<close>

record sarama_config =
  sc_DialTimeout :: "int option"
  sc_SASL :: "(string \<times> string \<times> string) option"
  sc_TLS :: "(bool \<times> int) option"
  sc_ReturnSuccesses :: "bool option"

definition sarama_NewConfig :: sarama_config where
  "sarama_NewConfig = \<lparr>sc_DialTimeout = None, sc_SASL = None, sc_TLS = None, sc_ReturnSuccesses = None\<rparr>"

text \<open>What both constructors set: user, password and mechanism only when SASL is enabled.\<close>

definition sarama_config_of :: "'r KafkaServiceConfig_scheme \<Rightarrow> sarama_config" where
  "sarama_config_of cfg =
     (let c0 = sarama_NewConfig\<lparr>sc_DialTimeout := Some 10000000000\<rparr>;
          c1 = (if kc_SASLEnable cfg then c0\<lparr>sc_SASL := Some (kc_Username cfg, kc_Password cfg, ''PLAIN'')\<rparr> else c0)
      in if kc_TLSEnable cfg then c1\<lparr>sc_TLS := Some (True, 0)\<rparr> else c1)"

definition sarama_arg :: "sarama_config \<Rightarrow> gval" where
  "sarama_arg c = GMapS
     [(''Net.DialTimeout'', case sc_DialTimeout c of None \<Rightarrow> GNil | Some t \<Rightarrow> GInt t),
      (''Net.SASL'', case sc_SASL c of None \<Rightarrow> GNil | Some (u, p, m) \<Rightarrow> GList [GStr u, GStr p, GStr m]),
      (''Net.TLS'', case sc_TLS c of None \<Rightarrow> GNil | Some (skip, auth) \<Rightarrow> GList [GBool skip, GInt auth]),
      (''Producer.Return.Successes'', case sc_ReturnSuccesses c of None \<Rightarrow> GNil | Some b \<Rightarrow> GBool b)]"

section \<open>Messages\<close>

text \<open>A key or value is an encoder; \<open>None\<close> is nil.\<close>

record ProducerMessage =
  pm_Topic :: string
  pm_Key :: "string option"
  pm_Value :: "string option"
  pm_Headers :: "(string \<times> string) list"
  pm_Partition :: int
  pm_Offset :: int

fun add_headers :: "int \<Rightarrow> (string \<times> string) list \<Rightarrow> int" where
  "add_headers sz [] = sz"
| "add_headers sz ((k, v) # hs) = add_headers (i64 (sz + i64 (int (length k + length v)))) hs"

definition getProducerMsgSize :: "ProducerMessage \<Rightarrow> int" where
  "getProducerMsgSize msg =
     (let sz = add_headers 0 (pm_Headers msg);
          sz = (case pm_Value msg of None \<Rightarrow> sz | Some v \<Rightarrow> i64 (sz + i64 (int (length v))))
      in case pm_Key msg of None \<Rightarrow> sz | Some k \<Rightarrow> i64 (sz + i64 (int (length k))))"

definition headers_arg :: "(string \<times> string) list \<Rightarrow> gval" where
  "headers_arg hs = GMapS (map (\<lambda>(k, v). (k, GStr v)) hs)"

text \<open>What a tracer put into the carrier around the headers, as the answer of the call.\<close>

fun carried :: "gval \<Rightarrow> (string \<times> string) list" where
  "carried (GMapS m) = map (\<lambda>(k, v). (k, as_string v)) m"
| "carried _ = []"

definition add_carried :: "ProducerMessage \<Rightarrow> gval \<Rightarrow> ProducerMessage" where
  "add_carried m v = m\<lparr>pm_Headers := pm_Headers m @ carried v\<rparr>"

definition message_arg :: "ProducerMessage \<Rightarrow> gval" where
  "message_arg m = GMapS [(''Topic'', GStr (pm_Topic m)), (''Value'', case pm_Value m of None \<Rightarrow> GNil | Some v \<Rightarrow> GStr v),
     (''Headers'', headers_arg (pm_Headers m))]"

definition new_message :: "string \<Rightarrow> string \<Rightarrow> ProducerMessage" where
  "new_message topic msg = \<lparr>pm_Topic = topic, pm_Key = None, pm_Value = Some msg, pm_Headers = [], pm_Partition = 0, pm_Offset = 0\<rparr>"

section \<open>Producing\<close>

record KafkaProducerService =
  kp_name :: string
  kp_config :: KafkaServiceConfig
  kp_producer :: gval

definition setProduceCheckpoint :: "ProducerMessage \<Rightarrow> ProducerMessage prog" where
  "setProduceCheckpoint m =
     (let edges = [GStr ''direction:out'', GStr (''topic:'' @ pm_Topic m), GStr ''type:kafka''] in
     sbind (lib0 ''datastreams.ExtractFromBase64Carrier'' [headers_arg (pm_Headers m)]) (\<lambda>ctx.
     sbind (lib0 ''tracer.SetDataStreamsCheckpointWithParams'' [ctx, GInt (getProducerMsgSize m), GList edges]) (\<lambda>ok.
       if \<not> as_bool ok then sret m
       else sbind (lib0 ''datastreams.InjectToBase64Carrier'' [headers_arg (pm_Headers m)]) (\<lambda>v. sret (add_carried m v)))))"

definition kafka_ddProduce :: "KafkaProducerService \<Rightarrow> string \<Rightarrow> string \<Rightarrow> unit prog" where
  "kafka_ddProduce p topic msg =
     (let m = new_message topic msg in
     sbind (or_warn ''failed to inject span'' (lib ''tracer.Inject'' [headers_arg (pm_Headers m)])) (\<lambda>v.
     sbind (setProduceCheckpoint (add_carried m v)) (\<lambda>m.
     sbind (or_warn ''failed to send message'' (lib ''SyncProducer.SendMessage'' [kp_producer p, message_arg m])) (\<lambda>place.
     trace_call ''tracer.TrackKafkaProduceOffset'' [GStr topic, gfield ''Partition'' place, gfield ''Offset'' place]))))"

definition kafka_otelProduce :: "KafkaProducerService \<Rightarrow> string \<Rightarrow> string \<Rightarrow> unit prog" where
  "kafka_otelProduce p topic msg =
     with_span (start_span ''Tracer.Start'' [GStr ''kafka-producer'', GStr ''Produce Message'', GStr ''producer'']) (\<lambda>s. Span_End s) (\<lambda>s.
       let m = new_message topic msg in
     sbind (Span_SetAttribute s ''messaging.kafka.destination.partition'' (GInt (pm_Partition m))) (\<lambda>_.
     sbind (Span_SetAttribute s ''messaging.kafka.message.offset'' (GInt (pm_Offset m))) (\<lambda>_.
     sbind (Span_SetAttribute s ''messaging.destination.name'' (GStr topic)) (\<lambda>_.
     sbind (Span_SetAttribute s ''messaging.system'' (GStr ''kafka'')) (\<lambda>_.
     sbind (Span_SetAttribute s ''peer.service'' (GStr (kc_PeerService (kp_config p)))) (\<lambda>_.
     sbind (Span_SetAttribute s ''peer.namespace'' (GStr (kc_PeerNamespace (kp_config p)))) (\<lambda>_.
     sbind (setProduceCheckpoint m) (\<lambda>m.
     sbind (on_err (lib ''SyncProducer.SendMessage'' [kp_producer p, message_arg m]) (\<lambda>e.
        sbind (say Warn ''failed to send message'') (\<lambda>_. sbind (Span_error s e) (\<lambda>_. lift_out (Err e))))) (\<lambda>_.
     Span_ok s ''message sent'')))))))))"

definition Kafka_Produce :: "KafkaProducerService \<Rightarrow> string \<Rightarrow> string \<Rightarrow> unit prog" where
  "Kafka_Produce p topic msg =
     sbind (env pr_env) (\<lambda>getenv. if IsDatadogEnabled getenv then kafka_ddProduce p topic msg else kafka_otelProduce p topic msg)"

definition NewKafkaProducerService :: "string \<Rightarrow> gmap \<Rightarrow> KafkaProducerService prog" where
  "NewKafkaProducerService name config =
     sbind (lift_out (ParseConfig kafka_fields kafka_zero config)) (\<lambda>cfg.
     let c = (sarama_config_of cfg)\<lparr>sc_ReturnSuccesses := Some True\<rparr> in
     sbind (lib ''sarama.NewSyncProducer'' [GList (map GStr (kc_Brokers cfg)), sarama_arg c]) (\<lambda>producer.
     sbind (lib0 ''saramatrace.WrapSyncProducer'' [sarama_arg c, producer, GStr (kc_PeerService cfg)]) (\<lambda>wrapped.
     sret \<lparr>kp_name = name, kp_config = cfg, kp_producer = wrapped\<rparr>)))"

definition kafka_producer_constructor :: "string \<Rightarrow> gmap \<Rightarrow> service prog" where
  "kafka_producer_constructor name m =
     sbind (or_panic (NewKafkaProducerService name m)) (\<lambda>p.
     sret \<lparr>sv_name = kp_name p, sv_type = ''kafka-producer'', sv_config = m, sv_handle = kp_producer p\<rparr>)"

definition as_kafka_producer :: "service \<Rightarrow> KafkaProducerService" where
  "as_kafka_producer s = \<lparr>kp_name = sv_name s,
     kp_config = (case ParseConfig kafka_fields kafka_zero (sv_config s) of Ret c \<Rightarrow> c | _ \<Rightarrow> kafka_zero), kp_producer = sv_handle s\<rparr>"

lemma as_kafka_producer_constructed:
  "NewKafkaProducerService n m w = (w', Ret p) \<Longrightarrow> \<exists>s. kafka_producer_constructor n m w = (w', Ret s) \<and> as_kafka_producer s = p"
  by (cases "ParseConfig kafka_fields kafka_zero m")
    (auto simp: kafka_producer_constructor_def or_panic_def NewKafkaProducerService_def as_kafka_producer_def prog_defs Let_def
      split: prod.splits outcome.splits)

section \<open>Lemmas\<close>

lemma calls_setProduceCheckpoint [calls_rules]:
  "(\<And>f as. f \<in> {''datastreams.ExtractFromBase64Carrier'', ''tracer.SetDataStreamsCheckpointWithParams'', ''datastreams.InjectToBase64Carrier''}
     \<Longrightarrow> P (f, as)) \<Longrightarrow> calls_only P (setProduceCheckpoint m)"
  unfolding setProduceCheckpoint_def Let_def by (intro calls_rules) auto

lemma closes_setProduceCheckpoint [span_rules]: "closes_spans (setProduceCheckpoint m)"
  by (rule closes_calls_only) (intro calls_rules, auto simp: is_start_def)

lemma closes_Kafka_Produce: "closes_spans (Kafka_Produce p topic msg)"
  unfolding Kafka_Produce_def kafka_ddProduce_def kafka_otelProduce_def Let_def
  by (intro span_rules; simp add: is_start_def)

text \<open>The checkpoint changes nothing of a message but its headers.\<close>

lemma setProduceCheckpoint_keeps:
  "setProduceCheckpoint m w = (w', Ret m') \<Longrightarrow> pm_Topic m' = pm_Topic m \<and> pm_Value m' = pm_Value m"
  by (auto simp: setProduceCheckpoint_def Let_def prog_defs add_carried_def split: prod.splits outcome.splits if_splits)

lemma i64_i64_left [simp]: "i64 (i64 x + y) = i64 (x + y)"
  by (simp add: i64_def mod_simps algebra_simps)

lemma i64_i64_right [simp]: "i64 (x + i64 y) = i64 (x + y)"
  using i64_i64_left[of y x] by (simp add: add.commute)

lemma i64_i64_same [simp]: "i64 (i64 x) = i64 x"
  using i64_i64_left[of x 0] by simp

lemma add_headers_sum:
  "is_i64 sz \<Longrightarrow> add_headers sz hs = i64 (sz + int (\<Sum>(k, v)\<leftarrow>hs. length k + length v))"
proof (induction sz hs rule: add_headers.induct)
  case (2 sz k v hs)
  then show ?case by (simp add: algebra_simps)
qed simp

end
