(* ===== verification/ServiceTypes.thy ===== *)
theory ServiceTypes
  imports StoreActions Minio RabbitProducer KafkaProducer
begin

text \<open>
  The table \<^verbatim>\<open>SERVICE_TYPES\<close> that the \<^verbatim>\<open>init\<close> functions of the services fill, what its constructors
  promise the registry, and the methods of the services behind the interface \<^verbatim>\<open>Service\<close>.
\<close>

definition SERVICE_TYPES :: "string \<Rightarrow> constructor option" where
  "SERVICE_TYPES = map_of
     [(''mysql'', mysql_constructor),
      (''postgresql'', postgresql_constructor),
      (''redis'', redis_constructor),
      (''minio'', minio_constructor),
      (''rabbitmq-producer'', rabbit_producer_constructor),
      (''kafka-producer'', kafka_producer_constructor)]"

section \<open>Methods of a service\<close>

text \<open>A method whose result is an error alone returns nil to its caller.\<close>

definition no_value :: "unit prog \<Rightarrow> gval prog" where
  "no_value m = sbind m (\<lambda>_. sret GNil)"

definition row_value :: "gmap list \<Rightarrow> gval" where
  "row_value rows = GList (map GMapS rows)"

text \<open>
  The call of a method on a value of the interface, with the arguments that follow the context;
  the engine fills up missing arguments with empty strings. A name the struct has no method for
  is an exception of the script.
\<close>

definition arg :: "nat \<Rightarrow> string list \<Rightarrow> string" where
  "arg i as = (if i < length as then as ! i else [])"

definition no_method :: "string \<Rightarrow> gerror" where
  "no_method m = EExt (''TypeError: Object has no member '' @ m)"

definition service_method :: "service \<Rightarrow> string \<Rightarrow> string list \<Rightarrow> gval prog" where
  "service_method s m as =
     (let t = sv_type s in
      if m = ''name'' then sret (GStr (sv_name s))
      else if m = ''type'' then sret (GStr t)
      else if t = ''mysql'' \<and> m = ''query'' then sbind (MysqlService_Query s (arg 0 as)) (\<lambda>rows. sret (row_value rows))
      else if t = ''postgresql'' \<and> m = ''query'' then sbind (PostgresqlService_Query s (arg 0 as)) (\<lambda>rows. sret (row_value rows))
      else if t = ''redis'' \<and> m = ''set'' then no_value (RedisService_Set s (arg 0 as) (arg 1 as))
      else if t = ''redis'' \<and> m = ''get'' then sbind (RedisService_Get s (arg 0 as)) (\<lambda>v. sret (GStr v))
      else if t = ''minio'' \<and> m = ''get_object'' then
        sbind (MinioService_Get_object (as_minio s) (arg 0 as) (arg 1 as)) (\<lambda>d. sret (GStr d))
      else if t = ''minio'' \<and> m = ''put_object'' then
        no_value (MinioService_Put_object (as_minio s) (arg 0 as) (arg 1 as) (arg 2 as))
      else if t = ''minio'' \<and> m = ''remove_object'' then no_value (MinioService_Remove_object (as_minio s) (arg 0 as) (arg 1 as))
      else if t = ''rabbitmq-producer'' \<and> m = ''produce'' then
        no_value (RabbitMQ_Produce (as_rabbit_producer s) (arg 0 as) (arg 1 as))
      else if t = ''rabbitmq-producer'' \<and> m = ''close'' then no_value (Producer_Close (as_rabbit_producer s))
      else if t = ''kafka-producer'' \<and> m = ''produce'' then no_value (Kafka_Produce (as_kafka_producer s) (arg 0 as) (arg 1 as))
      else lift_out (Err (no_method m)))"

section \<open>Programs that leave the registries and the environment alone and return a given kind of value\<close>

definition makes :: "('a \<Rightarrow> bool) \<Rightarrow> 'a prog \<Rightarrow> bool" where
  "makes P m \<longleftrightarrow> (\<forall>w. pr_services (fst (m w)) = pr_services w \<and> pr_background (fst (m w)) = pr_background w \<and> pr_env (fst (m w)) = pr_env w
     \<and> (\<forall>x. snd (m w) = Ret x \<longrightarrow> P x))"

named_theorems makes_rules \<open>programs that leave the registries alone\<close>

lemma makes_sbind [makes_rules]:
  assumes "makes (\<lambda>_. True) m" "\<And>x. makes P (f x)"
  shows "makes P (sbind m f)"
proof -
  have "pr_services (fst (sbind m f w)) = pr_services w \<and> pr_background (fst (sbind m f w)) = pr_background w \<and> pr_env (fst (sbind m f w)) = pr_env w
      \<and> (\<forall>x. snd (sbind m f w) = Ret x \<longrightarrow> P x)" for w
    using assms unfolding makes_def
    by (cases "m w"; cases "snd (m w)") (auto simp: sbind_def, (metis fst_conv)+)
  then show ?thesis by (simp add: makes_def)
qed

lemma makes_on_err [makes_rules]:
  assumes "makes P m" "\<And>e. makes P (h e)"
  shows "makes P (on_err m h)"
proof -
  have "pr_services (fst (on_err m h w)) = pr_services w \<and> pr_background (fst (on_err m h w)) = pr_background w \<and> pr_env (fst (on_err m h w)) = pr_env w
      \<and> (\<forall>x. snd (on_err m h w) = Ret x \<longrightarrow> P x)" for w
    using assms unfolding makes_def
    by (cases "m w"; cases "snd (m w)") (auto simp: on_err_def, (metis fst_conv snd_conv)+)
  then show ?thesis by (simp add: makes_def)
qed

lemma makes_basic [makes_rules]: "P x \<Longrightarrow> makes P (sret x)" "makes (\<lambda>_. True) (lift_out r)" "makes P (lift_out (Err e))"
  "makes P (lift_out (Panic p))" "makes (\<lambda>_. True) (lib f args)" "makes (\<lambda>_. True) (env g)" "makes (\<lambda>_. True) (say l msg)"
  by (simp_all add: makes_def prog_defs req_emit_def)

lemma makes_change [makes_rules]:
  "(\<And>w. pr_services (g w) = pr_services w) \<Longrightarrow> (\<And>w. pr_background (g w) = pr_background w) \<Longrightarrow> (\<And>w. pr_env (g w) = pr_env w) \<Longrightarrow> makes (\<lambda>_. True) (change g)"
  by (simp add: makes_def change_def)

lemma makes_if [makes_rules]: "(b \<Longrightarrow> makes P m) \<Longrightarrow> (\<not> b \<Longrightarrow> makes P m') \<Longrightarrow> makes P (if b then m else m')"
  by simp

lemma makes_option [makes_rules]: "makes P m \<Longrightarrow> (\<And>x. makes P (f x)) \<Longrightarrow> makes P (case v of None \<Rightarrow> m | Some x \<Rightarrow> f x)"
  by (cases v) auto

lemma makes_lib0 [makes_rules]: "makes (\<lambda>_. True) (lib0 f args)"
  unfolding lib0_def by (intro makes_rules) simp

lemma makes_call0 [makes_rules]: "makes (\<lambda>_. True) (call0 f args)"
  unfolding call0_def by (intro makes_rules) simp

lemma makes_db_call [makes_rules]: "makes (\<lambda>_. True) (db_call f db args)"
  unfolding db_call_def by (intro makes_rules)

lemma makes_open [makes_rules]: "makes (\<lambda>_. True) (open_registered driver dsn opts)"
  unfolding open_registered_def register_once_def by (intro makes_rules) simp_all

lemma makes_open_postgres [makes_rules]: "makes (\<lambda>_. True) (open_postgres_traced c dsn)"
  unfolding open_postgres_traced_def openPostgres_def by (intro makes_rules)

lemma makes_new_amqp [makes_rules]: "makes (\<lambda>_. True) new_amqp"
  by (simp add: makes_def new_amqp_def)

lemma makes_make_buckets [makes_rules]: "makes (\<lambda>_. True) (make_buckets client bs)"
  by (induction bs) (auto intro!: makes_rules)

lemma makes_or_panic [makes_rules]: "makes P m \<Longrightarrow> makes P (or_panic m)"
  unfolding or_panic_def by (intro makes_rules)

definition is_service :: "string \<Rightarrow> string \<Rightarrow> service \<Rightarrow> bool" where
  "is_service n t s \<longleftrightarrow> sv_name s = n \<and> sv_type s = t"

text \<open>A constructor that wraps a struct of its own in the interface.\<close>

lemma makes_wrapped: "makes P m \<Longrightarrow> (\<And>x. P x \<Longrightarrow> Q (f x)) \<Longrightarrow> makes Q (sbind m (\<lambda>x. sret (f x)))"
proof -
  assume m: "makes P m" and q: "\<And>x. P x \<Longrightarrow> Q (f x)"
  have "pr_services (fst (sbind m (\<lambda>x. sret (f x)) w)) = pr_services w \<and> pr_background (fst (sbind m (\<lambda>x. sret (f x)) w)) = pr_background w \<and> pr_env (fst (sbind m (\<lambda>x. sret (f x)) w)) = pr_env w
      \<and> (\<forall>x. snd (sbind m (\<lambda>x. sret (f x)) w) = Ret x \<longrightarrow> Q x)" for w
    using m q unfolding makes_def by (cases "m w"; cases "snd (m w)") (auto simp: sbind_def sret_def, (metis fst_conv snd_conv)+)
  then show ?thesis by (simp add: makes_def)
qed

lemma makes_structs: "makes (\<lambda>x. ms_name x = n) (or_panic (NewMinioService n m))"
  "makes (\<lambda>x. rp_name x = n) (or_panic (NewRabbitMQProducerService n m))"
  "makes (\<lambda>x. kp_name x = n) (or_panic (NewKafkaProducerService n m))"
  unfolding NewMinioService_def NewRabbitMQProducerService_def NewKafkaProducerService_def Let_def
  by (intro makes_rules; simp)+

lemma constructors_make: "makes (is_service n ''mysql'') (mysql_constructor n m)"
  "makes (is_service n ''postgresql'') (postgresql_constructor n m)" "makes (is_service n ''redis'') (redis_constructor n m)"
  unfolding mysql_constructor_def postgresql_constructor_def redis_constructor_def or_panic_def NewMysqlService_def
    NewPostgresqlService_def NewRedisService_def openMysql_def
  by (intro makes_rules; simp add: is_service_def)+

lemma wrappers_make: "makes (is_service n ''minio'') (minio_constructor n m)"
  "makes (is_service n ''rabbitmq-producer'') (rabbit_producer_constructor n m)"
  "makes (is_service n ''kafka-producer'') (kafka_producer_constructor n m)"
  unfolding minio_constructor_def rabbit_producer_constructor_def kafka_producer_constructor_def
  by (rule makes_wrapped, rule makes_structs, simp add: is_service_def)+

lemma makesD: "makes P m \<Longrightarrow> m w = (w', r) \<Longrightarrow> pr_services w' = pr_services w \<and> pr_background w' = pr_background w \<and> pr_env w' = pr_env w \<and> (\<forall>x. r = Ret x \<longrightarrow> P x)"
  unfolding makes_def by (metis fst_conv snd_conv)

lemma SERVICE_TYPES_construct: "constructs pr_services SERVICE_TYPES"
  unfolding constructs_def
proof (intro allI impI)
  fix t c n m w w' r
  assume c: "SERVICE_TYPES t = Some c" and w': "c n m w = (w', r)"
  have "makes (is_service n t) (c n m)"
    using c constructors_make wrappers_make by (auto simp: SERVICE_TYPES_def split: if_splits)
  from makesD[OF this w'] show "pr_services w' = pr_services w \<and> (\<forall>s. r = Ret s \<longrightarrow> sv_name s = n \<and> sv_type s = t)"
    by (simp add: is_service_def)
qed

section \<open>Every method ends the spans it starts\<close>

lemma calls_store_methods:
  "calls_only (\<lambda>c. \<not> is_start c) (MysqlService_Query s q)" "calls_only (\<lambda>c. \<not> is_start c) (PostgresqlService_Query s q)"
  "calls_only (\<lambda>c. \<not> is_start c) (RedisService_Set s k v)" "calls_only (\<lambda>c. \<not> is_start c) (RedisService_Get s k)"
  "calls_only (\<lambda>c. \<not> is_start c) (Producer_Close p)"
  unfolding MysqlService_Query_def PostgresqlService_Query_def sql_service_Query_def RedisService_Set_def RedisService_Get_def
    Producer_Close_def
  by (intro calls_rules; simp add: is_start_def)+

lemma closes_service_method [span_rules]: "closes_spans (service_method s m as)"
  unfolding service_method_def no_value_def Let_def
  by (intro span_rules closes_minio closes_Produce closes_Kafka_Produce calls_store_methods[THEN closes_calls_only])

section \<open>Properties\<close>

text \<open>
  C20. A services file that a server loads without an error leaves exactly the declared services in
  its registry, under distinct names and each of the type it is declared with, whatever the
  libraries behind the constructors answer; \<^verbatim>\<open>Get\<close> finds each of them and nothing else.
\<close>

theorem server_services_loaded:
  assumes "pr_services w = []" "pr_answers w (length (pr_calls w)) = Ret data" "pr_answers w (Suc (length (pr_calls w))) = Ret config"
    and "ServiceManager_LoadFromFile SERVICE_TYPES path w = (w', Ret ())"
  shows "distinct (map sd_Name (declarations_of config))
    \<and> (\<forall>n. (\<exists>s. ServiceManager_Get n w' = (w', Ret s)) \<longleftrightarrow> n \<in> sd_Name ` set (declarations_of config))
    \<and> (\<forall>d\<in>set (declarations_of config). \<exists>s. ServiceManager_Get (sd_Name d) w' = (w', Ret s) \<and> sv_type s = sd_Type d)"
  using services_loaded[OF SERVICE_TYPES_construct assms] .

definition demo_services :: gval where
  "demo_services = GMapS [(''services'', GList
     [GMapS [(''name'', GStr ''store''), (''type'', GStr ''minio'')], GMapS [(''name'', GStr ''queue''), (''type'', GStr ''rabbitmq-producer'')]])]"

theorem server_services_loaded_witness:
  "\<exists>w' s. ServiceManager_LoadFromFile SERVICE_TYPES ''f'' (idle_process\<lparr>pr_answers := \<lambda>k. Ret demo_services\<rparr>) = (w', Ret ())
     \<and> ServiceManager_Get ''queue'' w' = (w', Ret s) \<and> sv_type s = ''rabbitmq-producer''"
proof -
  let ?w = "idle_process\<lparr>pr_answers := \<lambda>k. Ret demo_services\<rparr>"
  have p: "ParseConfig minio_fields minio_zero [] = Ret minio_zero"
    "ParseConfig rabbit_producer_fields rabbit_producer_zero [] = Ret rabbit_producer_zero"
    by (simp_all add: parse_eval minio_fields_def rabbit_producer_fields_def)
  have z: "mi_Buckets minio_zero = []" by (simp add: minio_zero_def)
  obtain w' where e: "ServiceManager_LoadFromFile SERVICE_TYPES ''f'' ?w = (w', Ret ())"
    by (simp add: ServiceManager_LoadFromFile_def declarations_of_def declaration_of_def demo_services_def SERVICE_TYPES_def
        ServiceManager_Register_def minio_constructor_def rabbit_producer_constructor_def or_panic_def NewMinioService_def
        NewRabbitMQProducerService_def p z new_amqp_def prog_defs)
  have "\<lparr>sd_Name = ''queue'', sd_Type = ''rabbitmq-producer'', sd_Config = []\<rparr> \<in> set (declarations_of demo_services)"
    by (simp add: demo_services_def declarations_of_def declaration_of_def)
  with server_services_loaded[OF _ _ _ e, of demo_services demo_services] e show ?thesis by force
qed

end
