(* ===== verification/Script.thy ===== *)
theory Script
  imports BasicActions HttpActions MutexActions ServiceTypes
begin

text \<open>
  The action \<^verbatim>\<open>Script\<close> (\<^verbatim>\<open>script_action.go\<close>): the object it offers to a script, each of whose
  methods builds the config of an action and executes that action, and the run of a script. The
  engine is a parameter: it turns the text of a script into what its \<^verbatim>\<open>run\<close> function does, a tree
  of calls of that object.
\<close>

section \<open>Configs the script context builds\<close>

text \<open>\<^verbatim>\<open>json.Marshal\<close> of the config structs.\<close>

definition enc_print :: "PrintConfig \<Rightarrow> json outcome" where
  "enc_print c = Ret (JObj [(''message'', JStr (Message c))])"

definition enc_allocate :: "AllocateMemoryConfig \<Rightarrow> json outcome" where
  "enc_allocate c = Ret (JObj [(''sizeBytes'', JNum (of_int (SizeBytes c))), (''numAllocations'', JNum (of_int (NumAllocations c))),
     (''leak'', JBool (Leak c)), (''leakLimitBytes'', JNum (of_int (LeakLimitBytes c)))])"

definition enc_duration :: "DurationConfig \<Rightarrow> json outcome" where
  "enc_duration c = Ret (JObj [(''duration'', Duration_MarshalJSON (cfg_duration c))])"

definition enc_post :: "HTTPRequestConfig \<Rightarrow> json outcome" where
  "enc_post c = obind (Marshal (GMapS (post_Body c))) (\<lambda>b. Ret (JObj [(''url'', JStr (post_Url c)), (''body'', b)]))"

definition enc_lock :: "GlobalMutexLockConfig \<Rightarrow> json outcome" where
  "enc_lock c = Ret (JObj [(''id'', JStr (lock_Id c))])"

section \<open>The context\<close>

record ScriptContext =
  sc_Message :: string

text \<open>A method that makes a config, turns it into a map and executes an action with it.\<close>

definition via_map :: "('c \<Rightarrow> json outcome) \<Rightarrow> 'c \<Rightarrow> (gmap \<Rightarrow> unit prog) \<Rightarrow> unit prog" where
  "via_map enc cfg exec = sbind (lift_out (ConfigToMap enc cfg)) exec"

definition Script_Print :: "string \<Rightarrow> unit prog" where
  "Script_Print message = via_map enc_print \<lparr>Message = message\<rparr> Print_Execute"

definition Script_Get_message :: "ScriptContext \<Rightarrow> string prog" where
  "Script_Get_message sc = sret (sc_Message sc)"

definition Script_Allocate_memory :: "int \<Rightarrow> int \<Rightarrow> unit prog" where
  "Script_Allocate_memory size_bytes num_allocations =
     via_map enc_allocate (allocate_zero\<lparr>SizeBytes := size_bytes, NumAllocations := num_allocations\<rparr>) AllocateMemory_Execute"

definition Script_Get_service :: "string \<Rightarrow> service prog" where
  "Script_Get_service n = ServiceManager_Get n"

definition Script_Uuid :: "string prog" where
  "Script_Uuid = sbind (lib0 ''uuid.New'' []) (\<lambda>v. sret (as_string v))"

definition letterBytes :: string where
  "letterBytes = ''abcdefghijklmnopqrstuvwxyzABCDEFGHIJKLMNOPQRSTUVWXYZ''"

text \<open>\<^verbatim>\<open>rand.Intn\<close> draws a number below its argument.\<close>

fun random_letters :: "nat \<Rightarrow> string prog" where
  "random_letters 0 = sret []"
| "random_letters (Suc n) =
     sbind (lib0 ''rand.Intn'' [GInt (int (length letterBytes))]) (\<lambda>v.
     sbind (lift_out (idx letterBytes (as_int v mod int (length letterBytes)))) (\<lambda>c.
     sbind (random_letters n) (\<lambda>cs. sret (c # cs))))"

definition Script_Random_string :: "int \<Rightarrow> string prog" where
  "Script_Random_string n = sbind (lift_out (make_slice n)) (\<lambda>len. random_letters (nat len))"

definition Script_Sleep :: "(rat \<Rightarrow> int) \<Rightarrow> string \<Rightarrow> unit prog" where
  "Script_Sleep oor duration =
     sbind (lift_out (ParseDuration duration)) (\<lambda>d. via_map enc_duration \<lparr>cfg_duration = d\<rparr> (Sleep_Execute oor))"

text \<open>The text of the body is parsed as JSON; \<open>None\<close> is a text that is not JSON.\<close>

definition Script_Http_post :: "(string \<Rightarrow> json option) \<Rightarrow> string \<Rightarrow> string \<Rightarrow> unit prog" where
  "Script_Http_post parse_json url body =
     (case parse_json body of
        None \<Rightarrow> lift_out (Err (EExt ''json: invalid syntax''))
      | Some j \<Rightarrow>
          (case dec_map [] j of
             None \<Rightarrow> lift_out (Err unmarshal_error)
           | Some b \<Rightarrow> via_map enc_post \<lparr>post_Url = url, post_Body = b\<rparr> HTTPRequest_Execute))"

definition Script_Burn :: "(rat \<Rightarrow> int) \<Rightarrow> string \<Rightarrow> unit prog" where
  "Script_Burn oor duration =
     sbind (lift_out (ParseDuration duration)) (\<lambda>d. via_map enc_duration \<lparr>cfg_duration = d\<rparr> (Burn_Execute oor))"

definition Script_Lock :: "string \<Rightarrow> unit prog" where
  "Script_Lock l = via_map enc_lock \<lparr>lock_Id = l\<rparr> GlobalMutexLock_Execute"

definition Script_UnLock :: "string \<Rightarrow> unit prog" where
  "Script_UnLock l = via_map enc_lock \<lparr>lock_Id = l\<rparr> GlobalMutexUnlock_Execute"

section \<open>Running a script\<close>

text \<open>
  A call of the context, or of a method of a service it got, known by its name; and what a script
  does: it calls, gets a value or an exception, and goes on. Services stay in the registry once
  they are there, so the name stands for the object.
\<close>

datatype script_call =
    CPrint string
  | CGet_message
  | CAllocate_memory int int
  | CGet_service string
  | CUuid
  | CRandom_string int
  | CSleep string
  | CHttp_post string string
  | CBurn string
  | CLock string
  | CUnLock string
  | CMethod string string "string list"

datatype script =
    Return
  | Throw gerror
  | Diverge
  | Call script_call "gval + gerror \<Rightarrow> script"

text \<open>What the engine makes of a text: an exception at the top level, no function \<^verbatim>\<open>run\<close>, or a run.\<close>

datatype compiled = TopLevelError gerror | NoRun | HasRun script

definition Script_call_service :: "string \<Rightarrow> string \<Rightarrow> string list \<Rightarrow> gval prog" where
  "Script_call_service n m as = sbind (Script_Get_service n) (\<lambda>s. service_method s m as)"

definition service_handle :: "service \<Rightarrow> gval" where
  "service_handle s = GMapS [(''name'', GStr (sv_name s)), (''type'', GStr (sv_type s))]"

fun script_op :: "(rat \<Rightarrow> int) \<Rightarrow> (string \<Rightarrow> json option) \<Rightarrow> ScriptContext \<Rightarrow> script_call \<Rightarrow> gval prog" where
  "script_op oor pj sc (CPrint m) = sbind (Script_Print m) (\<lambda>_. sret GNil)"
| "script_op oor pj sc CGet_message = sbind (Script_Get_message sc) (\<lambda>s. sret (GStr s))"
| "script_op oor pj sc (CAllocate_memory n k) = sbind (Script_Allocate_memory n k) (\<lambda>_. sret GNil)"
| "script_op oor pj sc (CGet_service n) = sbind (Script_Get_service n) (\<lambda>s. sret (service_handle s))"
| "script_op oor pj sc CUuid = sbind Script_Uuid (\<lambda>s. sret (GStr s))"
| "script_op oor pj sc (CRandom_string n) = sbind (Script_Random_string n) (\<lambda>s. sret (GStr s))"
| "script_op oor pj sc (CSleep d) = sbind (Script_Sleep oor d) (\<lambda>_. sret GNil)"
| "script_op oor pj sc (CHttp_post u b) = sbind (Script_Http_post pj u b) (\<lambda>_. sret GNil)"
| "script_op oor pj sc (CBurn d) = sbind (Script_Burn oor d) (\<lambda>_. sret GNil)"
| "script_op oor pj sc (CLock l) = sbind (Script_Lock l) (\<lambda>_. sret GNil)"
| "script_op oor pj sc (CUnLock l) = sbind (Script_UnLock l) (\<lambda>_. sret GNil)"
| "script_op oor pj sc (CMethod n m as) = Script_call_service n m as"

text \<open>An error a method returns is an exception the script can catch; a Go panic ends the run.\<close>

primrec run_script :: "(rat \<Rightarrow> int) \<Rightarrow> (string \<Rightarrow> json option) \<Rightarrow> ScriptContext \<Rightarrow> script \<Rightarrow> unit prog" where
  "run_script oor pj sc Return = sret ()"
| "run_script oor pj sc (Throw e) = lift_out (Err e)"
| "run_script oor pj sc Diverge = lift_out (Panic Blocked)"
| "run_script oor pj sc (Call c k) =
     (\<lambda>w. case script_op oor pj sc c w of
        (w1, Ret v) \<Rightarrow> run_script oor pj sc (k (Inl v)) w1
      | (w1, Err e) \<Rightarrow> run_script oor pj sc (k (Inr e)) w1
      | (w1, Panic p) \<Rightarrow> (w1, Panic p))"

record ScriptConfig =
  cfg_Script :: string
  cfg_Message :: string

definition script_fields :: "ScriptConfig fields" where
  "script_fields =
     [(''script'', fld dec_string cfg_Script (\<lambda>v r. r\<lparr>cfg_Script := v\<rparr>)),
      (''message'', fld dec_string cfg_Message (\<lambda>v r. r\<lparr>cfg_Message := v\<rparr>))]"

definition script_zero :: ScriptConfig where
  "script_zero = \<lparr>cfg_Script = [], cfg_Message = []\<rparr>"

definition Script_Execute :: "(rat \<Rightarrow> int) \<Rightarrow> (string \<Rightarrow> json option) \<Rightarrow> (string \<Rightarrow> compiled) \<Rightarrow> gmap \<Rightarrow> unit prog" where
  "Script_Execute oor pj engine cfg =
     sbind (lift_out (ParseConfig script_fields script_zero cfg)) (\<lambda>config.
       case engine (cfg_Script config) of
         TopLevelError e \<Rightarrow> lift_out (Err e)
       | NoRun \<Rightarrow> lift_out (Err (EText ''failed to get run function''))
       | HasRun s \<Rightarrow> run_script oor pj \<lparr>sc_Message = cfg_Message config\<rparr> s)"

section \<open>What a script asks for is what the action does\<close>

lemma ConfigToMap_string:
  "ConfigToMap (\<lambda>_. Ret (JObj [(k, JStr s)])) c = Ret [(k, GStr s)]"
  by (simp add: ConfigToMap_def)

lemma via_map_Ret: "ConfigToMap enc c = Ret m \<Longrightarrow> via_map enc c exec = exec m"
  by (simp add: via_map_def)

lemma print_roundtrip: "\<exists>m. ConfigToMap enc_print c = Ret m \<and> ParseConfig print_fields print_zero m = Ret c"
  by (cases c) (simp add: ConfigToMap_def enc_print_def parse_eval print_fields_def print_zero_def)

lemma duration_roundtrip:
  assumes "is_i64 (cfg_duration c)"
  shows "\<exists>m. ConfigToMap enc_duration c = Ret m \<and> ParseConfig (duration_fields oor) duration_zero m = Ret c"
  using ParseDuration_String[OF assms]
  by (cases c) (simp add: ConfigToMap_def enc_duration_def parse_eval duration_fields_def duration_zero_def Duration_MarshalJSON_def
    dec_duration_def Duration_UnmarshalJSON_def)

lemma lock_roundtrip:
  "\<exists>m. ConfigToMap enc_lock c = Ret m \<and> ParseConfig lock_fields lock_zero m = Ret c
    \<and> ParseConfig unlock_fields unlock_zero m = Ret \<lparr>unlock_Id = lock_Id c, unlock_Workload = workload_zero\<rparr>"
  by (cases c) (simp add: ConfigToMap_def enc_lock_def parse_eval lock_fields_def lock_zero_def unlock_fields_def unlock_zero_def)

lemma dec_int_small: "\<bar>n\<bar> < 9007199254740992 \<Longrightarrow> dec_int old (JNum (of_int n)) = Some n"
  by (simp add: is_i64_def) linarith

lemma allocate_roundtrip:
  assumes "\<bar>SizeBytes c\<bar> < 9007199254740992" "\<bar>NumAllocations c\<bar> < 9007199254740992" "\<bar>LeakLimitBytes c\<bar> < 9007199254740992"
  shows "\<exists>m. ConfigToMap enc_allocate c = Ret m \<and> ParseConfig allocate_fields allocate_zero m = Ret c"
  using assms
  by (cases c) (simp add: ConfigToMap_def enc_allocate_def parse_eval allocate_fields_def allocate_zero_def dec_int_small del: dec_int.simps)

lemma exec_via_map:
  assumes "\<exists>m. ConfigToMap enc c = Ret m \<and> ParseConfig fs zero m = Ret c"
    and "\<And>m. exec m = sbind (parse_warn fs zero m) body"
  shows "via_map enc c exec = body c"
proof -
  obtain m where m: "ConfigToMap enc c = Ret m" "ParseConfig fs zero m = Ret c" using assms(1) by blast
  have "sbind (parse_warn fs zero m) body = body c" by (rule ext) (simp add: sbind_def go_simps m(2))
  with m(1) assms(2) show ?thesis by (simp add: via_map_def)
qed

lemma Script_Lock_UnLock:
  assumes "map_of (pr_locks w) l \<noteq> Some True"
  shows "\<exists>w1 w2. Script_Lock l w = (w1, Ret ()) \<and> process_held w1 = insert l (process_held w)
    \<and> Script_UnLock l w1 = (w2, Ret ()) \<and> process_held w2 = process_held w"
proof -
  obtain m where m: "ConfigToMap enc_lock \<lparr>lock_Id = l\<rparr> = Ret m" "ParseConfig lock_fields lock_zero m = Ret \<lparr>lock_Id = l\<rparr>"
      "ParseConfig unlock_fields unlock_zero m = Ret \<lparr>unlock_Id = l, unlock_Workload = workload_zero\<rparr>"
    using lock_roundtrip[of "\<lparr>lock_Id = l\<rparr>"] by auto
  have "\<exists>w1. GlobalMutexLock_Execute m w = (w1, Ret ()) \<and> map_of (pr_locks w1) l = Some True"
    using assms m(2)
    by (cases "map_of (pr_locks w) l")
      (auto simp: GlobalMutexLock_Execute_def sbind_def go_simps change_def env_def update_conv')
  then obtain w1 where w1: "GlobalMutexLock_Execute m w = (w1, Ret ())" "map_of (pr_locks w1) l = Some True" by blast
  obtain w2 where w2: "GlobalMutexUnlock_Execute m w1 = (w2, Ret ())"
    using w1(2) m(3) by (auto simp: GlobalMutexUnlock_Execute_def sbind_def go_simps change_def env_def)
  have h1: "l \<notin> process_held w" "process_held w1 = insert l (process_held w)" using Lock_cases[OF m(2) w1(1)] by simp_all
  moreover have "process_held w2 = process_held w1 - {l}" using Unlock_cases[OF m(3) w2] w1(2) by simp
  ultimately show ?thesis using w1(1) w2 m(1) by (auto simp: Script_Lock_def Script_UnLock_def via_map_def)
qed

section \<open>The calls of a script\<close>

text \<open>The calls a script makes itself; those of the methods of services come on top.\<close>

definition script_calls :: "string set" where
  "script_calls = {''uuid.New'', ''rand.Intn'', ''select ctx.Done, time.After'', ''http.NewRequestWithContext'', ''Header.Set'',
     ''httptrace.WrapClient.Do'', ''otelhttp.Client.Do'', ''http.DefaultClient.Do'', ''Body.Close'', ''io.ReadAll''}"

definition method_calls :: "string set" where
  "method_calls = {''DB.QueryContext'', ''Rows.Close'', ''Rows.Columns'', ''Rows.Next'', ''Rows.Scan'', ''redis8.Set'', ''redis9.Set'',
     ''redis8.Get'', ''redis9.Get'', ''Client.GetObject'', ''Client.PutObject'', ''Client.RemoveObject'', ''io.ReadAll'',
     ''Connection.IsClosed'', ''amqp.Dial'', ''Connection.Channel'', ''Connection.Close'', ''Channel.QueueDeclare'', ''Channel.Publish'',
     ''tracer.Inject'', ''datastreams.ExtractFromBase64Carrier'', ''tracer.SetDataStreamsCheckpointWithParams'',
     ''datastreams.InjectToBase64Carrier'', ''SyncProducer.SendMessage'', ''tracer.TrackKafkaProduceOffset'',
     ''tracer.StartSpan'', ''Tracer.Start'', ''Span.Finish'', ''Span.End'', ''Span.SetAttributes'', ''Span.RecordError'', ''Span.SetStatus''}"

lemma calls_via_map: "(\<And>m. calls_only P (exec m)) \<Longrightarrow> calls_only P (via_map enc c exec)"
  unfolding via_map_def by (intro calls_rules)

lemma calls_random_letters: "(\<And>as. P (''rand.Intn'', as)) \<Longrightarrow> calls_only P (random_letters n)"
  by (induction n) (auto intro!: calls_rules)

lemma leak_memory_calls [simp]: "pr_calls (leak_memory c d w) = pr_calls w" "pr_answers (leak_memory c d w) = pr_answers w"
  by (simp_all add: leak_memory_def split: prod.split)

lemma calls_plain_actions: "calls_only P (AllocateMemory_Execute cfg)" "calls_only P (GlobalMutexLock_Execute cfg)"
  "calls_only P (GlobalMutexUnlock_Execute cfg)" "calls_only P (Print_Execute cfg)" "calls_only P (Burn_Execute oor cfg)"
  unfolding AllocateMemory_Execute_def GlobalMutexLock_Execute_def GlobalMutexUnlock_Execute_def Print_Execute_def Burn_Execute_def
  by (intro calls_rules calls_change calls_option; simp)+

lemma calls_http_request:
  assumes "\<And>f as. f \<in> script_calls \<Longrightarrow> P (f, as)"
  shows "calls_only P (HTTPRequest_Execute cfg)"
  unfolding HTTPRequest_Execute_def http_Do_def check_status_def Let_def by (intro calls_rules assms) (simp_all add: script_calls_def)

lemma calls_own_ops:
  assumes "\<And>f as. f \<in> script_calls \<Longrightarrow> P (f, as)" and "\<nexists>n m as. c = CMethod n m as"
  shows "calls_only P (script_op oor pj sc c)"
proof -
  have o: "calls_only P (Script_Print x)" "calls_only P (Script_Get_message sc)" "calls_only P (Script_Allocate_memory i j)"
      "calls_only P (Script_Get_service x)" "calls_only P Script_Uuid" "calls_only P (Script_Random_string i)"
      "calls_only P (Script_Sleep oor x)" "calls_only P (Script_Burn oor x)" "calls_only P (Script_Lock x)" "calls_only P (Script_UnLock x)"
    for x i j
    unfolding Script_Print_def Script_Get_message_def Script_Allocate_memory_def Script_Get_service_def ServiceManager_Get_def Script_Uuid_def
      Script_Random_string_def Script_Sleep_def Sleep_Execute_def Script_Burn_def Script_Lock_def Script_UnLock_def
    by (intro calls_rules calls_via_map calls_plain_actions calls_random_letters calls_option assms; simp add: script_calls_def)+
  have h: "calls_only P (Script_Http_post pj x y)" for x y
    unfolding Script_Http_post_def by (intro calls_option calls_rules calls_via_map calls_http_request assms)
  show ?thesis using assms(2) by (cases c) (auto intro!: calls_rules o h)
qed

lemma calls_service_method:
  assumes "\<And>f as. f \<in> method_calls \<Longrightarrow> P (f, as)"
  shows "calls_only P (service_method s m as)"
proof -
  have sql: "calls_only P (MysqlService_Query s q)" "calls_only P (PostgresqlService_Query s q)" "calls_only P (RedisService_Set s k v)"
      "calls_only P (RedisService_Get s k)" "calls_only P (Producer_Close p)" for q k v p
    unfolding MysqlService_Query_def PostgresqlService_Query_def sql_service_Query_def RedisService_Set_def RedisService_Get_def Producer_Close_def
    by (intro calls_rules assms; simp add: method_calls_def)+
  have minio: "calls_only P (MinioService_Get_object ms b j)" "calls_only P (MinioService_Put_object ms b j d)"
      "calls_only P (MinioService_Remove_object ms b j)" for ms b j d
    unfolding MinioService_Get_object_def MinioService_Put_object_def MinioService_Remove_object_def minio_ddStartSpan_def minio_otel_span_def
      get_object_body_def put_object_body_def remove_object_body_def
    by (intro calls_rules assms; auto simp: method_calls_def)+
  have rabbit: "calls_only P (RabbitMQ_Produce p q x)" for p q x
    unfolding RabbitMQ_Produce_def ddProduce_def otelProduce_def dd_send_def otel_send_def declare_queue_def publish_def
    by (intro calls_rules sql assms; auto simp: method_calls_def)
  have kafka: "calls_only P (Kafka_Produce p q x)" for p q x
    unfolding Kafka_Produce_def kafka_ddProduce_def kafka_otelProduce_def Span_error_def Let_def
    by (intro calls_rules assms; auto simp: method_calls_def)
  show ?thesis
    unfolding service_method_def no_value_def Let_def by (intro calls_rules sql minio rabbit kafka)
qed

lemma calls_script_op:
  assumes "\<And>f as. f \<in> script_calls \<union> method_calls \<Longrightarrow> P (f, as)"
  shows "calls_only P (script_op oor pj sc c)"
proof (cases "\<exists>n m as. c = CMethod n m as")
  case True
  then show ?thesis
    using assms by (auto simp: Script_call_service_def Script_Get_service_def ServiceManager_Get_def
      intro!: calls_rules calls_option calls_service_method)
qed (use assms in \<open>auto intro: calls_own_ops\<close>)

lemma run_script_Call:
  "run_script oor pj sc (Call c k) =
     sbind (on_err (sbind (script_op oor pj sc c) (\<lambda>v. sret (Inl v))) (\<lambda>e. sret (Inr e))) (\<lambda>v. run_script oor pj sc (k v))"
  by (rule ext) (auto simp: sbind_def on_err_def sret_def split: prod.split outcome.split)

lemma calls_run_script:
  assumes "\<And>f as. f \<in> script_calls \<union> method_calls \<Longrightarrow> P (f, as)"
  shows "calls_only P (run_script oor pj sc s)"
proof (induction s)
  case (Call c k)
  then show ?case unfolding run_script_Call by (intro calls_rules calls_script_op assms) auto
qed (auto intro: calls_rules)

lemma calls_Script_Execute:
  assumes "\<And>f as. f \<in> script_calls \<union> method_calls \<Longrightarrow> P (f, as)"
  shows "calls_only P (Script_Execute oor pj engine cfg)"
proof -
  have "calls_only P (case engine t of TopLevelError e \<Rightarrow> lift_out (Err e) | NoRun \<Rightarrow> lift_out (Err (EText x))
      | HasRun s \<Rightarrow> run_script oor pj sc s)" for t x sc
    using calls_run_script[of P, OF assms] by (cases "engine t") (auto intro: calls_rules)
  then show ?thesis unfolding Script_Execute_def by (intro calls_rules)
qed

text \<open>A script leaves no span open, whatever services it calls.\<close>

lemma closes_run_script [span_rules]: "closes_spans (run_script oor pj sc s)"
proof (induction s)
  case (Call c k)
  have "closes_spans (script_op oor pj sc c)"
  proof (cases "\<exists>n m as. c = CMethod n m as")
    case True
    then show ?thesis
      by (auto simp: Script_call_service_def Script_Get_service_def ServiceManager_Get_def intro!: span_rules)
  next
    case False
    then show ?thesis
      by (intro closes_calls_only calls_own_ops) (auto simp: script_calls_def is_start_def)
  qed
  with Call show ?case unfolding run_script_Call by (intro span_rules) auto
qed (auto intro: span_rules)

lemma closes_Script_Execute [span_rules]: "closes_spans (Script_Execute oor pj engine cfg)"
proof -
  have "closes_spans (case engine t of TopLevelError e \<Rightarrow> lift_out (Err e) | NoRun \<Rightarrow> lift_out (Err (EText x))
      | HasRun s \<Rightarrow> run_script oor pj sc s)" for t x sc
    by (cases "engine t") (auto intro: span_rules)
  then show ?thesis unfolding Script_Execute_def by (intro span_rules)
qed

section \<open>Properties\<close>

text \<open>
  C27. What a script asks its context for survives the way through JSON and the config of an
  action: a message is printed as it is, a duration is burnt to the nanosecond, sizes below 2^53
  are allocated exactly and nothing is leaked, and locking and unlocking an id gives the lock
  back.
\<close>

theorem script_calls_reach_the_actions:
  assumes "ParseDuration s = Ret d" "is_i64 d" "\<bar>n\<bar> < 9007199254740992" "\<bar>k\<bar> < 9007199254740992"
    and "map_of (pr_locks w) l \<noteq> Some True"
  shows "Script_Print msg = print_out msg
    \<and> Script_Burn oor s = sbind time_Now (\<lambda>now. spin_until (now + d))
    \<and> Script_Allocate_memory n k w = (w, obind (make_blocks n k) (\<lambda>_. Ret ()))
    \<and> (\<exists>w1 w2. Script_Lock l w = (w1, Ret ()) \<and> process_held w1 = insert l (process_held w)
         \<and> Script_UnLock l w1 = (w2, Ret ()) \<and> process_held w2 = process_held w)"
proof (intro conjI Script_Lock_UnLock assms(5))
  show "Script_Print msg = print_out msg"
    unfolding Script_Print_def by (subst exec_via_map[OF print_roundtrip Print_Execute_def]) simp
  show "Script_Burn oor s = sbind time_Now (\<lambda>now. spin_until (now + d))"
    unfolding Script_Burn_def using assms(1,2) by (simp add: exec_via_map[OF duration_roundtrip Burn_Execute_def])
  let ?c = "allocate_zero\<lparr>SizeBytes := n, NumAllocations := k\<rparr>"
  have "\<exists>m. ConfigToMap enc_allocate ?c = Ret m \<and> ParseConfig allocate_fields allocate_zero m = Ret ?c"
    using assms(3,4) by (intro allocate_roundtrip) (simp_all add: allocate_zero_def)
  then show "Script_Allocate_memory n k w = (w, obind (make_blocks n k) (\<lambda>_. Ret ()))"
    by (cases "make_blocks n k")
      (auto simp: Script_Allocate_memory_def via_map_def AllocateMemory_Execute_def allocate_zero_def change_def leak_memory_def lift_out_def)
qed

theorem script_calls_reach_the_actions_witness:
  "Script_Burn (\<lambda>_. 0) (Duration_String 1500000000) = sbind time_Now (\<lambda>now. spin_until (now + 1500000000))
    \<and> snd (Script_Allocate_memory 4096 (- 1) idle_process) = Ret ()"
proof -
  have d: "is_i64 1500000000" by (simp add: is_i64_def)
  show ?thesis
    using script_calls_reach_the_actions[OF ParseDuration_String[OF d] d, of 4096 "- 1" idle_process "[]" "[]" "\<lambda>_. 0"]
    by (simp add: make_blocks_def)
qed

end
