(* ===== verification/Actions.thy ===== *)
theory Actions
  imports Script FileActions StoreActions Mongo
begin

text \<open>
  The table \<^verbatim>\<open>ACTIONS\<close> that the \<^verbatim>\<open>init\<close> functions of \<^verbatim>\<open>pkg/actions\<close> fill. One entry refers back
  to the table: parsing the config of a \<^verbatim>\<open>GlobalMutexUnlock\<close> verifies the workload in it. The
  recursion is by fuel, and the nesting of the config is enough of it.
\<close>

section \<open>The table\<close>

text \<open>What the actions take from outside the repository.\<close>

record platform =
  pf_oor :: "rat \<Rightarrow> int"
  pf_json :: "string \<Rightarrow> json option"
  pf_engine :: "string \<Rightarrow> compiled"
  pf_options :: "json \<Rightarrow> gval option"
  pf_range :: "gmap \<Rightarrow> gmap"

definition entry :: "(gmap \<Rightarrow> unit prog) \<Rightarrow> 'r fields \<Rightarrow> 'r \<Rightarrow> process action" where
  "entry exec fs zero = Action (\<lambda>w cfg. exec cfg w) (parse_only fs zero)"

definition plain_actions :: "platform \<Rightarrow> (string \<times> process action) list" where
  "plain_actions pf =
     [(''Print'', entry Print_Execute print_fields print_zero),
      (''Burn'', entry (Burn_Execute (pf_oor pf)) (duration_fields (pf_oor pf)) duration_zero),
      (''Sleep'', entry (Sleep_Execute (pf_oor pf)) (duration_fields (pf_oor pf)) duration_zero),
      (''Fibonacci'', entry Fibonacci_Execute fibonacci_fields fibonacci_zero),
      (''Panic'', entry Panic_Execute panic_fields panic_zero),
      (''HTTPResponse'', entry HTTPResponse_Execute response_fields response_zero),
      (''AllocateMemory'', entry AllocateMemory_Execute allocate_fields allocate_zero),
      (''CreateFile'', entry CreateFile_Execute create_file_fields create_file_zero),
      (''RandomIO'', entry RandomIO_Execute random_io_fields random_io_zero),
      (''HTTPGetRequest'', entry HTTPGetRequest_Execute http_get_fields http_get_zero),
      (''HTTPRequest'', entry HTTPRequest_Execute http_post_fields http_post_zero),
      (''GlobalMutexLock'', entry GlobalMutexLock_Execute lock_fields lock_zero),
      (''MysqlQuery'', entry MysqlQuery_Execute query_fields query_zero),
      (''PostgresqlQuery'', entry PostgresqlQuery_Execute query_fields query_zero),
      (''RedisCommand'', entry RedisCommand_Execute redis_fields redis_zero),
      (''SnowflakeQuery'', entry SnowflakeQuery_Execute snowflake_fields snowflake_zero),
      (''ElasticInsert'', entry ElasticInsert_Execute elastic_insert_fields elastic_insert_zero),
      (''ElasticQuery'', entry ElasticQuery_Execute elastic_query_fields elastic_query_zero),
      (''MongodbQuery'', entry (MongoDBQuery_Execute (pf_oor pf) (pf_options pf) (pf_range pf)) (mongo_fields (pf_oor pf) (pf_options pf)) mongo_zero),
      (''Script'', entry (Script_Execute (pf_oor pf) (pf_json pf) (pf_engine pf)) script_fields script_zero)]"

definition table_with :: "platform \<Rightarrow> (gmap \<Rightarrow> unit outcome) \<Rightarrow> process registry" where
  "table_with pf parse_unlock =
     map_of ((''GlobalMutexUnlock'', Action (\<lambda>w cfg. GlobalMutexUnlock_Execute cfg w) parse_unlock) # plain_actions pf)"

primrec unlock_parse :: "nat \<Rightarrow> platform \<Rightarrow> gmap \<Rightarrow> unit outcome" where
  "unlock_parse 0 pf = (\<lambda>data. Panic Blocked)"
| "unlock_parse (Suc n) pf = (\<lambda>data. GlobalMutexUnlock_ParseConfig (table_with pf (unlock_parse n pf)) data)"

text \<open>How deep the maps and lists of a value are nested.\<close>

fun gdepth :: "gval \<Rightarrow> nat"
  and mdepth :: "(string \<times> gval) list \<Rightarrow> nat"
  and adepth :: "(gval \<times> gval) list \<Rightarrow> nat"
  and ldepth :: "gval list \<Rightarrow> nat" where
  "gdepth (GMapS m) = Suc (mdepth m)"
| "gdepth (GMapA m) = Suc (adepth m)"
| "gdepth (GList vs) = Suc (ldepth vs)"
| "gdepth _ = 0"
| "mdepth [] = 0"
| "mdepth ((k, v) # m) = max (gdepth v) (mdepth m)"
| "adepth [] = 0"
| "adepth ((k, v) # m) = max (gdepth v) (adepth m)"
| "ldepth [] = 0"
| "ldepth (v # vs) = max (gdepth v) (ldepth vs)"

definition ACTIONS :: "platform \<Rightarrow> process registry" where
  "ACTIONS pf = table_with pf (\<lambda>data. unlock_parse (Suc (mdepth data)) pf data)"

section \<open>Nested workloads are shallower than the config around them\<close>

fun jdepth :: "json \<Rightarrow> nat"
  and jldepth :: "json list \<Rightarrow> nat"
  and jodepth :: "(string \<times> json) list \<Rightarrow> nat" where
  "jdepth (JArr js) = Suc (jldepth js)"
| "jdepth (JObj kvs) = Suc (jodepth kvs)"
| "jdepth _ = 0"
| "jldepth [] = 0"
| "jldepth (j # js) = max (jdepth j) (jldepth js)"
| "jodepth [] = 0"
| "jodepth ((k, j) # kvs) = max (jdepth j) (jodepth kvs)"

lemma jodepth_le: "jodepth kvs \<le> D \<longleftrightarrow> (\<forall>kj\<in>set kvs. jdepth (snd kj) \<le> D)"
  by (induction kvs) auto

lemma jldepth_le: "jldepth js \<le> D \<longleftrightarrow> (\<forall>j\<in>set js. jdepth j \<le> D)"
  by (induction js) auto

lemma mdepth_le: "mdepth m \<le> D \<longleftrightarrow> (\<forall>kv\<in>set m. gdepth (snd kv) \<le> D)"
  by (induction m) auto

lemma Convert_depth:
  "Convert v = Ret v' \<Longrightarrow> gdepth v' \<le> gdepth v"
  "Convert_mapS x = Ret m \<Longrightarrow> mdepth m \<le> mdepth x"
  "Convert_mapA y = Ret m \<Longrightarrow> mdepth m \<le> adepth y"
  "Convert_list z = Ret l \<Longrightarrow> ldepth l \<le> ldepth z"
proof (induction v and x and y and z arbitrary: v' and m and m and l
    rule: Convert_Convert_mapS_Convert_mapA_Convert_list.induct)
  case (8 k v x)
  then show ?case by (cases k) (fastforce simp: go_simps intro: max.mono)+
qed (fastforce simp: go_simps intro: max.mono)+

lemma Marshal_depth:
  "Marshal v = Ret j \<Longrightarrow> jdepth j \<le> gdepth v"
  "Marshal_list vs = Ret js \<Longrightarrow> jldepth js \<le> ldepth vs"
  "Marshal_map x = Ret kvs \<Longrightarrow> jodepth kvs \<le> mdepth x"
proof (induction v and vs and x arbitrary: j and js and kvs rule: Marshal_Marshal_list_Marshal_map.induct)
  case (8 x)
  have "jodepth (sort_key fst kvs) \<le> jodepth kvs" for kvs
    unfolding jodepth_le using jodepth_le[of kvs "jodepth kvs"] by simp
  with 8 show ?case by (fastforce simp: go_simps intro: order_trans)
qed (fastforce simp: go_simps intro: max.mono)+


lemma any_depth:
  "any_of_json j = Some v \<Longrightarrow> gdepth v \<le> jdepth j"
  "any_of_list js = Some vs \<Longrightarrow> ldepth vs \<le> jldepth js"
  "any_of_obj kvs m = Some m' \<Longrightarrow> mdepth m' \<le> max (mdepth m) (jodepth kvs)"
proof (induction j and js and kvs m arbitrary: v and vs and m' rule: any_of_json_any_of_list_any_of_obj.induct)
  case (10 k j kvs m)
  obtain v where v: "any_of_json j = Some v" "any_of_obj kvs (AList.update k v m) = Some m'"
    using "10.prems"(1) by (auto split: option.splits)
  have "mdepth (AList.update k v m) \<le> max (gdepth v) (mdepth m)" by (induction m) auto
  moreover have "gdepth v \<le> jdepth j" using 10(1) v(1) by blast
  moreover have "mdepth m' \<le> max (mdepth (AList.update k v m)) (jodepth kvs)" using 10(2)[OF v(1)] v(2) by blast
  ultimately show ?case by simp
next
  case (8 j js)
  obtain v vs' where v: "any_of_json j = Some v" "any_of_list js = Some vs'" "vs = v # vs'"
    using "8.prems" by (auto split: option.splits)
  have "gdepth v \<le> jdepth j" using 8(1) v(1) by blast
  moreover have "ldepth vs' \<le> jldepth js" using 8(2)[OF v(1)] v(2) by blast
  ultimately show ?case unfolding v(3) ldepth.simps jldepth.simps by (rule max.mono)
qed (auto split: if_splits option.splits)

lemma dec_map_depth: "dec_map old j = Some m \<Longrightarrow> mdepth old < D \<Longrightarrow> jdepth j \<le> D \<Longrightarrow> mdepth m < D"
proof (cases j)
  case (JObj kvs)
  assume "dec_map old j = Some m" "mdepth old < D" "jdepth j \<le> D"
  with JObj any_depth(3)[of kvs old m] show ?thesis by simp
qed auto

text \<open>A rule for decoding that knows of the values as well.\<close>

lemma decode_obj_keeps_deep:
  assumes "\<And>t put r j r'. (t, put) \<in> set fs \<Longrightarrow> P r \<Longrightarrow> jdepth j \<le> D \<Longrightarrow> put r j = Some r' \<Longrightarrow> P r'"
  shows "P r \<Longrightarrow> jodepth kvs \<le> D \<Longrightarrow> decode_obj fs r kvs = Some r' \<Longrightarrow> P r'"
proof (induction kvs arbitrary: r)
  case (Cons kj kvs)
  obtain k j where kj: "kj = (k, j)" by fastforce
  have d: "jdepth j \<le> D" "jodepth kvs \<le> D" using Cons.prems(2) kj by simp_all
  show ?case
  proof (cases "find_field fs k")
    case None
    with Cons kj d show ?thesis by simp
  next
    case (Some put)
    with Cons.prems(3) kj obtain r1 where r1: "put r j = Some r1" "decode_obj fs r1 kvs = Some r'" by (auto split: option.splits)
    obtain t where "(t, put) \<in> set fs" using find_field_in[OF Some] by blast
    with assms Cons.prems(1) d r1 have "P r1" by blast
    with Cons.IH d r1 show ?thesis by blast
  qed
qed simp

lemma decode_struct_keeps_deep:
  assumes "\<And>t put r j r'. (t, put) \<in> set fs \<Longrightarrow> P r \<Longrightarrow> jdepth j \<le> D \<Longrightarrow> put r j = Some r' \<Longrightarrow> P r'"
    and "P r" "jdepth j \<le> Suc D" "decode_struct fs r j = Some r'"
  shows "P r'"
proof (cases "\<exists>kvs. j = JObj kvs")
  case True
  then obtain kvs where "j = JObj kvs" by blast
  with assms(3,4) have k: "jodepth kvs \<le> D" "decode_obj fs r kvs = Some r'" by simp_all
  show ?thesis by (rule decode_obj_keeps_deep[where P = P, OF _ assms(2) k]) (rule assms(1))
next
  case False
  with assms show ?thesis by (cases j) simp_all
qed

lemma decode_action_depth:
  "mdepth (Config a) < D \<Longrightarrow> jdepth j \<le> D \<Longrightarrow> decode_struct action_fields a j = Some a' \<Longrightarrow> mdepth (Config a') < D"
proof (rule decode_struct_keeps_deep[where P = "\<lambda>a. mdepth (Config a) < D" and D = D and fs = action_fields and j = j and r = a])
  fix t put r j r'
  assume "(t, put) \<in> set action_fields" "mdepth (Config r) < D" "jdepth j \<le> D" "put r j = Some r'"
  then show "mdepth (Config r') < D"
    using dec_map_depth[of "Config r" j _ D] by (auto simp: action_fields_def fld_def)
qed auto

lemma dec_elems_depth:
  assumes "\<forall>a\<in>set olds. mdepth (Config a) < D" "\<forall>j\<in>set js. jdepth j \<le> D" "0 < D"
    and "dec_elems (decode_struct action_fields) action_zero olds js = Some as"
  shows "\<forall>a\<in>set as. mdepth (Config a) < D"
  using assms
proof (induction js arbitrary: olds as)
  case (Cons j js)
  define old where "old = (case olds of [] \<Rightarrow> action_zero | a # _ \<Rightarrow> a)"
  from Cons.prems(4) obtain a as' where a: "decode_struct action_fields old j = Some a"
      "dec_elems (decode_struct action_fields) action_zero (tl olds) js = Some as'" "as = a # as'"
    by (auto simp: old_def split: option.splits)
  have "mdepth (Config old) < D" using Cons.prems(1,3) by (cases olds) (auto simp: old_def action_zero_def)
  then have "mdepth (Config a) < D" using decode_action_depth Cons.prems(2) a(1) by auto
  moreover have "\<forall>a\<in>set (tl olds). mdepth (Config a) < D" using Cons.prems(1) by (cases olds) auto
  ultimately show ?case using Cons.IH[OF _ _ Cons.prems(3) a(2)] Cons.prems(2) a(3) by auto
qed simp

definition shallow :: "nat \<Rightarrow> Workload \<Rightarrow> bool" where
  "shallow D wl \<longleftrightarrow> (\<forall>a\<in>set (WorkloadActions wl). mdepth (Config a) < D)"

lemma decode_workload_depth:
  "shallow D wl \<Longrightarrow> jdepth j \<le> Suc D \<Longrightarrow> decode_struct workload_fields wl j = Some wl' \<Longrightarrow> shallow D wl'"
proof (rule decode_struct_keeps_deep[where P = "shallow D" and D = D and fs = workload_fields and j = j and r = wl])
  fix t put r j r'
  assume put: "(t, put) \<in> set workload_fields" "shallow D r" "jdepth j \<le> D" "put r j = Some r'"
  then obtain as where as: "dec_list (decode_struct action_fields) action_zero (WorkloadActions r) j = Some as"
      "r' = r\<lparr>WorkloadActions := as\<rparr>" by (auto simp: workload_fields_def fld_def)
  show "shallow D r'"
  proof (cases "\<exists>js. j = JArr js")
    case True
    then obtain js where j: "j = JArr js" by blast
    with put(3) have "\<forall>j\<in>set js. jdepth j \<le> D" "0 < D" using jldepth_le[of js D] by auto
    with as j put(2) dec_elems_depth[of "WorkloadActions r" D js as] show ?thesis by (simp add: shallow_def)
  next
    case False
    with as show ?thesis by (cases j) (auto simp: shallow_def)
  qed
qed auto

lemma unlock_config_shallow:
  assumes "ParseConfig unlock_fields unlock_zero data = Ret c"
  shows "shallow (mdepth data) (unlock_Workload c)"
proof -
  obtain m2 kvs where m2: "Convert_mapS data = Ret m2" "Marshal_map m2 = Ret kvs"
      "decode_obj unlock_fields unlock_zero (sort_key fst kvs) = Some c"
    using assms by (auto simp: ParseConfig_def go_simps split: option.splits)
  have "jodepth kvs \<le> mdepth data" using Marshal_depth(3)[OF m2(2)] Convert_depth(2)[OF m2(1)] by simp
  then have d: "jodepth (sort_key fst kvs) \<le> mdepth data" unfolding jodepth_le by simp
  have z: "shallow (mdepth data) (unlock_Workload unlock_zero)" by (simp add: shallow_def unlock_zero_def workload_zero_def)
  show ?thesis
  proof (rule decode_obj_keeps_deep[where P = "\<lambda>c. shallow (mdepth data) (unlock_Workload c)", OF _ z d m2(3)])
    fix t put r j r'
    assume put: "(t, put) \<in> set unlock_fields" "shallow (mdepth data) (unlock_Workload r)" "jdepth j \<le> mdepth data" "put r j = Some r'"
    then consider "unlock_Workload r' = unlock_Workload r"
      | wl where "decode_struct workload_fields (unlock_Workload r) j = Some wl" "r' = r\<lparr>unlock_Workload := wl\<rparr>"
      by (auto simp: unlock_fields_def fld_def)
    then show "shallow (mdepth data) (unlock_Workload r')"
      using put decode_workload_depth[of "mdepth data" "unlock_Workload r" j] by cases auto
  qed
qed

section \<open>The nesting of a config is enough fuel\<close>

lemma table_with_lookup:
  "table_with pf f n = (if n = ''GlobalMutexUnlock'' then Some (Action (\<lambda>w cfg. GlobalMutexUnlock_Execute cfg w) f)
     else map_of (plain_actions pf) n)"
  by (simp add: table_with_def)

lemma verify_table_cong:
  "\<forall>a\<in>set as. f (Config a) = g (Config a) \<Longrightarrow> Workload_Verify_loop (table_with pf f) as = Workload_Verify_loop (table_with pf g) as"
  by (induction as) (auto simp: table_with_lookup split: option.split)

lemma unlock_step_cong:
  assumes "\<And>cfg. mdepth cfg < mdepth data \<Longrightarrow> f cfg = g cfg"
  shows "GlobalMutexUnlock_ParseConfig (table_with pf f) data = GlobalMutexUnlock_ParseConfig (table_with pf g) data"
proof (cases "ParseConfig unlock_fields unlock_zero data")
  case (Ret c)
  then have "\<forall>a\<in>set (WorkloadActions (unlock_Workload c)). f (Config a) = g (Config a)"
    using unlock_config_shallow assms by (simp add: shallow_def)
  with Ret show ?thesis by (simp add: GlobalMutexUnlock_ParseConfig_def Workload_Verify_def verify_table_cong)
qed (simp_all add: GlobalMutexUnlock_ParseConfig_def)

lemma unlock_parse_fuel:
  "mdepth data < n \<Longrightarrow> mdepth data < m \<Longrightarrow> unlock_parse n pf data = unlock_parse m pf data"
proof (induction n arbitrary: m data)
  case (Suc n)
  obtain m' where m: "m = Suc m'" using Suc.prems(2) by (cases m) auto
  show ?case
    unfolding m unlock_parse.simps
    by (rule unlock_step_cong, rule Suc.IH) (use Suc.prems m in simp_all)
qed simp

lemma unlock_parse_unfold:
  "unlock_parse (Suc (mdepth data)) pf data = GlobalMutexUnlock_ParseConfig (ACTIONS pf) data"
proof -
  have "unlock_parse (Suc (mdepth data)) pf data = GlobalMutexUnlock_ParseConfig (table_with pf (unlock_parse (mdepth data) pf)) data"
    by simp
  also have "\<dots> = GlobalMutexUnlock_ParseConfig (ACTIONS pf) data"
    unfolding ACTIONS_def by (rule unlock_step_cong, rule unlock_parse_fuel) simp_all
  finally show ?thesis .
qed

lemma Marshal_no_panic: "Marshal v \<noteq> Panic p" "Marshal_list vs \<noteq> Panic p" "Marshal_map x \<noteq> Panic p"
  by (induction v and vs and x rule: Marshal_Marshal_list_Marshal_map.induct) (auto simp: go_simps)

lemma ParseConfig_panic: "ParseConfig fs zero data = Panic p \<Longrightarrow> p = TypeAssertion"
  using Convert_panics(1)[of "GMapS data"] Convert_total(1)[of "GMapS data"] Marshal_no_panic(1)
  by (cases "string_keyed (GMapS data)") (auto simp: ParseConfig_def obind_eq_Panic simp del: Convert.simps Marshal.simps
      string_keyed.simps split: option.splits)

lemma plain_parse_no_block:
  assumes "map_of (plain_actions pf) n = Some a"
  shows "act_parse a cfg \<noteq> Panic Blocked"
proof -
  have e: "act_parse (entry ex fs zero) cfg \<noteq> Panic Blocked" for ex fs zero
    using ParseConfig_panic[of fs zero cfg Blocked] by (auto simp: entry_def parse_only_def go_simps)
  have "(n, a) \<in> set (plain_actions pf)" using assms by (rule map_of_SomeD)
  then show ?thesis unfolding plain_actions_def by (auto simp only: list.set insert_iff empty_iff prod.inject e)
qed

lemma unlock_parse_no_block: "mdepth data < n \<Longrightarrow> unlock_parse n pf data \<noteq> Panic Blocked"
proof (induction n arbitrary: data)
  case (Suc n)
  have loop: "Workload_Verify_loop (table_with pf (unlock_parse n pf)) as \<noteq> Panic Blocked"
    if "\<forall>a\<in>set as. mdepth (Config a) < mdepth data" for as
    using that
  proof (induction as)
    case (Cons a as)
    then have "unlock_parse n pf (Config a) \<noteq> Panic Blocked" using Suc by simp
    with Cons plain_parse_no_block show ?case
      by (auto simp: table_with_lookup obind_eq_Panic split: option.split)
  qed simp
  show ?case
    using ParseConfig_panic[of unlock_fields unlock_zero data Blocked] unlock_config_shallow[of data] loop
    by (auto simp: GlobalMutexUnlock_ParseConfig_def Workload_Verify_def obind_eq_Panic shallow_def)
qed simp

section \<open>Executing what was verified\<close>

definition sound_action :: "process action \<Rightarrow> bool" where
  "sound_action a \<longleftrightarrow> (\<forall>cfg w. act_parse a cfg = Ret () \<longrightarrow> honest w \<longrightarrow>
     honest (fst (act_execute a w cfg)) \<and> \<not> config_failure (snd (act_execute a w cfg)))"

lemma sound_entry: "(\<And>cfg. parse_only fs zero cfg = Ret () \<Longrightarrow> clean (exec cfg)) \<Longrightarrow> sound_action (entry exec fs zero)"
  by (simp add: sound_action_def entry_def clean_def config_failure_def)

lemmas clean_actions = Print_clean Burn_clean Sleep_clean Fibonacci_clean Panic_clean HTTPResponse_clean AllocateMemory_clean
  CreateFile_clean RandomIO_clean HTTPGetRequest_clean HTTPRequest_clean Lock_clean MysqlQuery_clean PostgresqlQuery_clean
  RedisCommand_clean SnowflakeQuery_clean ElasticInsert_clean ElasticQuery_clean MongoDBQuery_clean

lemma plain_all_sound: "\<forall>na\<in>set (plain_actions pf). fst na = ''Script'' \<or> sound_action (snd na)"
  unfolding plain_actions_def by (simp add: sound_entry clean_actions)

lemma plain_sound: "map_of (plain_actions pf) n = Some a \<Longrightarrow> n \<noteq> ''Script'' \<Longrightarrow> sound_action a"
  using plain_all_sound[of pf] by (auto dest!: map_of_SomeD)

text \<open>
  A script reports what its own calls fail with, so it can fail with the error of a bad config;
  the contract is that of all other actions.
\<close>

definition checked_actions :: "platform \<Rightarrow> process registry" where
  "checked_actions pf n = (if n = ''Script'' then None else ACTIONS pf n)"

lemma honest_emit [simp]: "honest (req_emit l msg w) \<longleftrightarrow> honest w"
  by (simp add: honest_def req_emit_def)

lemma unlock_sound: "sound_action (Action (\<lambda>w cfg. GlobalMutexUnlock_Execute cfg w) (\<lambda>data. unlock_parse (Suc (mdepth data)) pf data))"
proof -
  have "parse_only unlock_fields unlock_zero cfg = Ret ()" if "unlock_parse (Suc (mdepth cfg)) pf cfg = Ret ()" for cfg
    using that unfolding unlock_parse_unfold by (auto simp: GlobalMutexUnlock_ParseConfig_def parse_only_def obind_eq_Ret)
  then show ?thesis
    using Unlock_clean unfolding sound_action_def by (simp add: clean_def config_failure_def del: unlock_parse.simps)
qed

lemma checked_sound: "checked_actions pf n = Some a \<Longrightarrow> sound_action a"
  using plain_sound unlock_sound by (auto simp: checked_actions_def ACTIONS_def table_with_lookup split: if_splits)

interpretation checked: action_contract "checked_actions pf" honest
proof (unfold_locales, goal_cases)
  case (2 n a cfg w)
  then show ?case using checked_sound unfolding sound_action_def by blast
qed simp

lemma verify_without_script:
  assumes "\<forall>a\<in>set as. Name a \<noteq> ''Script''"
  shows "Workload_Verify_loop (checked_actions pf) as = Workload_Verify_loop (ACTIONS pf) as"
    and "Workload_Execute_loop (checked_actions pf) w as = Workload_Execute_loop (ACTIONS pf) w as"
proof -
  show "Workload_Verify_loop (checked_actions pf) as = Workload_Verify_loop (ACTIONS pf) as"
    using assms by (induction as) (auto simp: checked_actions_def split: option.split)
  show "Workload_Execute_loop (checked_actions pf) w as = Workload_Execute_loop (ACTIONS pf) w as"
    using assms
  proof (induction as arbitrary: w)
    case (Cons a as)
    then show ?case
      by (auto simp: checked_actions_def Let_def split: option.split outcome.split prod.split)
  qed simp
qed

section \<open>Properties\<close>

text \<open>
  C4. When a server accepts a workload without scripts, executing it never ends with the error of a
  config that does not encode or does not decode into the fields of its action,
  in whatever state of the process and whatever the libraries answer, as long as they do not
  themselves report an error of \<^verbatim>\<open>encoding/json\<close>. What a config
  that decodes says may still make its action fail, a block size of zero for one: verification
  does not look at the values.
\<close>

theorem verified_workload_keeps_its_configs:
  assumes "Workload_Verify (ACTIONS pf) wl = Ret ()" "\<forall>a\<in>set (WorkloadActions wl). Name a \<noteq> ''Script''"
    and "honest w"
  shows "snd (Workload_Execute (ACTIONS pf) w wl) \<noteq> Err unmarshal_error
    \<and> snd (Workload_Execute (ACTIONS pf) w wl) \<noteq> Err marshal_error"
proof -
  have "Workload_Verify (checked_actions pf) wl = Ret ()"
    using assms(1) verify_without_script(1)[OF assms(2)] by (simp add: Workload_Verify_def)
  then have "\<not> config_failure (snd (Workload_Execute (checked_actions pf) w wl))"
    by (rule checked.verified_workload_runs[OF _ assms(3)])
  then show ?thesis
    using verify_without_script(2)[OF assms(2)] by (simp add: Workload_Execute_def config_failure_def)
qed

definition demo_platform :: platform where
  "demo_platform = \<lparr>pf_oor = (\<lambda>_. 0), pf_json = (\<lambda>_. None), pf_engine = (\<lambda>_. NoRun), pf_options = (\<lambda>_. None), pf_range = (\<lambda>m. m)\<rparr>"

definition demo_workload :: Workload where
  "demo_workload = \<lparr>WorkloadActions = [\<lparr>Name = ''Print'', Config = [(''message'', GStr ''hi'')]\<rparr>,
     \<lparr>Name = ''GlobalMutexUnlock'', Config = [(''id'', GStr ''a''),
        (''workload'', GMapS [(''actions'', GList [GMapS [(''name'', GStr ''Print''), (''config'', GMapS [])]])])]\<rparr>]\<rparr>"

lemma demo_workload_verifies: "Workload_Verify (ACTIONS demo_platform) demo_workload = Ret ()"
  by (simp add: Workload_Verify_def demo_workload_def ACTIONS_def table_with_lookup plain_actions_def entry_def parse_only_def
    GlobalMutexUnlock_ParseConfig_def parse_eval print_fields_def print_zero_def unlock_fields_def unlock_zero_def workload_fields_def
    workload_zero_def action_fields_def action_zero_def eval_nat_numeral)

theorem verified_workload_keeps_its_configs_witness:
  "snd (Workload_Execute (ACTIONS demo_platform) idle_process demo_workload) \<noteq> Err unmarshal_error"
  using verified_workload_keeps_its_configs[OF demo_workload_verifies _ honest_idle] by (simp add: demo_workload_def)

text \<open>
  C15. Verifying a workload nested in the configs of \<^verbatim>\<open>GlobalMutexUnlock\<close>, to any depth, terminates:
  the entry of the table satisfies the recursive definition of the code, any fuel above the nesting
  of the config gives the same answer, and it is never the one of running out of fuel.
\<close>

theorem nested_verification_terminates:
  "\<exists>a. ACTIONS pf ''GlobalMutexUnlock'' = Some a
    \<and> (\<forall>data. act_parse a data = GlobalMutexUnlock_ParseConfig (ACTIONS pf) data
        \<and> (\<forall>n. unlock_parse (Suc (mdepth data + n)) pf data = act_parse a data) \<and> act_parse a data \<noteq> Panic Blocked)"
proof (intro exI conjI allI)
  let ?a = "Action (\<lambda>w cfg. GlobalMutexUnlock_Execute cfg w) (\<lambda>data. unlock_parse (Suc (mdepth data)) pf data)"
  show "ACTIONS pf ''GlobalMutexUnlock'' = Some ?a" by (simp add: ACTIONS_def table_with_lookup del: unlock_parse.simps)
  show "act_parse ?a data = GlobalMutexUnlock_ParseConfig (ACTIONS pf) data" for data by (simp only: action.sel unlock_parse_unfold)
  show "unlock_parse (Suc (mdepth data + n)) pf data = act_parse ?a data" for data n
    unfolding action.sel by (rule unlock_parse_fuel) simp_all
  show "act_parse ?a data \<noteq> Panic Blocked" for data unfolding action.sel by (rule unlock_parse_no_block) simp
qed

section \<open>Scripts that a message starts\<close>

text \<open>\<^verbatim>\<open>ACTIONS["Script"].Execute\<close>, and the config the consumers build for it.\<close>

definition execute_script :: "platform \<Rightarrow> gmap \<Rightarrow> unit prog" where
  "execute_script pf cfg w =
     (case ACTIONS pf ''Script'' of None \<Rightarrow> (w, Panic NilDereference) | Some a \<Rightarrow> act_execute a w cfg)"

definition enc_script :: "ScriptConfig \<Rightarrow> json outcome" where
  "enc_script c = Ret (JObj [(''script'', JStr (cfg_Script c)), (''message'', JStr (cfg_Message c))])"

lemma execute_script_eq: "execute_script pf cfg = Script_Execute (pf_oor pf) (pf_json pf) (pf_engine pf) cfg"
  by (rule ext) (simp add: execute_script_def ACTIONS_def table_with_lookup plain_actions_def entry_def del: unlock_parse.simps)

lemma script_to_map:
  "\<exists>m. ConfigToMap enc_script c = Ret m \<and> ParseConfig script_fields script_zero m = Ret c"
  by (cases c) (simp add: ConfigToMap_def enc_script_def parse_eval script_fields_def script_zero_def)

lemma script_map_parses: "ConfigToMap enc_script c = Ret m \<Longrightarrow> ParseConfig script_fields script_zero m = Ret c"
  using script_to_map[of c] by auto

lemma script_to_map_no_Err: "ConfigToMap enc_script c \<noteq> Err e"
  using script_to_map[of c] by auto

end
