(* ===== verification/Delivery.thy ===== *)
theory Delivery
  imports Spans
begin

text \<open>
  Loops over the messages of a channel, as the consumers of Kafka and RabbitMQ run them, and the
  contract between such a loop and a handler that acknowledges each message when it is done.
\<close>

section \<open>The loop\<close>

text \<open>
  Receiving is a call that blocks until there is a message or none will come; \<open>dec\<close> reads its answer,
  \<open>None\<close> being a closed channel or the end of the context.
\<close>

definition receive :: "string \<Rightarrow> gval list \<Rightarrow> (gval \<Rightarrow> 'm option) \<Rightarrow> 'm option prog" where
  "receive f args dec = sbind (lib0 f args) (\<lambda>v. sret (dec v))"

definition receive_pass :: "'m option prog \<Rightarrow> ('m \<Rightarrow> unit prog) \<Rightarrow> process \<Rightarrow> (process, process \<times> unit outcome) ctl" where
  "receive_pass recv handle w =
     (case recv w of
        (w1, Ret None) \<Rightarrow> Stop (w1, Ret ())
      | (w1, Ret (Some m)) \<Rightarrow>
          (case handle m w1 of
             (w2, Ret _) \<Rightarrow> Continue w2
           | (w2, Err e) \<Rightarrow> Stop (w2, Err e)
           | (w2, Panic p) \<Rightarrow> Stop (w2, Panic p))
      | (w1, Err e) \<Rightarrow> Stop (w1, Err e)
      | (w1, Panic p) \<Rightarrow> Stop (w1, Panic p))"

definition receive_loop :: "'m option prog \<Rightarrow> ('m \<Rightarrow> unit prog) \<Rightarrow> unit prog" where
  "receive_loop recv handle w = (case loop (receive_pass recv handle) w of None \<Rightarrow> (w, Panic Blocked) | Some r \<Rightarrow> r)"

text \<open>The messages the calls \<open>cs\<close>, from number \<open>n\<close> on, were answered with.\<close>

definition answered :: "(gval \<Rightarrow> 'm option) \<Rightarrow> gval outcome \<Rightarrow> 'm list" where
  "answered dec a = (case a of Ret v \<Rightarrow> (case dec v of None \<Rightarrow> [] | Some m \<Rightarrow> [m]) | _ \<Rightarrow> [])"

fun taken :: "string \<Rightarrow> (gval \<Rightarrow> 'm option) \<Rightarrow> (nat \<Rightarrow> gval outcome) \<Rightarrow> nat \<Rightarrow> call list \<Rightarrow> 'm list" where
  "taken f dec A n [] = []"
| "taken f dec A n (c # cs) = (if fst c = f then answered dec (A n) else []) @ taken f dec A (Suc n) cs"

lemma taken_append [simp]: "taken f dec A n (xs @ ys) = taken f dec A n xs @ taken f dec A (n + length xs) ys"
  by (induction xs arbitrary: n) auto

lemma taken_none [simp]: "\<forall>c\<in>set cs. fst c \<noteq> f \<Longrightarrow> taken f dec A n cs = []"
  by (induction cs arbitrary: n) auto

text \<open>A loop whose body never fails ends without an error, or not at all.\<close>

lemma receive_no_Err [simp]: "receive f args dec w \<noteq> (w', Err e)"
  by (auto simp: receive_def prog_defs split: outcome.splits)

lemma receive_loop_never_fails:
  assumes "\<And>m w w' e. handle m w \<noteq> (w', Err e)"
  shows "snd (receive_loop (receive f args dec) handle w) \<noteq> Err e"
proof (cases "loop (receive_pass (receive f args dec) handle) w")
  case (Some r)
  have "snd r \<noteq> Err e"
    by (rule loop_keeps[where P = "\<lambda>_. True" and Q = "\<lambda>r. snd r \<noteq> Err e", OF Some])
      (use assms in \<open>auto simp: receive_pass_def split: prod.splits outcome.splits option.splits\<close>)
  with Some show ?thesis by (simp add: receive_loop_def)
qed (simp add: receive_loop_def)

lemma calls_receive [calls_rules]: "P (f, args) \<Longrightarrow> calls_only P (receive f args dec)"
  unfolding receive_def by (intro calls_rules)

text \<open>Loops whose passes end the spans they start.\<close>

definition closes_since :: "process \<Rightarrow> process \<Rightarrow> bool" where
  "closes_since w v \<longleftrightarrow> (\<exists>cs. pr_calls v = pr_calls w @ cs \<and> all_end (length (pr_calls w)) cs)"

lemma closes_since_refl [simp]: "closes_since w w"
  by (simp add: closes_since_def)

lemma closes_spans_since: "closes_spans m \<longleftrightarrow> (\<forall>w. no_return (snd (m w)) \<or> closes_since w (fst (m w)))"
  by (simp add: closes_spans_def closes_since_def)

lemma closes_sinceI: "closes_spans m \<Longrightarrow> closes_since w v \<Longrightarrow> m v = (v', r) \<Longrightarrow> no_return r \<or> closes_since w v'"
  using closes_then unfolding closes_since_def by (metis fst_conv snd_conv)

definition closed_outcome :: "process \<Rightarrow> process \<times> 'a outcome \<Rightarrow> bool" where
  "closed_outcome w vr \<longleftrightarrow> no_return (snd vr) \<or> closes_since w (fst vr)"

lemma closed_outcome_simps [simp]: "closed_outcome w (v, Ret x) = closes_since w v" "closed_outcome w (v, Err e) = closes_since w v"
  "closed_outcome w (v, Panic p) = (p = FatalUnlock \<or> p = Blocked \<or> closes_since w v)"
  by (auto simp: closed_outcome_def)

lemma closes_loop:
  fixes body :: "process \<Rightarrow> (process, process \<times> 'a outcome) ctl"
  assumes "loop body w = Some vr"
    and "\<And>v. closes_since w v \<Longrightarrow> (case body v of Continue v' \<Rightarrow> closes_since w v' | Stop r \<Rightarrow> closed_outcome w r)"
  shows "closed_outcome w vr"
  by (rule loop_keeps[where P = "closes_since w" and Q = "closed_outcome w", OF assms(1) closes_since_refl]) (rule assms(2))

lemma closes_receive_loop [span_rules]:
  assumes "closes_spans recv" "\<And>m. closes_spans (handle m)"
  shows "closes_spans (receive_loop recv handle)"
  unfolding closes_spans_since
proof
  fix w
  show "no_return (snd (receive_loop recv handle w)) \<or> closes_since w (fst (receive_loop recv handle w))"
  proof (cases "loop (receive_pass recv handle) w")
    case (Some r)
    have "case receive_pass recv handle v of Continue v' \<Rightarrow> closes_since w v' | Stop r \<Rightarrow> closed_outcome w r"
      if c: "closes_since w v" for v
    proof -
      obtain v1 r1 where r: "recv v = (v1, r1)" by fastforce
      note c1 = closes_sinceI[OF assms(1) c r]
      show ?thesis
      proof (cases "\<exists>m. r1 = Ret (Some m)")
        case True
        then obtain m where m: "r1 = Ret (Some m)" by blast
        obtain v2 r2 where h: "handle m v1 = (v2, r2)" by fastforce
        have "closes_since w v1" using c1 m by simp
        with assms(2) have "no_return r2 \<or> closes_since w v2" using h by (rule closes_sinceI)
        then show ?thesis using r m h by (auto simp: receive_pass_def split: outcome.split)
      qed (use r c1 in \<open>auto simp: receive_pass_def split: outcome.split option.split\<close>)
    qed
    with closes_loop[OF Some] Some show ?thesis by (simp add: receive_loop_def closed_outcome_def)
  qed (simp add: receive_loop_def)
qed

section \<open>Handlers that acknowledge\<close>

text \<open>
  The handler of a message either finishes and acknowledges the message last of all, or panics
  without an acknowledgement; it takes no message itself.
\<close>

locale acknowledging_handler =
  fixes recv :: string and dec :: "gval \<Rightarrow> 'm option"
    and handle :: "'m \<Rightarrow> unit prog" and ack :: string and ack_args :: "'m \<Rightarrow> gval list"
  assumes nil_is_none: "dec GNil = None"
    and separate: "recv \<noteq> ack"
    and handle_done: "handle m w = (w', Ret ()) \<Longrightarrow> pr_answers w' = pr_answers w
      \<and> (\<exists>cs. pr_calls w' = pr_calls w @ cs @ [(ack, ack_args m)] \<and> (\<forall>c\<in>set cs. fst c \<noteq> recv \<and> fst c \<noteq> ack))"
    and handle_aborted: "handle m w = (w', Panic p) \<Longrightarrow>
      \<exists>cs. pr_calls w' = pr_calls w @ cs \<and> (\<forall>c\<in>set cs. fst c \<noteq> recv \<and> fst c \<noteq> ack)"
    and handle_no_Err: "handle m w \<noteq> (w', Err e)"
begin

definition acks :: "call list \<Rightarrow> call list" where
  "acks cs = filter (\<lambda>c. fst c = ack) cs"

definition ack_calls :: "'m list \<Rightarrow> call list" where
  "ack_calls ms = map (\<lambda>m. (ack, ack_args m)) ms"

lemma acks_simps [simp]: "acks (xs @ ys) = acks xs @ acks ys" "acks [] = []" "acks [(ack, as)] = [(ack, as)]"
  "\<forall>c\<in>set cs. fst c \<noteq> recv \<and> fst c \<noteq> ack \<Longrightarrow> acks cs = []"
  by (auto simp: acks_def filter_empty_conv)

lemma receive_step:
  assumes "receive recv args dec w = (w1, r)"
  shows "pr_answers w1 = pr_answers w \<and> pr_calls w1 = pr_calls w @ [(recv, args)]
    \<and> (\<forall>m. r = Ret m \<longrightarrow> answered dec (pr_answers w (length (pr_calls w))) = (case m of None \<Rightarrow> [] | Some m \<Rightarrow> [m]))
    \<and> ((\<exists>p. r = Panic p) \<longrightarrow> answered dec (pr_answers w (length (pr_calls w))) = [])"
  using assms nil_is_none
  by (auto simp: receive_def prog_defs answered_def split: outcome.splits option.splits)

lemma acks_recv [simp]: "acks ((recv, args) # cs) = acks cs"
  using separate by (simp add: acks_def)

text \<open>What holds between two passes, and when the loop is left.\<close>

definition all_acked :: "process \<Rightarrow> process \<Rightarrow> bool" where
  "all_acked w v \<longleftrightarrow> pr_answers v = pr_answers w
     \<and> (\<exists>cs. pr_calls v = pr_calls w @ cs \<and> acks cs = ack_calls (taken recv dec (pr_answers w) (length (pr_calls w)) cs))"

definition acked_but_last :: "process \<Rightarrow> process \<times> unit outcome \<Rightarrow> bool" where
  "acked_but_last w vr \<longleftrightarrow> (\<exists>cs k. pr_calls (fst vr) = pr_calls w @ cs
     \<and> acks cs = ack_calls (take k (taken recv dec (pr_answers w) (length (pr_calls w)) cs))
     \<and> length (taken recv dec (pr_answers w) (length (pr_calls w)) cs) \<le> Suc k
     \<and> (snd vr = Ret () \<longrightarrow> k = length (taken recv dec (pr_answers w) (length (pr_calls w)) cs)))"

lemma acked_all: "all_acked w v \<Longrightarrow> acked_but_last w (v, r)"
  unfolding all_acked_def acked_but_last_def
  by (elim conjE exE, rule_tac x = cs in exI, rule_tac x = "length (taken recv dec (pr_answers w) (length (pr_calls w)) cs)" in exI) simp

lemma took_none:
  assumes "all_acked w v" "receive recv args dec v = (v1, r)" "r = Ret None \<or> (\<exists>p. r = Panic p)"
  shows "all_acked w v1"
proof -
  obtain cs where cs: "pr_answers v = pr_answers w" "pr_calls v = pr_calls w @ cs"
    "acks cs = ack_calls (taken recv dec (pr_answers w) (length (pr_calls w)) cs)"
    using assms(1) unfolding all_acked_def by blast
  note s = receive_step[OF assms(2), unfolded cs(1,2)]
  have "answered dec (pr_answers w (length (pr_calls w) + length cs)) = []" using s assms(3) by auto
  then show ?thesis unfolding all_acked_def using s cs(3) by (intro conjI exI[of _ "cs @ [(recv, args)]"]) simp_all
qed

text \<open>The state in which the handler starts on a message: all but this one are acknowledged.\<close>

lemma took_message:
  assumes "all_acked w v" "receive recv args dec v = (v1, Ret (Some m))"
  obtains cs where "pr_answers v1 = pr_answers w" "pr_calls v1 = pr_calls w @ cs"
    "acks cs = ack_calls (butlast (taken recv dec (pr_answers w) (length (pr_calls w)) cs))"
    "taken recv dec (pr_answers w) (length (pr_calls w)) cs = butlast (taken recv dec (pr_answers w) (length (pr_calls w)) cs) @ [m]"
proof -
  obtain cs where cs: "pr_answers v = pr_answers w" "pr_calls v = pr_calls w @ cs"
    "acks cs = ack_calls (taken recv dec (pr_answers w) (length (pr_calls w)) cs)"
    using assms(1) unfolding all_acked_def by blast
  note s = receive_step[OF assms(2), unfolded cs(1,2)]
  have "answered dec (pr_answers w (length (pr_calls w) + length cs)) = [m]" using s by simp
  then show ?thesis using that[of "cs @ [(recv, args)]"] s cs(3) by simp
qed

lemma acked_message:
  assumes "all_acked w v" "receive recv args dec v = (v1, Ret (Some m))" "handle m v1 = (v2, Ret u)"
  shows "all_acked w v2"
proof -
  obtain cs where cs: "pr_answers v1 = pr_answers w" "pr_calls v1 = pr_calls w @ cs"
    "acks cs = ack_calls (butlast (taken recv dec (pr_answers w) (length (pr_calls w)) cs))"
    "taken recv dec (pr_answers w) (length (pr_calls w)) cs = butlast (taken recv dec (pr_answers w) (length (pr_calls w)) cs) @ [m]"
    using assms(1,2) by (rule took_message)
  have "handle m v1 = (v2, Ret ())" using assms(3) by simp
  then obtain cs2 where d: "pr_answers v2 = pr_answers v1" "pr_calls v2 = pr_calls v1 @ cs2 @ [(ack, ack_args m)]"
    "\<forall>c\<in>set cs2. fst c \<noteq> recv \<and> fst c \<noteq> ack" using handle_done by blast
  have "acks (cs @ cs2 @ [(ack, ack_args m)]) = ack_calls (butlast (taken recv dec (pr_answers w) (length (pr_calls w)) cs) @ [m])"
    using cs(3) d(3) by (simp add: ack_calls_def)
  then show ?thesis
    unfolding all_acked_def cs(4)[symmetric] using cs(1,2) d separate
    by (intro conjI exI[of _ "cs @ cs2 @ [(ack, ack_args m)]"]) simp_all
qed

lemma aborted_message:
  assumes "all_acked w v" "receive recv args dec v = (v1, Ret (Some m))" "handle m v1 = (v2, Panic p)"
  shows "acked_but_last w (v2, Panic p)"
proof -
  obtain cs where cs: "pr_calls v1 = pr_calls w @ cs"
    "acks cs = ack_calls (butlast (taken recv dec (pr_answers w) (length (pr_calls w)) cs))"
    using assms(1,2) by (rule took_message)
  obtain cs2 where d: "pr_calls v2 = pr_calls v1 @ cs2" "\<forall>c\<in>set cs2. fst c \<noteq> recv \<and> fst c \<noteq> ack"
    using handle_aborted[OF assms(3)] by blast
  then show ?thesis
    unfolding acked_but_last_def using cs
    by (intro exI[of _ "cs @ cs2"] exI[of _ "length (taken recv dec (pr_answers w) (length (pr_calls w)) cs) - 1"]) (simp add: butlast_conv_take)
qed

text \<open>
  All messages taken are acknowledged in order; only a panic can leave out the last one.
\<close>

lemma loop_acknowledges: "acked_but_last w (receive_loop (receive recv args dec) handle w)"
proof (cases "loop (receive_pass (receive recv args dec) handle) w")
  case None
  then show ?thesis by (auto simp: acked_but_last_def receive_loop_def ack_calls_def intro!: exI[of _ "[]"])
next
  case (Some wr)
  have step: "case receive_pass (receive recv args dec) handle v of Continue v' \<Rightarrow> all_acked w v' | Stop vr \<Rightarrow> acked_but_last w vr"
    if inv: "all_acked w v" for v
  proof -
    obtain v1 r where r: "receive recv args dec v = (v1, r)" by fastforce
    show ?thesis
    proof (cases r)
      case (Ret mo)
      show ?thesis
      proof (cases mo)
        case None
        then show ?thesis using r Ret took_none[OF inv] by (auto simp: receive_pass_def intro: acked_all)
      next
        case (Some m)
        obtain v2 r2 where h: "handle m v1 = (v2, r2)" by fastforce
        then show ?thesis
          using r Ret Some handle_no_Err acked_message[OF inv] aborted_message[OF inv]
          by (cases r2) (auto simp: receive_pass_def)
      qed
    qed (use r took_none[OF inv] in \<open>auto simp: receive_pass_def intro: acked_all\<close>)
  qed
  have "all_acked w w" by (auto simp: all_acked_def ack_calls_def)
  then have "acked_but_last w wr" by (rule loop_keeps[where P = "all_acked w", OF Some]) (rule step)
  then show ?thesis using Some by (simp add: receive_loop_def)
qed

end

end
