(* ===== verification/KafkaConsumer.thy ===== *)
theory KafkaConsumer
  imports Actions Delivery
begin

text \<open>
  The background service \<^verbatim>\<open>kafka-consumer\<close> (\<^verbatim>\<open>pkg/actions/kafka_consumer_service.go\<close>): it joins a
  consumer group and runs its script on every message of the claims it is given. The group is a
  parameter that calls the three methods of the handler.
\<close>

section \<open>Config\<close>

record KafkaConsumerServiceConfig = KafkaServiceConfig +
  kc_Topic :: string
  kc_Script :: string
  kc_Group :: string

definition kafka_consumer_fields :: "KafkaConsumerServiceConfig fields" where
  "kafka_consumer_fields = kafka_fields @
     [(''topic'', fld dec_string kc_Topic (\<lambda>v r. r\<lparr>kc_Topic := v\<rparr>)),
      (''script'', fld dec_string kc_Script (\<lambda>v r. r\<lparr>kc_Script := v\<rparr>)),
      (''group'', fld dec_string kc_Group (\<lambda>v r. r\<lparr>kc_Group := v\<rparr>))]"

definition kafka_consumer_zero :: KafkaConsumerServiceConfig where
  "kafka_consumer_zero = KafkaServiceConfig.extend kafka_zero \<lparr>kc_Topic = [], kc_Script = [], kc_Group = []\<rparr>"

record KafkaConsumerService =
  kn_name :: string
  kn_config :: KafkaConsumerServiceConfig
  kn_cfg :: sarama_config

section \<open>Messages\<close>

record ConsumerMessage =
  cm_Topic :: string
  cm_Key :: string
  cm_Value :: string
  cm_Headers :: "(string \<times> string) list"
  cm_Partition :: int
  cm_Offset :: int

definition message_of :: "gval \<Rightarrow> ConsumerMessage" where
  "message_of v = \<lparr>cm_Topic = as_string (gfield ''Topic'' v), cm_Key = as_string (gfield ''Key'' v), cm_Value = as_string (gfield ''Value'' v),
     cm_Headers = carried (gfield ''Headers'' v), cm_Partition = as_int (gfield ''Partition'' v), cm_Offset = as_int (gfield ''Offset'' v)\<rparr>"

definition consumer_message_arg :: "ConsumerMessage \<Rightarrow> gval" where
  "consumer_message_arg m = GMapS [(''Topic'', GStr (cm_Topic m)), (''Key'', GStr (cm_Key m)), (''Value'', GStr (cm_Value m)),
     (''Headers'', headers_arg (cm_Headers m)), (''Partition'', GInt (cm_Partition m)), (''Offset'', GInt (cm_Offset m))]"

definition getConsumerMsgSize :: "ConsumerMessage \<Rightarrow> int" where
  "getConsumerMsgSize msg =
     (let sz = add_headers 0 (cm_Headers msg)
      in i64 (sz + i64 (int (length (cm_Value msg) + length (cm_Key msg)))))"

definition consume_edges :: "string \<Rightarrow> ConsumerMessage \<Rightarrow> gval list" where
  "consume_edges groupID msg =
     (let edges = [GStr ''direction:in'', GStr (''topic:'' @ cm_Topic msg), GStr ''type:kafka'']
      in if groupID \<noteq> [] then edges @ [GStr (''group:'' @ groupID)] else edges)"

text \<open>The message of \<^verbatim>\<open>setConsumeCheckpoint\<close> is a pointer, \<open>None\<close> when it is nil.\<close>

definition setConsumeCheckpoint :: "bool \<Rightarrow> string \<Rightarrow> ConsumerMessage option \<Rightarrow> unit prog" where
  "setConsumeCheckpoint enabled groupID msgp =
     (case msgp of
        None \<Rightarrow> sret ()
      | Some msg \<Rightarrow>
          if \<not> enabled then sret ()
          else
            sbind (lib0 ''datastreams.ExtractFromBase64Carrier'' [headers_arg (cm_Headers msg)]) (\<lambda>ctx.
            sbind (lib0 ''tracer.SetDataStreamsCheckpointWithParams''
               [ctx, GInt (getConsumerMsgSize msg), GList (consume_edges groupID msg)]) (\<lambda>ok.
              if \<not> as_bool ok then sret ()
              else
                sbind (lib0 ''datastreams.InjectToBase64Carrier'' [headers_arg (cm_Headers msg)]) (\<lambda>_.
                  if groupID \<noteq> [] then
                    trace_call ''tracer.TrackKafkaCommitOffset'' [GStr groupID, GStr (cm_Topic msg), GInt (cm_Partition msg), GInt (cm_Offset msg)]
                  else sret ()))))"

section \<open>Handling a message\<close>

definition message_script :: "KafkaConsumerService \<Rightarrow> ConsumerMessage \<Rightarrow> ScriptConfig" where
  "message_script s message = \<lparr>cfg_Script = kc_Script (kn_config s), cfg_Message = cm_Value message\<rparr>"

text \<open>The script under Datadog: \<^verbatim>\<open>span.Finish(tracer.WithError(err)); return err\<close>.\<close>

definition finish_with :: "span \<Rightarrow> unit prog \<Rightarrow> unit prog" where
  "finish_with span0 m =
     sbind (on_err m (\<lambda>e. sbind (Span_Finish_error span0 e) (\<lambda>_. lift_out (Err e)))) (\<lambda>_. Span_Finish span0)"

definition kafka_ddHandleMessage :: "platform \<Rightarrow> KafkaConsumerService \<Rightarrow> ConsumerMessage \<Rightarrow> unit prog" where
  "kafka_ddHandleMessage pf s message =
     with_span (start_span ''tracer.StartSpan'' [GStr ''process_message'']) (\<lambda>span. Span_Finish span) (\<lambda>span.
     sbind (start_span ''tracer.StartSpan'' [GStr ''kafka.consume'', GStr (''Consume Topic '' @ kc_Topic (kn_config s)),
        GInt (cm_Partition message), GInt (cm_Offset message), GStr (kc_Topic (kn_config s)), GStr (kc_Group (kn_config s)),
        GStr (kc_PeerService (kn_config s))]) (\<lambda>child.
     sbind (Span_Finish child) (\<lambda>_.
     sbind (setConsumeCheckpoint True (kc_Group (kn_config s)) (Some message)) (\<lambda>_.
     sbind (lift_out (ConfigToMap enc_script (message_script s message))) (\<lambda>c.
     finish_with span (execute_script pf c))))))"

definition kafka_otelHandleMessage :: "platform \<Rightarrow> KafkaConsumerService \<Rightarrow> ConsumerMessage \<Rightarrow> unit prog" where
  "kafka_otelHandleMessage pf s message =
     with_span (start_span ''Tracer.Start'' [GStr ''kafka-consumer'', GStr (''Consume Topic '' @ kc_Topic (kn_config s)), GStr ''consumer''])
       (\<lambda>span. Span_End span) (\<lambda>span.
     sbind (Span_SetAttribute span ''messaging.kafka.destination.partition'' (GInt (cm_Partition message))) (\<lambda>_.
     sbind (Span_SetAttribute span ''messaging.kafka.message.offset'' (GInt (cm_Offset message))) (\<lambda>_.
     sbind (Span_SetAttribute span ''messaging.destination.name'' (GStr (kc_Topic (kn_config s)))) (\<lambda>_.
     sbind (Span_SetAttribute span ''messaging.kafka.consumer.group'' (GStr (kc_Group (kn_config s)))) (\<lambda>_.
     sbind (Span_SetAttribute span ''messaging.system'' (GStr ''kafka'')) (\<lambda>_.
     sbind (Span_SetAttribute span ''peer.service'' (GStr (kc_PeerService (kn_config s)))) (\<lambda>_.
     sbind (Span_SetAttribute span ''peer.namespace'' (GStr (kc_PeerNamespace (kn_config s)))) (\<lambda>_.
     sbind (lift_out (ConfigToMap enc_script (message_script s message))) (\<lambda>c.
     sbind (on_err (execute_script pf c) (\<lambda>e. sbind (Span_error span e) (\<lambda>_. lift_out (Err e)))) (\<lambda>_.
     Span_ok span ''message received''))))))))))"

definition kafka_handleMessage :: "platform \<Rightarrow> KafkaConsumerService \<Rightarrow> ConsumerMessage \<Rightarrow> unit prog" where
  "kafka_handleMessage pf s message =
     sbind (env pr_env) (\<lambda>getenv.
       if IsDatadogEnabled getenv then kafka_ddHandleMessage pf s message else kafka_otelHandleMessage pf s message)"

section \<open>The handler of a consumer group\<close>

definition Kafka_Setup :: "gval \<Rightarrow> unit prog" where
  "Kafka_Setup session = sret ()"

definition Kafka_Cleanup :: "gval \<Rightarrow> unit prog" where
  "Kafka_Cleanup session = sret ()"

text \<open>
  The \<^verbatim>\<open>select\<close> over the messages of the claim and the end of the session: a message, or nothing more,
  because the channel is closed or the session is over. Both end the claim without an error.
\<close>

fun selected :: "gval \<Rightarrow> ConsumerMessage option" where
  "selected (GMapS m) = Some (message_of (GMapS m))"
| "selected _ = None"

text \<open>A message that cannot be handled is logged, and marked like any other.\<close>

definition consume_message :: "platform \<Rightarrow> KafkaConsumerService \<Rightarrow> gval \<Rightarrow> ConsumerMessage \<Rightarrow> unit prog" where
  "consume_message pf s session message =
     sbind (on_err (kafka_handleMessage pf s message) (\<lambda>e. say Warn ''failed to handle message'')) (\<lambda>_.
     trace_call ''Session.MarkMessage'' [session, consumer_message_arg message])"

definition ConsumeClaim :: "platform \<Rightarrow> KafkaConsumerService \<Rightarrow> gval \<Rightarrow> gval \<Rightarrow> unit prog" where
  "ConsumeClaim pf s session claim =
     receive_loop (receive ''select Messages, Done'' [session, claim] selected) (consume_message pf s session)"

record group_handler =
  on_setup :: "gval \<Rightarrow> unit prog"
  on_cleanup :: "gval \<Rightarrow> unit prog"
  on_claim :: "gval \<Rightarrow> gval \<Rightarrow> unit prog"

definition as_group_handler :: "platform \<Rightarrow> KafkaConsumerService \<Rightarrow> group_handler" where
  "as_group_handler pf s = \<lparr>on_setup = Kafka_Setup, on_cleanup = Kafka_Cleanup, on_claim = ConsumeClaim pf s\<rparr>"

section \<open>Running\<close>

definition ErrClosedConsumerGroup :: gerror where
  "ErrClosedConsumerGroup = EExt ''kafka: tried to use a consumer group that was closed''"

text \<open>\<^verbatim>\<open>errors.Is\<close> looks through the errors that are wrapped.\<close>

fun errors_Is :: "gerror \<Rightarrow> gerror \<Rightarrow> bool" where
  "errors_Is (EWrap s e) t \<longleftrightarrow> EWrap s e = t \<or> errors_Is e t"
| "errors_Is e t \<longleftrightarrow> e = t"

text \<open>
  One pass of the loop in the goroutine; \<open>consume\<close> is \<^verbatim>\<open>ConsumerGroup.Consume\<close>. The result says
  whether the goroutine goes on.
\<close>

definition group_pass :: "unit prog \<Rightarrow> bool prog" where
  "group_pass consume =
     sbind (on_err (sbind consume (\<lambda>_. sret True)) (\<lambda>e.
        if errors_Is e ErrClosedConsumerGroup then sret False
        else sbind (say Warn ''failed to consume message'') (\<lambda>_. sret True))) (\<lambda>go_on.
     if \<not> go_on then sret False
     else sbind (lib0 ''ctx.Err'' []) (\<lambda>cancelled. sret (\<not> as_bool cancelled)))"

definition group_step :: "unit prog \<Rightarrow> process \<Rightarrow> (process, process \<times> unit outcome) ctl" where
  "group_step consume w =
     (case group_pass consume w of
        (w1, Ret True) \<Rightarrow> Continue w1
      | (w1, Ret False) \<Rightarrow> Stop (w1, Ret ())
      | (w1, Err e) \<Rightarrow> Stop (w1, Err e)
      | (w1, Panic p) \<Rightarrow> Stop (w1, Panic p))"

definition group_loop :: "unit prog \<Rightarrow> unit prog" where
  "group_loop consume w = (case loop (group_step consume) w of None \<Rightarrow> (w, Panic Blocked) | Some r \<Rightarrow> r)"

text \<open>
  The goroutine and the wait for it. A panic in the goroutine ends the process, so that what \<^verbatim>\<open>Run\<close>
  has deferred does not run then.
\<close>

definition Kafka_Run :: "platform \<Rightarrow> (group_handler \<Rightarrow> gval \<Rightarrow> string \<Rightarrow> unit prog) \<Rightarrow> KafkaConsumerService \<Rightarrow> unit prog" where
  "Kafka_Run pf consume s =
     sbind (lib ''sarama.NewConsumerGroup'' [GList (map GStr (kc_Brokers (kn_config s))), GStr (kc_Group (kn_config s)), sarama_arg (kn_cfg s)]) (\<lambda>client.
     sbind (group_loop (consume (as_group_handler pf s) client (kc_Topic (kn_config s)))) (\<lambda>_.
     call0 ''ConsumerGroup.Close'' [client]))"

definition NewKafkaConsumerService :: "string \<Rightarrow> gmap \<Rightarrow> KafkaConsumerService prog" where
  "NewKafkaConsumerService name config =
     sbind (lift_out (ParseConfig kafka_consumer_fields kafka_consumer_zero config)) (\<lambda>cfg.
     sret \<lparr>kn_name = name, kn_config = cfg, kn_cfg = sarama_config_of cfg\<rparr>)"

definition kafka_consumer_constructor :: "string \<Rightarrow> gmap \<Rightarrow> service prog" where
  "kafka_consumer_constructor name m =
     sbind (or_panic (NewKafkaConsumerService name m)) (\<lambda>s.
     sret \<lparr>sv_name = kn_name s, sv_type = ''kafka-consumer'', sv_config = m, sv_handle = sarama_arg (kn_cfg s)\<rparr>)"

definition as_kafka_consumer :: "service \<Rightarrow> KafkaConsumerService" where
  "as_kafka_consumer s =
     (let cfg = (case ParseConfig kafka_consumer_fields kafka_consumer_zero (sv_config s) of Ret c \<Rightarrow> c | _ \<Rightarrow> kafka_consumer_zero)
      in \<lparr>kn_name = sv_name s, kn_config = cfg, kn_cfg = sarama_config_of cfg\<rparr>)"

lemma as_kafka_consumer_constructed:
  "NewKafkaConsumerService n m w = (w', Ret s) \<Longrightarrow> \<exists>v. kafka_consumer_constructor n m w = (w', Ret v) \<and> as_kafka_consumer v = s"
  by (cases "ParseConfig kafka_consumer_fields kafka_consumer_zero m")
    (auto simp: kafka_consumer_constructor_def or_panic_def NewKafkaConsumerService_def as_kafka_consumer_def prog_defs Let_def)

section \<open>Lemmas\<close>

text \<open>The calls of a message: those of a script, of the tracers and of the data streams.\<close>

definition consumer_calls :: "string set" where
  "consumer_calls = script_calls \<union> method_calls \<union> {''tracer.TrackKafkaCommitOffset''}"

lemma calls_setConsumeCheckpoint:
  assumes "\<And>f as. f \<in> consumer_calls \<Longrightarrow> P (f, as)"
  shows "calls_only P (setConsumeCheckpoint enabled g msg)"
  unfolding setConsumeCheckpoint_def by (intro calls_option calls_rules assms; simp add: consumer_calls_def method_calls_def)

lemma calls_execute_script:
  assumes "\<And>f as. f \<in> consumer_calls \<Longrightarrow> P (f, as)"
  shows "calls_only P (execute_script pf c)"
  unfolding execute_script_eq by (intro calls_Script_Execute assms) (simp add: consumer_calls_def)

lemma calls_kafka_handleMessage:
  assumes "\<And>f as. f \<in> consumer_calls \<Longrightarrow> P (f, as)"
  shows "calls_only P (kafka_handleMessage pf s m)"
  unfolding kafka_handleMessage_def kafka_ddHandleMessage_def kafka_otelHandleMessage_def finish_with_def Span_error_def
  by (intro calls_rules calls_execute_script calls_setConsumeCheckpoint assms; simp add: consumer_calls_def method_calls_def)

lemma closes_setConsumeCheckpoint [span_rules]: "closes_spans (setConsumeCheckpoint enabled g msg)"
  unfolding setConsumeCheckpoint_def by (intro span_rules; simp add: is_start_def)

lemma closes_execute_script [span_rules]: "closes_spans (execute_script pf c)"
  unfolding execute_script_eq by (rule closes_Script_Execute)

lemma closes_kafka_handleMessage [span_rules]: "closes_spans (kafka_handleMessage pf s m)"
proof -
  have "closes_spans (kafka_ddHandleMessage pf s m)"
    unfolding kafka_ddHandleMessage_def finish_with_def
    by (rule closes_with_span, rule closes_at_once; (intro span_rules)?; simp)
  moreover have "closes_spans (kafka_otelHandleMessage pf s m)"
    unfolding kafka_otelHandleMessage_def by (intro span_rules) simp_all
  ultimately show ?thesis unfolding kafka_handleMessage_def by (intro span_rules)
qed

lemma closes_consume_message: "closes_spans (consume_message pf s session m)"
  unfolding consume_message_def by (intro span_rules) (simp add: is_start_def)

lemma consume_message_no_Err: "consume_message pf s session m w \<noteq> (w', Err e)"
  by (auto simp: consume_message_def sbind_def on_err_def say_def split: prod.splits outcome.splits)

text \<open>The calls of a message, but for the mark that ends it.\<close>

definition unmarked :: "string \<times> gval list \<Rightarrow> bool" where
  "unmarked c \<longleftrightarrow> fst c \<noteq> ''select Messages, Done'' \<and> fst c \<noteq> ''Session.MarkMessage''"

lemma calls_handled: "calls_only unmarked (on_err (kafka_handleMessage pf s m) (\<lambda>e. say Warn msg))"
  by (intro calls_rules calls_kafka_handleMessage) (auto simp: unmarked_def consumer_calls_def method_calls_def script_calls_def)

interpretation claim: acknowledging_handler "''select Messages, Done''" selected "consume_message pf s session" "''Session.MarkMessage''"
  "\<lambda>m. [session, consumer_message_arg m]"
proof (unfold_locales, goal_cases)
  case (3 m w w')
  let ?h = "on_err (kafka_handleMessage pf s m) (\<lambda>e. say Warn ''failed to handle message'')"
  obtain w1 r1 where h: "?h w = (w1, r1)" by fastforce
  obtain cs where cs: "pr_calls w1 = pr_calls w @ cs" "\<forall>c\<in>set cs. unmarked c" using calls_handled h by (rule calls_onlyE)
  have "pr_answers w1 = pr_answers w" using calls_handled h by (rule calls_only_answers)
  with 3 h cs show ?case by (cases r1) (auto simp: consume_message_def sbind_def unmarked_def)
next
  case (4 m w w' p)
  let ?h = "on_err (kafka_handleMessage pf s m) (\<lambda>e. say Warn ''failed to handle message'')"
  obtain w1 r1 where h: "?h w = (w1, r1)" by fastforce
  obtain cs where cs: "pr_calls w1 = pr_calls w @ cs" "\<forall>c\<in>set cs. unmarked c" using calls_handled h by (rule calls_onlyE)
  with 4 h show ?case by (cases r1) (auto simp: consume_message_def sbind_def unmarked_def)
qed (simp_all add: consume_message_no_Err)

section \<open>Properties\<close>

text \<open>
  C12. A consumer marks what it was given: whatever the scripts do, the messages marked while a claim
  is consumed are the messages received, each once and in order, also those whose script failed;
  only when a script panics is the last message received left unmarked. The claim itself never
  ends with an error, and does so without a panic only when no message is left unmarked.
\<close>

theorem claim_marks_what_it_receives:
  "\<exists>cs k. pr_calls (fst (ConsumeClaim pf s session claim w)) = pr_calls w @ cs
    \<and> filter (\<lambda>c. fst c = ''Session.MarkMessage'') cs
      = map (\<lambda>m. (''Session.MarkMessage'', [session, consumer_message_arg m]))
          (take k (taken ''select Messages, Done'' selected (pr_answers w) (length (pr_calls w)) cs))
    \<and> length (taken ''select Messages, Done'' selected (pr_answers w) (length (pr_calls w)) cs) \<le> Suc k
    \<and> (snd (ConsumeClaim pf s session claim w) = Ret () \<longrightarrow>
        k = length (taken ''select Messages, Done'' selected (pr_answers w) (length (pr_calls w)) cs))
    \<and> (\<forall>e. snd (ConsumeClaim pf s session claim w) \<noteq> Err e)"
proof -
  have "snd (ConsumeClaim pf s session claim w) \<noteq> Err e" for e
    unfolding ConsumeClaim_def by (rule receive_loop_never_fails) (rule consume_message_no_Err)
  then show ?thesis
    using claim.loop_acknowledges[where pf = pf and s = s and session = session and w = w and args = "[session, claim]"]
    unfolding claim.acked_but_last_def claim.acks_def claim.ack_calls_def ConsumeClaim_def by blast
qed

definition demo_consumer :: KafkaConsumerService where
  "demo_consumer = \<lparr>kn_name = ''jobs'', kn_config = kafka_consumer_zero, kn_cfg = sarama_NewConfig\<rparr>"

text \<open>One message, whose script fails, and then the end of the channel.\<close>

definition demo_claim :: process where
  "demo_claim = idle_process\<lparr>pr_answers := \<lambda>k. if k = 0 then Ret (GMapS [(''Value'', GStr ''hi'')]) else Ret GNil\<rparr>"

lemma demo_script_fails:
  "execute_script demo_platform c w = (w, Err (EText ''failed to get run function''))"
  if "ConfigToMap enc_script x = Ret c"
  using script_map_parses[OF that]
  by (simp add: execute_script_eq Script_Execute_def demo_platform_def lift_out_def)

theorem claim_marks_what_it_receives_witness:
  "snd (ConsumeClaim demo_platform demo_consumer GNil GNil demo_claim) = Ret ()
    \<and> filter (\<lambda>c. fst c = ''Session.MarkMessage'') (pr_calls (fst (ConsumeClaim demo_platform demo_consumer GNil GNil demo_claim)))
      = [(''Session.MarkMessage'', [GNil, consumer_message_arg (message_of (GMapS [(''Value'', GStr ''hi'')]))])]"
proof -
  let ?recv = "receive ''select Messages, Done'' [GNil, GNil] selected" and ?h = "consume_message demo_platform demo_consumer GNil"
  let ?m = "message_of (GMapS [(''Value'', GStr ''hi'')])"
  obtain c where c: "ConfigToMap enc_script (message_script demo_consumer ?m) = Ret c" using script_to_map by blast
  let ?w1 = "demo_claim\<lparr>pr_calls := [(''select Messages, Done'', [GNil, GNil])]\<rparr>"
  have r: "?recv demo_claim = (?w1, Ret (Some ?m))" by (simp add: receive_def prog_defs demo_claim_def)
  obtain w2 cs where h: "?h ?m ?w1 = (w2, Ret ())" "pr_calls w2 = (''select Messages, Done'', [GNil, GNil]) # cs" "pr_answers w2 = pr_answers demo_claim"
      "\<forall>c\<in>set cs. fst c \<noteq> ''select Messages, Done''"
    by (simp add: consume_message_def kafka_handleMessage_def kafka_otelHandleMessage_def span_defs prog_defs demo_script_fails[OF c] c
        IsDatadogEnabled_def demo_claim_def req_emit_def)
  have p: "receive_pass ?recv ?h demo_claim = Continue w2" using r h(1) by (simp add: receive_pass_def)
  have q: "?recv w2 = (w2\<lparr>pr_calls := pr_calls w2 @ [(''select Messages, Done'', [GNil, GNil])]\<rparr>, Ret None)"
    using h(2,3) by (simp add: receive_def prog_defs demo_claim_def)
  have e: "ConsumeClaim demo_platform demo_consumer GNil GNil demo_claim =
      (w2\<lparr>pr_calls := pr_calls w2 @ [(''select Messages, Done'', [GNil, GNil])]\<rparr>, Ret ())"
    unfolding ConsumeClaim_def receive_loop_def loop_Continue[where body = "receive_pass ?recv ?h", OF p]
    using q by (simp add: loop_Stop receive_pass_def)
  have "answered selected (pr_answers demo_claim 0) = [?m]" "answered selected (pr_answers demo_claim (Suc k)) = []" for k
    by (simp_all add: answered_def demo_claim_def)
  then show ?thesis
    using claim_marks_what_it_receives[of demo_platform demo_consumer GNil GNil demo_claim] h(2,4)
    unfolding e by (auto simp: demo_claim_def)
qed

text \<open>The message a group delivers for one that was sent: a nil key or value arrives empty.\<close>

definition delivered :: "ProducerMessage \<Rightarrow> int \<Rightarrow> int \<Rightarrow> ConsumerMessage" where
  "delivered m part offset =
     \<lparr>cm_Topic = pm_Topic m, cm_Key = (case pm_Key m of None \<Rightarrow> [] | Some k \<Rightarrow> k), cm_Value = (case pm_Value m of None \<Rightarrow> [] | Some v \<Rightarrow> v),
      cm_Headers = pm_Headers m, cm_Partition = part, cm_Offset = offset\<rparr>"

text \<open>
  Both ends of a topic report the same payload size for a message, also where the 64-bit sum
  wraps; it is the number of bytes of the headers, the key and the value when these are fewer
  than 2^63.
\<close>

theorem payload_sizes_agree:
  "getConsumerMsgSize (delivered m p k) = getProducerMsgSize m
    \<and> (let n = (\<Sum>(k, v)\<leftarrow>pm_Headers m. length k + length v) + length (cm_Key (delivered m p k)) + length (cm_Value (delivered m p k))
       in n < 9223372036854775808 \<longrightarrow> getProducerMsgSize m = int n)"
proof -
  define h where "h = (\<Sum>(k, v)\<leftarrow>pm_Headers m. length k + length v)"
  have "is_i64 0" by (simp add: is_i64_def)
  then have a: "add_headers 0 (pm_Headers m) = i64 (int h)" by (simp add: add_headers_sum h_def)
  define v where "v = length (cm_Value (delivered m p k))"
  define l where "l = length (cm_Key (delivered m p k))"
  have c: "getConsumerMsgSize (delivered m p k) = i64 (int h + int v + int l)"
    using a by (simp add: getConsumerMsgSize_def v_def l_def delivered_def algebra_simps)
  have s: "getProducerMsgSize m = i64 (int h + int v + int l)"
    using a i64_i64_left[of "int h" "int v + int l"]
    by (cases "pm_Value m"; cases "pm_Key m") (simp_all add: add.assoc getProducerMsgSize_def v_def l_def delivered_def)
  have "h + l + v < 9223372036854775808 \<Longrightarrow> i64 (int h + int v + int l) = int (h + l + v)"
    by (subst i64_id) (simp_all add: is_i64_def)
  with c s show ?thesis unfolding h_def[symmetric] v_def[symmetric] l_def[symmetric] Let_def by simp
qed

theorem payload_sizes_agree_witness:
  "getProducerMsgSize ((new_message ''jobs'' ''hello'')\<lparr>pm_Headers := [(''id'', ''42'')]\<rparr>) = 9"
  using payload_sizes_agree[of "(new_message ''jobs'' ''hello'')\<lparr>pm_Headers := [(''id'', ''42'')]\<rparr>" 0 0]
  by (simp add: delivered_def new_message_def)

section \<open>What comes of a run\<close>

lemma group_loop_no_Err: "snd (group_loop consume w) \<noteq> Err e"
proof (cases "loop (group_step consume) w")
  case (Some r)
  have "snd (group_pass consume v) \<noteq> Err e" for v
    by (auto simp: group_pass_def prog_defs split: prod.splits outcome.splits if_splits)
  then have "case group_step consume v of Continue _ \<Rightarrow> True | Stop r \<Rightarrow> snd r \<noteq> Err e" for v
    by (cases "group_pass consume v"; cases "snd (group_pass consume v)")
      (auto simp: group_step_def split: outcome.splits bool.splits prod.splits, metis snd_conv)
  then have "snd r \<noteq> Err e"
    by (intro loop_keeps[where P = "\<lambda>_. True" and Q = "\<lambda>r. snd r \<noteq> Err e", OF Some TrueI])
  with Some show ?thesis by (simp add: group_loop_def)
qed (simp add: group_loop_def)

text \<open>\<^verbatim>\<open>Run\<close> fails only when the group cannot be created, and returns with the group closed.\<close>

theorem kafka_run_outcome:
  shows "(\<exists>w'. Kafka_Run pf consume s w = (w', Err e)) \<longleftrightarrow> pr_answers w (length (pr_calls w)) = Err e"
    and "Kafka_Run pf consume s w = (w', Ret ()) \<Longrightarrow>
      \<exists>client. pr_answers w (length (pr_calls w)) = Ret client \<and> last (pr_calls w') = (''ConsumerGroup.Close'', [client])"
proof -
  show "(\<exists>w'. Kafka_Run pf consume s w = (w', Err e)) \<longleftrightarrow> pr_answers w (length (pr_calls w)) = Err e"
    using group_loop_no_Err by (auto simp: Kafka_Run_def prog_defs split: prod.splits outcome.splits) (metis snd_conv)+
  show "Kafka_Run pf consume s w = (w', Ret ()) \<Longrightarrow>
      \<exists>client. pr_answers w (length (pr_calls w)) = Ret client \<and> last (pr_calls w') = (''ConsumerGroup.Close'', [client])"
    by (auto simp: Kafka_Run_def prog_defs split: prod.splits outcome.splits)
qed

end
