(* ===== verification/RabbitConsumer.thy ===== *)
theory RabbitConsumer
  imports Actions Delivery Amqp
begin

text \<open>
  The background service \<^verbatim>\<open>rabbitmq-consumer\<close> (\<^verbatim>\<open>pkg/actions/rabbitmq_consumer_service.go\<close>): it keeps a
  connection, opens a channel for each run over the deliveries of its queue, and runs its script
  on every message. The queue is consumed with automatic acknowledgement.
\<close>

section \<open>The service\<close>

record RabbitMQConsumerServiceConfig =
  rc_URL :: string
  rc_Queue :: string
  rc_Script :: string
  rc_PeerService :: string
  rc_PeerNamespace :: string

text \<open>The field \<^verbatim>\<open>conn\<close> is at \<open>rc_link\<close>; there is no field for a channel.\<close>

record RabbitMQConsumerService =
  rc_name :: string
  rc_config :: RabbitMQConsumerServiceConfig
  rc_link :: nat

definition rabbit_consumer_fields :: "RabbitMQConsumerServiceConfig fields" where
  "rabbit_consumer_fields =
     [(''url'', fld dec_string rc_URL (\<lambda>v r. r\<lparr>rc_URL := v\<rparr>)),
      (''queue'', fld dec_string rc_Queue (\<lambda>v r. r\<lparr>rc_Queue := v\<rparr>)),
      (''script'', fld dec_string rc_Script (\<lambda>v r. r\<lparr>rc_Script := v\<rparr>)),
      (''peer_service'', fld dec_string rc_PeerService (\<lambda>v r. r\<lparr>rc_PeerService := v\<rparr>)),
      (''peer_namespace'', fld dec_string rc_PeerNamespace (\<lambda>v r. r\<lparr>rc_PeerNamespace := v\<rparr>))]"

definition rabbit_consumer_zero :: RabbitMQConsumerServiceConfig where
  "rabbit_consumer_zero = \<lparr>rc_URL = [], rc_Queue = [], rc_Script = [], rc_PeerService = [], rc_PeerNamespace = []\<rparr>"

definition Consumer_getChannel :: "RabbitMQConsumerService \<Rightarrow> gval prog" where
  "Consumer_getChannel s =
     sbind (drop_closed (rc_link s)) (\<lambda>_.
     sbind (dial_if_nil (rc_link s) (rc_URL (rc_config s)) (\<lambda>_. sret ())) (\<lambda>_.
     sbind (env (amqp_at (rc_link s))) (\<lambda>l.
       case am_conn l of
         None \<Rightarrow> lift_out (Panic NilDereference)
       | Some conn \<Rightarrow> lib ''Connection.Channel'' [conn])))"

section \<open>Handling a message\<close>

record Delivery =
  dl_Tag :: int
  dl_Body :: string

definition Ack_or_warn :: "Delivery \<Rightarrow> unit prog" where
  "Ack_or_warn msg = sbind (warn_only Warn ''failed to ack message'' (lib ''Delivery.Ack'' [GInt (dl_Tag msg), GBool False])) (\<lambda>_. sret ())"

definition delivery_script :: "RabbitMQConsumerService \<Rightarrow> Delivery \<Rightarrow> ScriptConfig" where
  "delivery_script s msg = \<lparr>cfg_Script = rc_Script (rc_config s), cfg_Message = dl_Body msg\<rparr>"

definition script_or_warn :: "platform \<Rightarrow> gmap \<Rightarrow> unit prog" where
  "script_or_warn pf c = on_err (execute_script pf c) (\<lambda>e. say Warn ''failed to execute script'')"

text \<open>Under Datadog the span is injected into the context first, a carrier the tracer does not know.\<close>

definition rabbit_ddHandleMessage :: "platform \<Rightarrow> RabbitMQConsumerService \<Rightarrow> Delivery \<Rightarrow> unit prog" where
  "rabbit_ddHandleMessage pf s msg =
     with_span (start_span ''tracer.StartSpan'' [GStr ''handle_message'']) (\<lambda>span. Span_Finish span) (\<lambda>span.
     sbind (start_span ''tracer.StartSpan'' [GStr ''rabbitmq.consume'', GStr (rc_Queue (rc_config s)), GStr ''consumer'',
        GStr (rc_PeerService (rc_config s))]) (\<lambda>child.
     sbind (Span_Finish child) (\<lambda>_.
     sbind (on_err (lib ''tracer.Inject'' [GStr ''ctx'']) (\<lambda>e. sbind (Ack_or_warn msg) (\<lambda>_. lift_out (Err e)))) (\<lambda>_.
     sbind (on_err (lift_out (ConfigToMap enc_script (delivery_script s msg))) (\<lambda>e.
        sbind (Ack_or_warn msg) (\<lambda>_. sbind (Span_Finish_error child e) (\<lambda>_. lift_out (Err e))))) (\<lambda>c.
     script_or_warn pf c)))))"

definition rabbit_otelHandleMessage :: "platform \<Rightarrow> RabbitMQConsumerService \<Rightarrow> Delivery \<Rightarrow> unit prog" where
  "rabbit_otelHandleMessage pf s msg =
     with_span (start_span ''Tracer.Start'' [GStr ''rabbitmq-consumer'', GStr (''Consume Queue '' @ rc_Queue (rc_config s)), GStr ''consumer''])
       (\<lambda>span. Span_End span) (\<lambda>span.
     sbind (Span_SetAttribute span ''messaging.destination.name'' (GStr (rc_Queue (rc_config s)))) (\<lambda>_.
     sbind (Span_SetAttribute span ''messaging.system'' (GStr ''rabbitmq'')) (\<lambda>_.
     sbind (Span_SetAttribute span ''peer.service'' (GStr (rc_PeerService (rc_config s)))) (\<lambda>_.
     sbind (Span_SetAttribute span ''peer.namespace'' (GStr (rc_PeerNamespace (rc_config s)))) (\<lambda>_.
     sbind (on_err (lift_out (ConfigToMap enc_script (delivery_script s msg))) (\<lambda>e.
        sbind (Ack_or_warn msg) (\<lambda>_. sbind (Span_error span e) (\<lambda>_. lift_out (Err e))))) (\<lambda>c.
     sbind (Span_ok span ''message received'') (\<lambda>_.
     script_or_warn pf c)))))))"

definition rabbit_handleMessage :: "platform \<Rightarrow> RabbitMQConsumerService \<Rightarrow> Delivery \<Rightarrow> unit prog" where
  "rabbit_handleMessage pf s msg =
     sbind (env pr_env) (\<lambda>getenv.
       if IsDatadogEnabled getenv then rabbit_ddHandleMessage pf s msg else rabbit_otelHandleMessage pf s msg)"

section \<open>Running\<close>

text \<open>A delivery, or the end of the deliveries when their channel is closed.\<close>

fun as_delivery :: "gval \<Rightarrow> Delivery option" where
  "as_delivery (GMapS m) = Some \<lparr>dl_Tag = as_int (gfield ''DeliveryTag'' (GMapS m)), dl_Body = as_string (gfield ''Body'' (GMapS m))\<rparr>"
| "as_delivery _ = None"

definition consume_delivery :: "platform \<Rightarrow> RabbitMQConsumerService \<Rightarrow> Delivery \<Rightarrow> unit prog" where
  "consume_delivery pf s msg = on_err (rabbit_handleMessage pf s msg) (\<lambda>e. say Warn ''failed to handle message'')"

definition rabbit_run :: "platform \<Rightarrow> RabbitMQConsumerService \<Rightarrow> unit prog" where
  "rabbit_run pf s =
     sbind (or_warn ''failed to get channel'' (Consumer_getChannel s)) (\<lambda>ch.
     sbind (or_warn ''failed to declare queue'' (lib ''Channel.QueueDeclare'' [ch, GStr (rc_Queue (rc_config s))])) (\<lambda>q.
     sbind (or_warn ''failed to consume message'' (lib ''Channel.Consume'' [ch, gfield ''Name'' q, GStr [], GBool True])) (\<lambda>deliveries.
     receive_loop (receive ''range deliveries'' [deliveries] as_delivery) (consume_delivery pf s))))"

text \<open>\<^verbatim>\<open>select { case <-ctx.Done(): return nil; default: ... }\<close>\<close>

definition run_pass :: "platform \<Rightarrow> RabbitMQConsumerService \<Rightarrow> process \<Rightarrow> (process, process \<times> unit outcome) ctl" where
  "run_pass pf s w =
     (case lib0 ''ctx.Done'' [] w of
        (w1, Ret v) \<Rightarrow>
          if as_bool v then Stop (w1, Ret ())
          else
            (case on_err (rabbit_run pf s) (\<lambda>e. say Warn ''failed to consume message'') w1 of
               (w2, Ret _) \<Rightarrow> Continue w2
             | (w2, Err e) \<Rightarrow> Stop (w2, Err e)
             | (w2, Panic p) \<Rightarrow> Stop (w2, Panic p))
      | (w1, Err e) \<Rightarrow> Stop (w1, Err e)
      | (w1, Panic p) \<Rightarrow> Stop (w1, Panic p))"

definition RabbitMQ_Run :: "platform \<Rightarrow> RabbitMQConsumerService \<Rightarrow> unit prog" where
  "RabbitMQ_Run pf s w = (case loop (run_pass pf s) w of None \<Rightarrow> (w, Panic Blocked) | Some r \<Rightarrow> r)"

definition NewRabbitMQConsumerService :: "string \<Rightarrow> gmap \<Rightarrow> RabbitMQConsumerService prog" where
  "NewRabbitMQConsumerService name config =
     sbind (lift_out (ParseConfig rabbit_consumer_fields rabbit_consumer_zero config)) (\<lambda>cfg.
     sbind new_amqp (\<lambda>a. sret \<lparr>rc_name = name, rc_config = cfg, rc_link = a\<rparr>))"

definition rabbit_consumer_constructor :: "string \<Rightarrow> gmap \<Rightarrow> service prog" where
  "rabbit_consumer_constructor name m =
     sbind (or_panic (NewRabbitMQConsumerService name m)) (\<lambda>s.
     sret \<lparr>sv_name = rc_name s, sv_type = ''rabbitmq-consumer'', sv_config = m, sv_handle = GInt (int (rc_link s))\<rparr>)"

definition as_rabbit_consumer :: "service \<Rightarrow> RabbitMQConsumerService" where
  "as_rabbit_consumer v = \<lparr>rc_name = sv_name v,
     rc_config = (case ParseConfig rabbit_consumer_fields rabbit_consumer_zero (sv_config v) of Ret c \<Rightarrow> c | _ \<Rightarrow> rabbit_consumer_zero),
     rc_link = nat (as_int (sv_handle v))\<rparr>"

lemma as_rabbit_consumer_constructed:
  "NewRabbitMQConsumerService n m w = (w', Ret s) \<Longrightarrow> \<exists>v. rabbit_consumer_constructor n m w = (w', Ret v) \<and> as_rabbit_consumer v = s"
  by (cases "ParseConfig rabbit_consumer_fields rabbit_consumer_zero m")
    (auto simp: rabbit_consumer_constructor_def or_panic_def NewRabbitMQConsumerService_def as_rabbit_consumer_def prog_defs new_amqp_def)

section \<open>Lemmas\<close>

lemma balanced_Consumer_getChannel: "balanced (rc_link s) (Consumer_getChannel s)"
  unfolding Consumer_getChannel_def by (intro link_rules) simp_all

text \<open>\<^verbatim>\<open>getChannel\<close> of the struct \<open>s\<close> at any address.\<close>

interpretation consumer_link: connection_cache "\<lambda>a (_ :: unit). Consumer_getChannel (s\<lparr>rc_link := a\<rparr>)"
  by unfold_locales (use balanced_Consumer_getChannel[of "s\<lparr>rc_link := a\<rparr>" for a] in simp)

lemma closes_rabbit_handleMessage [span_rules]: "closes_spans (rabbit_handleMessage pf s msg)"
proof -
  have x: "closes_spans (execute_script pf c)" for c unfolding execute_script_eq by (rule closes_Script_Execute)
  have ack: "closes_spans (Ack_or_warn msg)"
    unfolding Ack_or_warn_def warn_only_def by (intro span_rules; simp add: is_start_def)
  have "closes_spans (rabbit_ddHandleMessage pf s msg)"
    unfolding rabbit_ddHandleMessage_def script_or_warn_def
    by (rule closes_with_span, rule closes_at_once; (intro span_rules x ack)?; simp add: is_start_def)
  moreover have "closes_spans (rabbit_otelHandleMessage pf s msg)"
    unfolding rabbit_otelHandleMessage_def script_or_warn_def by (intro span_rules x ack; simp)
  ultimately show ?thesis unfolding rabbit_handleMessage_def by (intro span_rules)
qed

lemma closes_consume_delivery: "closes_spans (consume_delivery pf s msg)"
  unfolding consume_delivery_def by (intro span_rules)

lemma consume_delivery_no_Err: "consume_delivery pf s msg w \<noteq> (w', Err e)"
  by (auto simp: consume_delivery_def on_err_def say_def split: prod.splits outcome.splits)

lemma rabbit_run_no_Err: "snd (RabbitMQ_Run pf s w) \<noteq> Err e"
proof (cases "loop (run_pass pf s) w")
  case (Some r)
  have "snd r \<noteq> Err e"
    by (rule loop_keeps[where P = "\<lambda>_. True" and Q = "\<lambda>r. snd r \<noteq> Err e", OF Some])
      (auto simp: run_pass_def prog_defs split: prod.splits outcome.splits)
  with Some show ?thesis by (simp add: RabbitMQ_Run_def)
qed (simp add: RabbitMQ_Run_def)

section \<open>Properties\<close>

text \<open>
  Under Datadog no message of RabbitMQ reaches its script: the tracer refuses the context as a
  carrier, so the handler acknowledges the message, which the broker has taken as acknowledged
  already, and returns the tracer's error; nothing else of the process changes but its log.
\<close>

theorem datadog_drops_deliveries:
  assumes "IsDatadogEnabled (pr_env w)" "pr_answers w (length (pr_calls w) + 3) = Err e" "pr_answers w (length (pr_calls w) + 4) = Ret a"
  shows "rabbit_handleMessage pf s msg w =
    (w\<lparr>pr_calls := pr_calls w @
        [(''tracer.StartSpan'', [GStr ''handle_message'']),
         (''tracer.StartSpan'', [GStr ''rabbitmq.consume'', GStr (rc_Queue (rc_config s)), GStr ''consumer'', GStr (rc_PeerService (rc_config s))]),
         (''Span.Finish'', [GInt (int (length (pr_calls w) + 1))]),
         (''tracer.Inject'', [GStr ''ctx'']),
         (''Delivery.Ack'', [GInt (dl_Tag msg), GBool False]),
         (''Span.Finish'', [GInt (int (length (pr_calls w)))])]\<rparr>, Err e)"
  using assms
  by (simp add: rabbit_handleMessage_def rabbit_ddHandleMessage_def Ack_or_warn_def span_defs prog_defs eval_nat_numeral)

definition demo_listener :: RabbitMQConsumerService where
  "demo_listener = \<lparr>rc_name = ''jobs'', rc_config = rabbit_consumer_zero, rc_link = 0\<rparr>"

theorem datadog_drops_deliveries_witness:
  "snd (rabbit_handleMessage demo_platform demo_listener \<lparr>dl_Tag = 1, dl_Body = ''hi''\<rparr>
      (idle_process\<lparr>pr_env := \<lambda>_. ''true'', pr_answers := \<lambda>k. if k = 3 then Err (EExt ''invalid carrier'') else Ret GNil\<rparr>))
    = Err (EExt ''invalid carrier'')"
  by (subst datadog_drops_deliveries[where e = "EExt ''invalid carrier''" and a = GNil]) (simp_all add: IsDatadogEnabled_def)

text \<open>
  C24. A consumer does not give up: whatever fails, \<^verbatim>\<open>Run\<close> never returns an error, and when it
  returns, the last thing it did was to find its context done.
\<close>

theorem rabbit_run_ends_when_cancelled:
  shows "(\<forall>e. snd (RabbitMQ_Run pf s w) \<noteq> Err e)
    \<and> (snd (RabbitMQ_Run pf s w) = Ret () \<longrightarrow>
        (\<exists>cs. pr_calls (fst (RabbitMQ_Run pf s w)) = cs @ [(''ctx.Done'', [])]
          \<and> pr_answers (fst (RabbitMQ_Run pf s w)) (length cs) = Ret (GBool True)))"
proof (cases "loop (run_pass pf s) w")
  case (Some r)
  let ?Q = "\<lambda>r :: process \<times> unit outcome. (\<forall>e. snd r \<noteq> Err e) \<and> (snd r = Ret () \<longrightarrow>
        (\<exists>cs. pr_calls (fst r) = cs @ [(''ctx.Done'', [])] \<and> pr_answers (fst r) (length cs) = Ret (GBool True)))"
  have t: "as_bool v \<longleftrightarrow> v = GBool True" for v by (cases v) auto
  have "case run_pass pf s v of Continue _ \<Rightarrow> True | Stop r \<Rightarrow> ?Q r" for v
    by (auto simp: run_pass_def prog_defs t split: outcome.splits prod.splits if_splits)
  then have "?Q r" by (intro loop_keeps[where P = "\<lambda>_. True" and Q = ?Q, OF Some TrueI])
  with Some show ?thesis by (simp add: RabbitMQ_Run_def)
qed (simp add: RabbitMQ_Run_def)

theorem rabbit_run_ends_when_cancelled_witness:
  "snd (RabbitMQ_Run demo_platform demo_listener (idle_process\<lparr>pr_answers := \<lambda>_. Ret (GBool True)\<rparr>)) = Ret ()
    \<and> (\<exists>cs. pr_calls (fst (RabbitMQ_Run demo_platform demo_listener (idle_process\<lparr>pr_answers := \<lambda>_. Ret (GBool True)\<rparr>))) = cs @ [(''ctx.Done'', [])])"
proof -
  have "snd (RabbitMQ_Run demo_platform demo_listener (idle_process\<lparr>pr_answers := \<lambda>_. Ret (GBool True)\<rparr>)) = Ret ()"
    by (simp add: RabbitMQ_Run_def loop_Stop run_pass_def prog_defs)
  then show ?thesis
    using rabbit_run_ends_when_cancelled[of demo_platform demo_listener "idle_process\<lparr>pr_answers := \<lambda>_. Ret (GBool True)\<rparr>"] by blast
qed

end
