(* ===== verification/Background.thy ===== *)
theory Background
  imports KafkaConsumer RabbitConsumer
begin

text \<open>
  The table \<^verbatim>\<open>BACKGROUND_SERVICE_TYPES\<close> that the \<^verbatim>\<open>init\<close> functions of the two consumers fill, what
  its constructors promise the registry, and the goroutines of background services.
\<close>

definition BACKGROUND_SERVICE_TYPES :: "string \<Rightarrow> constructor option" where
  "BACKGROUND_SERVICE_TYPES = map_of
     [(''kafka-consumer'', kafka_consumer_constructor), (''rabbitmq-consumer'', rabbit_consumer_constructor)]"

text \<open>\<^verbatim>\<open>service.Service.Run(ctx)\<close>, for the types the table knows; \<open>consume\<close> is the consumer group.\<close>

definition BackgroundService_Run ::
  "platform \<Rightarrow> (group_handler \<Rightarrow> gval \<Rightarrow> string \<Rightarrow> unit prog) \<Rightarrow> service \<Rightarrow> unit prog" where
  "BackgroundService_Run pf consume s =
     (if sv_type s = ''kafka-consumer'' then Kafka_Run pf consume (as_kafka_consumer s)
      else RabbitMQ_Run pf (as_rabbit_consumer s))"

section \<open>The constructors\<close>

lemma makes_consumers: "makes (\<lambda>x. kn_name x = n) (or_panic (NewKafkaConsumerService n m))"
  "makes (\<lambda>x. rc_name x = n) (or_panic (NewRabbitMQConsumerService n m))"
  unfolding NewKafkaConsumerService_def NewRabbitMQConsumerService_def by (intro makes_rules; simp)+

lemma consumers_make: "makes (is_service n ''kafka-consumer'') (kafka_consumer_constructor n m)"
  "makes (is_service n ''rabbitmq-consumer'') (rabbit_consumer_constructor n m)"
  unfolding kafka_consumer_constructor_def rabbit_consumer_constructor_def
  by (rule makes_wrapped, rule makes_consumers, simp add: is_service_def)+

lemma BACKGROUND_SERVICE_TYPES_construct: "constructs pr_background BACKGROUND_SERVICE_TYPES"
  unfolding constructs_def
proof (intro allI impI)
  fix t c n m w w' r
  assume c: "BACKGROUND_SERVICE_TYPES t = Some c" and w': "c n m w = (w', r)"
  have "makes (is_service n t) (c n m)"
    using c consumers_make by (auto simp: BACKGROUND_SERVICE_TYPES_def split: if_splits)
  from makesD[OF this w'] show "pr_background w' = pr_background w \<and> (\<forall>s. r = Ret s \<longrightarrow> sv_name s = n \<and> sv_type s = t)"
    by (simp add: is_service_def)
qed

section \<open>Spans of whole runs\<close>

lemma closes_receive: "\<not> is_start (f, args) \<Longrightarrow> closes_spans (receive f args dec)"
  unfolding receive_def by (intro span_rules)

lemma closes_ConsumeClaim: "closes_spans (ConsumeClaim pf s session claim)"
  unfolding ConsumeClaim_def by (intro closes_receive_loop closes_receive closes_consume_message) (simp add: is_start_def)

lemma closes_drop_closed: "closes_spans (drop_closed a)"
  by (rule closes_calls_only) (intro calls_rules, simp add: is_start_def)

lemma closes_Consumer_getChannel: "closes_spans (Consumer_getChannel s)"
  by (rule closes_calls_only) (unfold Consumer_getChannel_def dial_if_nil_def, intro calls_rules; simp add: is_start_def)

lemma closes_rabbit_run: "closes_spans (rabbit_run pf s)"
  unfolding rabbit_run_def
  by (intro span_rules closes_Consumer_getChannel closes_receive closes_consume_delivery) (simp_all add: is_start_def)

lemma closes_RabbitMQ_Run: "closes_spans (RabbitMQ_Run pf s)"
  unfolding closes_spans_since
proof
  fix w
  let ?done = "lib0 ''ctx.Done'' []" and ?run = "on_err (rabbit_run pf s) (\<lambda>e. say Warn ''failed to consume message'')"
  have d: "closes_spans ?done" and r: "closes_spans ?run"
    by (intro span_rules closes_rabbit_run; simp add: is_start_def)+
  show "no_return (snd (RabbitMQ_Run pf s w)) \<or> closes_since w (fst (RabbitMQ_Run pf s w))"
  proof (cases "loop (run_pass pf s) w")
    case (Some vr)
    have "case run_pass pf s v of Continue v' \<Rightarrow> closes_since w v' | Stop r \<Rightarrow> closed_outcome w r"
      if c: "closes_since w v" for v
    proof -
      obtain v1 r1 where d1: "?done v = (v1, r1)" by fastforce
      note c1 = closes_sinceI[OF d c d1]
      show ?thesis
      proof (cases "\<exists>x. r1 = Ret x \<and> \<not> as_bool x")
        case True
        then obtain x where x: "r1 = Ret x" "\<not> as_bool x" by blast
        obtain v2 r2 where h: "?run v1 = (v2, r2)" by fastforce
        have "closes_since w v1" using c1 x(1) by simp
        with r have "no_return r2 \<or> closes_since w v2" using h by (rule closes_sinceI)
        then show ?thesis using d1 x h by (auto simp: run_pass_def split: outcome.split)
      qed (use d1 c1 in \<open>auto simp: run_pass_def split: outcome.split\<close>)
    qed
    with closes_loop[OF Some] Some show ?thesis by (simp add: RabbitMQ_Run_def closed_outcome_def)
  qed (simp add: RabbitMQ_Run_def)
qed

section \<open>Properties\<close>

text \<open>
  C14. Every span is ended: each method a script can call on a service, each script, the consumption
  of a claim of Kafka and the whole run of a RabbitMQ consumer end every span they start, with a
  later call of their own, whether they return, fail or panic. Only the fatal error of a mutex, which
  takes the process with it, and a call that never comes back leave spans open.
\<close>

theorem every_span_is_ended:
  "closes_spans (service_method s m args) \<and> closes_spans (execute_script pf c)
    \<and> closes_spans (ConsumeClaim pf k session claim) \<and> closes_spans (RabbitMQ_Run pf r)"
  by (intro conjI closes_service_method closes_execute_script closes_ConsumeClaim closes_RabbitMQ_Run)

text \<open>
  A failure of a background service stays in its goroutine: a Kafka consumer whose group cannot
  be created prints its name and the error and does nothing else, and the goroutine of a RabbitMQ
  consumer never prints anything of its own: whatever fails there is retried.
\<close>

theorem background_failure_is_printed:
  "(sv_type s = ''kafka-consumer'' \<and> pr_answers w (length (pr_calls w)) = Err e \<longrightarrow>
      (\<exists>c. background_goroutine (BackgroundService_Run pf consume) s w =
        (w\<lparr>pr_calls := pr_calls w @ [(''sarama.NewConsumerGroup'', c)],
           pr_out := pr_out w @ [''service '' @ sv_name s @ '' failed to run: '' @ error_text e]\<rparr>, Ret ())))
    \<and> (sv_type s = ''rabbitmq-consumer'' \<longrightarrow>
      background_goroutine (BackgroundService_Run pf consume) s w = BackgroundService_Run pf consume s w)"
proof -
  have "(\<exists>c. background_goroutine (BackgroundService_Run pf consume) s w =
        (w\<lparr>pr_calls := pr_calls w @ [(''sarama.NewConsumerGroup'', c)],
           pr_out := pr_out w @ [''service '' @ sv_name s @ '' failed to run: '' @ error_text e]\<rparr>, Ret ()))"
    if "sv_type s = ''kafka-consumer''" "pr_answers w (length (pr_calls w)) = Err e"
    using that by (auto simp: background_goroutine_def BackgroundService_Run_def Kafka_Run_def prog_defs as_kafka_consumer_def Let_def)
  moreover have "background_goroutine (BackgroundService_Run pf consume) s w = BackgroundService_Run pf consume s w"
    if "sv_type s = ''rabbitmq-consumer''"
    using that rabbit_run_no_Err[of pf "as_rabbit_consumer s" w]
    by (cases "RabbitMQ_Run pf (as_rabbit_consumer s) w"; cases "snd (RabbitMQ_Run pf (as_rabbit_consumer s) w)")
      (simp_all add: background_goroutine_def BackgroundService_Run_def on_err_def)
  ultimately show ?thesis by blast
qed

definition demo_group :: service where
  "demo_group = \<lparr>sv_name = ''jobs'', sv_type = ''kafka-consumer'', sv_config = [], sv_handle = GNil\<rparr>"

theorem background_failure_is_printed_witness:
  "pr_out (fst (background_goroutine (BackgroundService_Run demo_platform (\<lambda>_ _ _. sret ())) demo_group
      (idle_process\<lparr>pr_answers := \<lambda>_. Err (EExt ''no brokers'')\<rparr>))) = [''service jobs failed to run: no brokers'']"
proof -
  let ?w = "idle_process\<lparr>pr_answers := \<lambda>_. Err (EExt ''no brokers'')\<rparr>"
  have "sv_type demo_group = ''kafka-consumer'' \<and> pr_answers ?w (length (pr_calls ?w)) = Err (EExt ''no brokers'')"
    by (simp add: demo_group_def)
  with background_failure_is_printed[of demo_group ?w "EExt ''no brokers''" demo_platform "\<lambda>_ _ _. sret ()"]
  show ?thesis by (auto simp: demo_group_def)
qed

end
