(* ===== verification/Telemetry.thy ===== *)
theory Telemetry
  imports World
begin

text \<open>
  The set-up of the OpenTelemetry exporter (\<^verbatim>\<open>cmd/chaosmania/otlp.go\<close>): the expansion of the node's
  address in the endpoint, the exporter and its provider, and the function the command defers to
  shut it down. The SDK is a set of library calls.
\<close>

text \<open>\<^verbatim>\<open>strings.Replace(s, old, new, 1)\<close>, for an \<open>old\<close> that is not empty.\<close>

fun replace_first :: "string \<Rightarrow> string \<Rightarrow> string \<Rightarrow> string" where
  "replace_first old new [] = []"
| "replace_first old new (c # s) =
     (if take (length old) (c # s) = old then new @ drop (length old) (c # s) else c # replace_first old new s)"

definition os_Getenv :: "string \<Rightarrow> string prog" where
  "os_Getenv k = env (\<lambda>w. pr_env w k)"

definition os_Setenv :: "string \<Rightarrow> string \<Rightarrow> unit prog" where
  "os_Setenv k v = change (\<lambda>w. w\<lparr>pr_env := (pr_env w)(k := v)\<rparr>)"

text \<open>The function that is returned: one that does nothing, or the shutdown of a provider.\<close>

datatype shutdown = No_shutdown | Shutdown gval

definition run_shutdown :: "shutdown \<Rightarrow> unit prog" where
  "run_shutdown f =
     (case f of
        No_shutdown \<Rightarrow> sret ()
      | Shutdown tracerProvider \<Rightarrow>
          sbind (warn_only Warn ''failed to shutdown'' (lib ''TracerProvider.Shutdown'' [tracerProvider])) (\<lambda>_. sret ()))"

definition log_endpoint :: "unit prog" where
  "log_endpoint =
     sbind (os_Getenv ''OTEL_EXPORTER_OTLP_ENDPOINT'') (\<lambda>endpoint.
     sbind (os_Getenv ''DEPLOYMENT_NAME'') (\<lambda>service.
     say Info ''OTLP exporter initialized''))"

definition initOTLP :: "shutdown prog" where
  "initOTLP =
     sbind (os_Getenv ''DEPLOYMENT_NAME'') (\<lambda>name.
     sbind (os_Getenv ''NAMESPACE'') (\<lambda>ns.
     sbind (os_Getenv ''DOMAIN'') (\<lambda>domain.
     on_err
       (sbind (on_err (lib ''resource.New'' [GStr name, GStr ns, GStr domain])
          (\<lambda>e. sbind (say Error ''failed to create resource'') (\<lambda>_. lift_out (Err e)))) (\<lambda>res.
        sbind (on_err (lib ''otlptracehttp.New'' [])
          (\<lambda>e. sbind (say Error ''failed to create tracer'') (\<lambda>_. lift_out (Err e)))) (\<lambda>traceExporter.
        sbind (lib0 ''trace.NewBatchSpanProcessor'' [traceExporter]) (\<lambda>batchSpanProcessor.
        sbind (lib0 ''trace.NewTracerProvider'' [GStr ''AlwaysSample'', res, batchSpanProcessor]) (\<lambda>tracerProvider.
        sbind (call0 ''otel.SetTracerProvider'' [tracerProvider]) (\<lambda>_.
        sbind (call0 ''otel.SetTextMapPropagator'' [GStr ''TraceContext'']) (\<lambda>_.
        sbind log_endpoint (\<lambda>_. sret (Shutdown tracerProvider)))))))))
       (\<lambda>_. sret No_shutdown))))"

definition InitOTLPProvider :: "shutdown prog" where
  "InitOTLPProvider =
     sbind (os_Getenv ''OTEL_EXPORTER_OTLP_ENDPOINT'') (\<lambda>endpoint.
       if endpoint \<noteq> [] then
         sbind (os_Getenv ''HOST_IP'') (\<lambda>hostIp.
         sbind (os_Setenv ''OTEL_EXPORTER_OTLP_ENDPOINT'' (replace_first ''$(HOST_IP)'' hostIp endpoint)) (\<lambda>_.
         initOTLP))
       else sret No_shutdown)"

text \<open>\<^verbatim>\<open>shutdown := InitOTLPProvider(log); defer shutdown(); m\<close>\<close>

definition with_telemetry :: "unit prog \<Rightarrow> unit prog" where
  "with_telemetry m = sbind InitOTLPProvider (\<lambda>shutdown. deferred (run_shutdown shutdown) m)"

section \<open>Lemmas\<close>

definition occurs_at :: "string \<Rightarrow> string \<Rightarrow> nat \<Rightarrow> bool" where
  "occurs_at old s i \<longleftrightarrow> take (length old) (drop i s) = old"

lemma replace_first_at:
  assumes "old \<noteq> []" "\<forall>i<length a. \<not> occurs_at old (a @ old @ b) i"
  shows "replace_first old new (a @ old @ b) = a @ new @ b"
  using assms(2) unfolding occurs_at_def
proof (induction a)
  case Nil
  obtain c s where "old = c # s" using assms(1) by (cases old) auto
  then show ?case by simp
next
  case (Cons x a)
  have "take (length old) (x # a @ old @ b) \<noteq> old" using Cons.prems by force
  moreover have "\<forall>i<length a. take (length old) (drop i (a @ old @ b)) \<noteq> old"
    using Cons.prems by (metis (no_types, lifting) Suc_less_eq append_Cons drop_Suc_Cons length_Cons)
  ultimately show ?case using Cons.IH by simp
qed

lemma replace_first_none:
  assumes "\<forall>i<length s. \<not> occurs_at old s i"
  shows "replace_first old new s = s"
  using assms unfolding occurs_at_def
proof (induction s)
  case (Cons x s)
  have "take (length old) (x # s) \<noteq> old" using Cons.prems by force
  moreover have "\<forall>i<length s. take (length old) (drop i s) \<noteq> old"
    using Cons.prems by (metis (no_types, lifting) Suc_less_eq drop_Suc_Cons length_Cons)
  ultimately show ?case using Cons.IH by simp
qed simp

text \<open>The set-up leaves the environment alone, never fails, and returns the shutdown of what it set up.\<close>

lemma initOTLP_result:
  assumes "\<forall>k p. pr_answers w k \<noteq> Panic p"
  obtains w' s where "initOTLP w = (w', Ret s)" "pr_env w' = pr_env w" "pr_answers w' = pr_answers w"
proof -
  have "\<exists>w' s. initOTLP w = (w', Ret s) \<and> pr_env w' = pr_env w \<and> pr_answers w' = pr_answers w"
    using assms
    by (auto simp: initOTLP_def os_Getenv_def log_endpoint_def prog_defs req_emit_def split: outcome.split)
  with that show ?thesis by blast
qed

text \<open>
  Telemetry never stops a command: whatever the SDK answers, short of a panic, the command runs
  and ends as it would have, and a provider that was set up is shut down last of all if the command returns.
\<close>

lemma telemetry_is_optional:
  assumes "\<forall>k p. pr_answers w k \<noteq> Panic p" "calls_only P m"
  shows "\<exists>w1 s. InitOTLPProvider w = (w1, Ret s) \<and> snd (with_telemetry m w) = snd (m w1)
    \<and> pr_calls (fst (with_telemetry m w)) = pr_calls (fst (m w1))
        @ (case s of No_shutdown \<Rightarrow> [] | Shutdown p \<Rightarrow> if no_return (snd (m w1)) then [] else [(''TracerProvider.Shutdown'', [p])])"
proof -
  let ?v = "''OTEL_EXPORTER_OTLP_ENDPOINT''"
  let ?w = "w\<lparr>pr_env := (pr_env w)(?v := replace_first ''$(HOST_IP)'' (pr_env w ''HOST_IP'') (pr_env w ?v))\<rparr>"
  obtain w1 s where i: "InitOTLPProvider w = (w1, Ret s)" "pr_answers w1 = pr_answers w"
  proof (cases "pr_env w ?v = []")
    case True
    then show ?thesis using that by (simp add: InitOTLPProvider_def os_Getenv_def prog_defs)
  next
    case False
    then have "InitOTLPProvider w = initOTLP ?w" by (simp add: InitOTLPProvider_def os_Getenv_def os_Setenv_def prog_defs)
    moreover obtain w1 s where "initOTLP ?w = (w1, Ret s)" "pr_answers w1 = pr_answers ?w"
      by (rule initOTLP_result[of ?w]) (use assms(1) in auto)
    ultimately show ?thesis using that by simp
  qed
  obtain w2 r where m: "m w1 = (w2, r)" by fastforce
  have "pr_answers w2 = pr_answers w" using calls_only_answers[OF assms(2) m] i(2) by simp
  with assms(1) have n: "pr_answers w2 k \<noteq> Panic p" for k p by simp
  have shut: "\<exists>w3. run_shutdown s w2 = (w3, Ret ()) \<and> pr_calls w3 = pr_calls w2
      @ (case s of No_shutdown \<Rightarrow> [] | Shutdown p \<Rightarrow> [(''TracerProvider.Shutdown'', [p])])"
  proof (cases s)
    case (Shutdown p)
    then show ?thesis
      by (cases "pr_answers w2 (length (pr_calls w2))") (simp_all add: n run_shutdown_def prog_defs req_emit_def)
  qed (simp add: run_shutdown_def prog_defs)
  from shut i(1) m show ?thesis by (auto simp: with_telemetry_def sbind_def deferred_def split: shutdown.split)
qed

section \<open>Properties\<close>

text \<open>
  C30. The first placeholder \<^verbatim>\<open>$(HOST_IP)\<close> of the exporter's endpoint is replaced by the address of the
  node in the environment of the process, and nothing else of the environment changes; an endpoint
  without a placeholder stays as it is, and without an endpoint nothing happens at all.
\<close>

theorem host_ip_is_filled_in:
  assumes "\<forall>k p. pr_answers w k \<noteq> Panic p"
  shows "(pr_env w ''OTEL_EXPORTER_OTLP_ENDPOINT'' = [] \<longrightarrow> InitOTLPProvider w = (w, Ret No_shutdown))
    \<and> (\<forall>a b. pr_env w ''OTEL_EXPORTER_OTLP_ENDPOINT'' = a @ ''$(HOST_IP)'' @ b
        \<and> (\<forall>i<length a. \<not> occurs_at ''$(HOST_IP)'' (a @ ''$(HOST_IP)'' @ b) i) \<longrightarrow>
        pr_env (fst (InitOTLPProvider w)) = (pr_env w)(''OTEL_EXPORTER_OTLP_ENDPOINT'' := a @ pr_env w ''HOST_IP'' @ b))
    \<and> ((\<forall>i<length (pr_env w ''OTEL_EXPORTER_OTLP_ENDPOINT'').
          \<not> occurs_at ''$(HOST_IP)'' (pr_env w ''OTEL_EXPORTER_OTLP_ENDPOINT'') i) \<longrightarrow>
        pr_env (fst (InitOTLPProvider w)) = pr_env w)"
proof -
  let ?v = "''OTEL_EXPORTER_OTLP_ENDPOINT''" and ?old = "''$(HOST_IP)''"
  let ?w = "w\<lparr>pr_env := (pr_env w)(?v := replace_first ?old (pr_env w ''HOST_IP'') (pr_env w ?v))\<rparr>"
  have empty: "pr_env w ?v = [] \<Longrightarrow> InitOTLPProvider w = (w, Ret No_shutdown)"
    by (simp add: InitOTLPProvider_def os_Getenv_def prog_defs)
  have run: "pr_env w ?v \<noteq> [] \<Longrightarrow> InitOTLPProvider w = initOTLP ?w"
    by (simp add: InitOTLPProvider_def os_Getenv_def os_Setenv_def prog_defs)
  have "pr_env (fst (initOTLP ?w)) = pr_env ?w" by (rule initOTLP_result[of ?w]) (use assms in auto)
  then have env: "pr_env (fst (InitOTLPProvider w)) =
      (pr_env w)(?v := replace_first ?old (pr_env w ''HOST_IP'') (pr_env w ?v))" if "pr_env w ?v \<noteq> []"
    using run[OF that] by simp
  have at: "replace_first ?old (pr_env w ''HOST_IP'') (a @ ?old @ b) = a @ pr_env w ''HOST_IP'' @ b"
    if "\<forall>i<length a. \<not> occurs_at ?old (a @ ?old @ b) i" for a b
    by (rule replace_first_at) (use that in auto)
  have none: "replace_first ?old (pr_env w ''HOST_IP'') s = s" if "\<forall>i<length s. \<not> occurs_at ?old s i" for s
    by (rule replace_first_none) (use that in blast)
  show ?thesis
  proof (intro conjI impI allI)
    show "pr_env (fst (InitOTLPProvider w)) = (pr_env w)(?v := a @ pr_env w ''HOST_IP'' @ b)"
      if "pr_env w ?v = a @ ?old @ b \<and> (\<forall>i<length a. \<not> occurs_at ?old (a @ ?old @ b) i)" for a b
      using that env at[of a b] by simp
    show "pr_env (fst (InitOTLPProvider w)) = pr_env w" if "\<forall>i<length (pr_env w ?v). \<not> occurs_at ?old (pr_env w ?v) i"
      using env none[OF that] empty by (cases "pr_env w ?v = []") auto
  qed (rule empty)
qed

theorem host_ip_is_filled_in_witness:
  "pr_env (fst (InitOTLPProvider (idle_process\<lparr>pr_env := \<lambda>k. if k = ''HOST_IP'' then ''10.0.0.1''
      else if k = ''OTEL_EXPORTER_OTLP_ENDPOINT'' then ''http://$(HOST_IP):4318'' else []\<rparr>))) ''OTEL_EXPORTER_OTLP_ENDPOINT''
    = ''http://10.0.0.1:4318''"
proof -
  let ?env = "\<lambda>k. if k = ''HOST_IP'' then ''10.0.0.1'' else if k = ''OTEL_EXPORTER_OTLP_ENDPOINT'' then ''http://$(HOST_IP):4318'' else []"
  have "\<forall>k p. pr_answers (idle_process\<lparr>pr_env := ?env\<rparr>) k \<noteq> Panic p" by (simp add: idle_process_def)
  note f = host_ip_is_filled_in[OF this, THEN conjunct2, THEN conjunct1, rule_format, of "''http://''" "'':4318''"]
  have "\<forall>i<7. \<not> occurs_at ''$(HOST_IP)'' ''http://$(HOST_IP):4318'' i"
    by (simp add: occurs_at_def eval_nat_numeral All_less_Suc2)
  then show ?thesis using f by simp
qed

end
