(* ===== verification/Server.thy ===== *)
theory Server
  imports Background Telemetry
begin

text \<open>
  The server command (\<^verbatim>\<open>cmd/chaosmania/server.go\<close>): the handler that decodes, verifies and
  executes a workload, the routes of its three modes, and the start of the server with the
  loading of its services. What \<^verbatim>\<open>net/http\<close>
  does around a handler is the function \<open>http_serve\<close>.
\<close>

section \<open>Answering\<close>

definition set_status :: "int \<Rightarrow> unit prog" where
  "set_status code =
     sbind (env pr_writer) (\<lambda>val.
       case val of
         None \<Rightarrow> lift_out (Panic NilDereference)
       | Some rs \<Rightarrow> sbind (lift_out (WriteHeader code rs)) (\<lambda>rs'. change (\<lambda>w. w\<lparr>pr_writer := Some rs'\<rparr>)))"

definition write_body :: "string \<Rightarrow> unit prog" where
  "write_body s = change (\<lambda>w. w\<lparr>pr_writer := map_option (Write s) (pr_writer w)\<rparr>)"

definition answer_error :: "int \<Rightarrow> string \<Rightarrow> unit prog" where
  "answer_error code s = sbind (set_status code) (\<lambda>_. write_body s)"

text \<open>
  A handler runs with a fresh response. A panic in it aborts the connection and nothing else,
  unlike the fatal error of a mutex and a panic in a goroutine of its own, which end the process.
\<close>

datatype served = Answer int string | Aborted | ProcessEnds | Hanging

definition http_serve :: "unit prog \<Rightarrow> process \<Rightarrow> process \<times> served" where
  "http_serve handler w =
     (case handler (w\<lparr>pr_writer := Some \<lparr>rs_status = None, rs_body = []\<rparr>\<rparr>) of
        (w1, r) \<Rightarrow>
          (w1, if pr_dying w1 \<noteq> None \<or> r = Panic FatalUnlock then ProcessEnds
             else if r = Panic Blocked then Hanging
             else case r of
               Panic p \<Rightarrow> Aborted
             | _ \<Rightarrow> (case pr_writer w1 of
                   None \<Rightarrow> Aborted
                 | Some rs \<Rightarrow> Answer (case rs_status rs of None \<Rightarrow> 200 | Some code \<Rightarrow> code) (rs_body rs))))"

section \<open>Requests\<close>

text \<open>The body of a request is the JSON document the decoder reads, if it is one.\<close>

definition decode_request :: "json option \<Rightarrow> Workload outcome" where
  "decode_request body =
     (case body of
        None \<Rightarrow> Err (EExt ''json: invalid syntax'')
      | Some j \<Rightarrow> (case decode_struct workload_fields workload_zero j of None \<Rightarrow> Err unmarshal_error | Some wl \<Rightarrow> Ret wl))"

definition handle_post :: "platform \<Rightarrow> json option \<Rightarrow> unit prog" where
  "handle_post pf body =
     sbind time_Now (\<lambda>start.
     (case decode_request body of
        Panic p \<Rightarrow> lift_out (Panic p)
      | Err e \<Rightarrow> answer_error 400 (''error: '' @ error_text e)
      | Ret workload \<Rightarrow>
          (case Workload_Verify (ACTIONS pf) workload of
             Panic p \<Rightarrow> lift_out (Panic p)
           | Err e \<Rightarrow> answer_error 400 (''error: '' @ error_text e)
           | Ret _ \<Rightarrow>
               (\<lambda>w. case Workload_Execute (ACTIONS pf) w workload of
                  (w1, Panic p) \<Rightarrow> (w1, Panic p)
                | (w1, Err e) \<Rightarrow> answer_error 500 (''workload error: '' @ error_text e) w1
                | (w1, Ret _) \<Rightarrow>
                    sbind (write_body '' '') (\<lambda>_.
                    sbind time_Now (\<lambda>_. call0 ''processedTransactionDuration.Observe'' [])) w1))))"

definition handleRequests :: "platform \<Rightarrow> string \<Rightarrow> json option \<Rightarrow> unit prog" where
  "handleRequests pf meth body =
     (if meth = ''POST'' then handle_post pf body else answer_error 405 ''Error: Method not allowed'')"

definition handleHealth :: "unit prog" where
  "handleHealth = set_status 200"

section \<open>Routes\<close>

datatype handler = Requests | Health | Pprof string | Metrics

definition common_routes :: "(string \<times> handler) list" where
  "common_routes = [(''/debug/pprof/'', Pprof ''Index''), (''/debug/pprof/profile'', Pprof ''Profile''),
     (''/debug/pprof/symbol'', Pprof ''Symbol''), (''/debug/pprof/trace'', Pprof ''Trace''), (''/metrics'', Metrics)]"

definition run_routes :: "(string \<times> handler) list" where
  "run_routes = (''/'', Requests) # (''/health'', Health) # (''/ready'', Health) # common_routes"

definition otel_routes :: "(string \<times> handler) list" where
  "otel_routes = (''/'', Requests) # (''/health'', Health) # common_routes"

definition datadog_routes :: "(string \<times> handler) list" where
  "datadog_routes = (''/'', Requests) # (''/health'', Health) # common_routes"

text \<open>The requests for which the OpenTelemetry handler makes a span.\<close>

definition otel_filter :: "string \<Rightarrow> bool" where
  "otel_filter path \<longleftrightarrow> path \<noteq> ''/health'' \<and> path \<noteq> ''/metrics'' \<and> path \<noteq> ''/debug/pprof/'' \<and> path \<noteq> ''/debug/pprof/profile''
     \<and> path \<noteq> ''/debug/pprof/symbol'' \<and> path \<noteq> ''/debug/pprof/trace''"

text \<open>\<^verbatim>\<open>http.ServeMux\<close>: the path itself, or else the longest pattern with a final slash that is a prefix of it.\<close>

definition is_prefix :: "string \<Rightarrow> string \<Rightarrow> bool" where
  "is_prefix p s \<longleftrightarrow> take (length p) s = p"

fun longest :: "(string \<times> handler) list \<Rightarrow> (string \<times> handler) option" where
  "longest [] = None"
| "longest ((p, h) # rs) =
     (case longest rs of None \<Rightarrow> Some (p, h) | Some (q, g) \<Rightarrow> if length q < length p then Some (p, h) else Some (q, g))"

definition mux_handler :: "(string \<times> handler) list \<Rightarrow> string \<Rightarrow> handler option" where
  "mux_handler routes path =
     (case map_of routes path of
        Some h \<Rightarrow> Some h
      | None \<Rightarrow> map_option snd (longest (filter (\<lambda>(p, h). p \<noteq> [] \<and> last p = CHR ''/'' \<and> is_prefix p path) routes)))"

definition dispatch :: "platform \<Rightarrow> handler option \<Rightarrow> string \<Rightarrow> json option \<Rightarrow> unit prog" where
  "dispatch pf h meth body =
     (case h of
        Some Requests \<Rightarrow> handleRequests pf meth body
      | Some Health \<Rightarrow> handleHealth
      | Some (Pprof n) \<Rightarrow> call0 ''pprof'' [GStr n]
      | Some Metrics \<Rightarrow> call0 ''promhttp'' []
      | None \<Rightarrow> answer_error 404 ''404 page not found'')"

section \<open>Servers\<close>

text \<open>
  An HTTP server: its address, its mux, and the requests that the wrapper around the mux, if there
  is one, makes a span for.
\<close>

record http_server =
  srv_Addr :: string
  srv_Mux :: "(string \<times> handler) list"
  srv_Spans :: "string \<Rightarrow> bool"

definition server_addr :: "int \<Rightarrow> string" where
  "server_addr port = '':'' @ itoa port"

definition plain_server :: "int \<Rightarrow> http_server" where
  "plain_server port = \<lparr>srv_Addr = server_addr port, srv_Mux = run_routes, srv_Spans = (\<lambda>_. False)\<rparr>"

definition otel_server :: "int \<Rightarrow> http_server" where
  "otel_server port = \<lparr>srv_Addr = server_addr port, srv_Mux = otel_routes, srv_Spans = otel_filter\<rparr>"

definition datadog_server :: "int \<Rightarrow> http_server" where
  "datadog_server port = \<lparr>srv_Addr = server_addr port, srv_Mux = datadog_routes, srv_Spans = (\<lambda>_. True)\<rparr>"

text \<open>The goroutine that listens, and its start.\<close>

definition listen_goroutine :: "int \<Rightarrow> http_server \<Rightarrow> unit prog" where
  "listen_goroutine port server =
     sbind (say Info (''listening at '' @ itoa port)) (\<lambda>_.
     on_err (sbind (lib ''ListenAndServe'' [GStr (srv_Addr server)]) (\<lambda>_. sret ())) (\<lambda>e. say Warn ''webserver error''))"

definition go_listen :: "http_server \<Rightarrow> unit prog" where
  "go_listen server = trace_call ''go ListenAndServe'' [GStr (srv_Addr server), GList (map (\<lambda>(p, h). GStr p) (srv_Mux server))]"

definition run_server :: "int \<Rightarrow> unit prog" where
  "run_server port = go_listen (plain_server port)"

definition runWithOTEL :: "int \<Rightarrow> unit prog" where
  "runWithOTEL port = go_listen (otel_server port)"

definition runWithDatadog :: "int \<Rightarrow> unit prog" where
  "runWithDatadog port = go_listen (datadog_server port)"

definition server_of :: "(string \<Rightarrow> string) \<Rightarrow> int \<Rightarrow> http_server" where
  "server_of getenv port =
     (if IsDatadogEnabled getenv then datadog_server port else if IsOpenTelemetryEnabled getenv then otel_server port else plain_server port)"

definition serve_request :: "platform \<Rightarrow> http_server \<Rightarrow> string \<Rightarrow> string \<Rightarrow> json option \<Rightarrow> process \<Rightarrow> process \<times> served" where
  "serve_request pf server meth path body =
     http_serve
       (let handle = dispatch pf (mux_handler (srv_Mux server) path) meth body in
        if srv_Spans server path then
          with_span (start_span ''Tracer.Start'' [GStr path]) (\<lambda>span. Span_End span) (\<lambda>_. handle)
        else handle)"

section \<open>The command\<close>

text \<open>\<^verbatim>\<open>os.IsNotExist\<close> distinguishes two kinds of errors that are treated alike.\<close>

definition fileExists :: "string \<Rightarrow> bool prog" where
  "fileExists filepath = on_err (sbind (lib ''os.Stat'' [GStr filepath]) (\<lambda>_. sret True)) (\<lambda>_. sret False)"

definition signal_goroutine :: "unit prog" where
  "signal_goroutine =
     sbind (lib0 ''receive sigs'' []) (\<lambda>sig. sbind (say Info ''received signal'') (\<lambda>_. trace_call ''close stop'' []))"

definition load_or_warn :: "string \<Rightarrow> string \<Rightarrow> unit prog \<Rightarrow> unit prog" where
  "load_or_warn path missing load =
     sbind (fileExists path) (\<lambda>there.
       if there then or_warn ''failed to load services'' load else say Warn missing)"

definition wait_for_stop :: "unit prog" where
  "wait_for_stop = call0 ''receive stop'' []"

definition run_mode :: "int \<Rightarrow> unit prog" where
  "run_mode port =
     sbind (env pr_env) (\<lambda>getenv.
       if IsDatadogEnabled getenv then
         sbind (trace_call ''tracer.Start'' []) (\<lambda>_.
         deferred (trace_call ''tracer.Stop'' []) (sbind (runWithDatadog port) (\<lambda>_. wait_for_stop)))
       else if IsOpenTelemetryEnabled getenv then
         with_telemetry (sbind (runWithOTEL port) (\<lambda>_. wait_for_stop))
       else sbind (run_server port) (\<lambda>_. wait_for_stop))"

definition command_server :: "((string \<times> service) list \<Rightarrow> string list) \<Rightarrow> int \<Rightarrow> unit prog" where
  "command_server order port =
     sbind (trace_call ''signal.Notify'' [GStr ''SIGINT'', GStr ''SIGTERM'']) (\<lambda>_.
     sbind (load_or_warn ''/etc/chaosmania/services.yaml'' ''no services.yaml found, not loading any services''
        (ServiceManager_LoadFromFile SERVICE_TYPES ''/etc/chaosmania/services.yaml'')) (\<lambda>_.
     sbind (load_or_warn ''/etc/chaosmania/background_services.yaml'' ''no background_services.yaml found, not loading any services''
        (BackgroundServiceManager_LoadFromFile BACKGROUND_SERVICE_TYPES ''/etc/chaosmania/background_services.yaml'')) (\<lambda>_.
     deferred (trace_call ''cancel'' [])
       (sbind (BackgroundServiceManager_Run order) (\<lambda>_.
        sbind (trace_call ''prometheus.Unregister'' []) (\<lambda>_.
        sbind (call0 ''prometheus.MustRegister'' []) (\<lambda>_. run_mode port)))))))"

lemma answer_error_fresh:
  assumes "pr_writer w = Some \<lparr>rs_status = None, rs_body = []\<rparr>" "200 \<le> code" "code \<le> 999" "body_allowed code"
  shows "answer_error code s w = (w\<lparr>pr_writer := Some \<lparr>rs_status = Some code, rs_body = s\<rparr>\<rparr>, Ret ())"
  using assms by (simp add: answer_error_def set_status_def write_body_def prog_defs WriteHeader_def Write_def)

section \<open>Properties\<close>

text \<open>
  C7. A workload that cannot be decoded or does not verify is answered with status 400 and the
  error, and nothing of it is executed: no library is called, nothing is printed or logged, no
  lock changes hands and no memory is leaked.
\<close>

theorem bad_workload_is_refused:
  assumes "decode_request body = Err e \<or> (\<exists>wl. decode_request body = Ret wl \<and> Workload_Verify (ACTIONS pf) wl = Err e)"
    and "pr_dying w = None"
  shows "\<exists>w'. http_serve (handleRequests pf ''POST'' body) w = (w', Answer 400 (''error: '' @ error_text e))
    \<and> w' = w\<lparr>pr_reads := Suc (pr_reads w), pr_writer := Some \<lparr>rs_status = Some 400, rs_body = ''error: '' @ error_text e\<rparr>\<rparr>"
proof -
  let ?w = "w\<lparr>pr_writer := Some \<lparr>rs_status = None, rs_body = []\<rparr>, pr_reads := Suc (pr_reads w)\<rparr>"
  have "handleRequests pf ''POST'' body (w\<lparr>pr_writer := Some \<lparr>rs_status = None, rs_body = []\<rparr>\<rparr>)
      = answer_error 400 (''error: '' @ error_text e) ?w"
    using assms(1) by (auto simp: handleRequests_def handle_post_def sbind_def time_Now_def)
  moreover have "body_allowed 400" by (simp add: body_allowed_def)
  ultimately show ?thesis using assms(2) by (simp add: http_serve_def answer_error_fresh)
qed

theorem bad_workload_is_refused_witness:
  "\<exists>w'. http_serve (handleRequests demo_platform ''POST'' (Some (JObj [(''actions'', JArr [JObj [(''name'', JStr ''Nap'')]])]))) idle_process
     = (w', Answer 400 ''error: Unknown action: Nap'')"
proof -
  let ?body = "Some (JObj [(''actions'', JArr [JObj [(''name'', JStr ''Nap'')]])])"
  have d: "decode_request ?body = Ret \<lparr>WorkloadActions = [\<lparr>Name = ''Nap'', Config = []\<rparr>]\<rparr>"
    by (simp add: decode_request_def workload_fields_def workload_zero_def action_fields_def action_zero_def find_field_def fld_def)
  have v: "Workload_Verify (ACTIONS demo_platform) \<lparr>WorkloadActions = [\<lparr>Name = ''Nap'', Config = []\<rparr>]\<rparr> = Err (EText ''Unknown action: Nap'')"
    by (simp add: Workload_Verify_def ACTIONS_def table_with_lookup plain_actions_def)
  have "\<exists>w'. http_serve (handleRequests demo_platform ''POST'' ?body) idle_process =
      (w', Answer 400 (''error: '' @ error_text (EText ''Unknown action: Nap'')))"
    using bad_workload_is_refused[of ?body "EText ''Unknown action: Nap''" demo_platform idle_process] d v by auto
  then show ?thesis by simp
qed

text \<open>
  C8. A workload that fails is answered with status 500 and its error only while no action has
  answered: after an \<^verbatim>\<open>HTTPResponse\<close> the status of that action stands, and the failure shows in the
  body alone, if the status allows one.
\<close>

theorem failed_workload_status:
  assumes "decode_request body = Ret wl" "Workload_Verify (ACTIONS pf) wl = Ret ()"
    and "Workload_Execute (ACTIONS pf) (w\<lparr>pr_writer := Some \<lparr>rs_status = None, rs_body = []\<rparr>, pr_reads := Suc (pr_reads w)\<rparr>) wl = (w1, Err e)"
    and "pr_writer w1 = Some rs" "pr_dying w1 = None"
  shows "snd (http_serve (handleRequests pf ''POST'' body) w) =
    (case rs_status rs of
       None \<Rightarrow> Answer 500 (rs_body rs @ ''workload error: '' @ error_text e)
     | Some code \<Rightarrow> Answer code (if body_allowed code then rs_body rs @ ''workload error: '' @ error_text e else rs_body rs))"
proof -
  have "handleRequests pf ''POST'' body (w\<lparr>pr_writer := Some \<lparr>rs_status = None, rs_body = []\<rparr>\<rparr>)
      = answer_error 500 (''workload error: '' @ error_text e) w1"
    using assms(1-3) by (simp add: handleRequests_def handle_post_def sbind_def time_Now_def)
  then show ?thesis
    using assms(4,5) by (cases "rs_status rs")
      (auto simp: http_serve_def answer_error_def set_status_def write_body_def prog_defs WriteHeader_def Write_def Let_def body_allowed_def)
qed

theorem failed_workload_status_witness:
  "snd (http_serve (handleRequests demo_platform ''POST'' (Some (JObj [(''actions'', JArr
      [JObj [(''name'', JStr ''HTTPResponse''), (''config'', JObj [(''statusCode'', JNum 201)])], JObj [(''name'', JStr ''Script'')]])]))) idle_process)
    = Answer 201 ''workload error: failed to get run function''"
proof -
  let ?body = "Some (JObj [(''actions'', JArr
      [JObj [(''name'', JStr ''HTTPResponse''), (''config'', JObj [(''statusCode'', JNum 201)])], JObj [(''name'', JStr ''Script'')]])])"
  let ?wl = "\<lparr>WorkloadActions = [\<lparr>Name = ''HTTPResponse'', Config = [(''statusCode'', GFloat 201)]\<rparr>, \<lparr>Name = ''Script'', Config = []\<rparr>]\<rparr>"
  have d: "decode_request ?body = Ret ?wl"
    by (simp add: decode_request_def workload_fields_def workload_zero_def action_fields_def action_zero_def find_field_def fld_def)
  have v: "Workload_Verify (ACTIONS demo_platform) ?wl = Ret ()"
    by (simp add: Workload_Verify_def ACTIONS_def table_with_lookup plain_actions_def entry_def parse_only_def parse_eval
        response_fields_def response_zero_def script_fields_def script_zero_def is_i64_def)
  obtain w1 where x: "Workload_Execute (ACTIONS demo_platform)
      (idle_process\<lparr>pr_writer := Some \<lparr>rs_status = None, rs_body = []\<rparr>, pr_reads := Suc (pr_reads idle_process)\<rparr>) ?wl
      = (w1, Err (EText ''failed to get run function''))" "pr_writer w1 = Some \<lparr>rs_status = Some 201, rs_body = []\<rparr>" "pr_dying w1 = None"
    by (simp add: Workload_Execute_def ACTIONS_def table_with_lookup plain_actions_def entry_def parse_only_def parse_eval
        response_fields_def response_zero_def script_fields_def script_zero_def HTTPResponse_Execute_def
        Script_Execute_def demo_platform_def prog_defs go_simps WriteHeader_def is_i64_def Let_def req_emit_def)
  show ?thesis using failed_workload_status[OF d v x] by (simp add: body_allowed_def)
qed

text \<open>
  The readiness probe depends on tracing: \<^verbatim>\<open>GET /ready\<close> is answered with 200 by an untraced
  server, and with 405 as soon as Datadog or OpenTelemetry is enabled, where no route is
  registered for it and the request falls through to the workload handler; \<^verbatim>\<open>/health\<close> is
  answered with 200 in every mode.
\<close>

theorem ready_only_without_tracing:
  assumes "pr_dying w = None"
  shows "snd (serve_request pf (server_of getenv port) ''GET'' ''/health'' body w) = Answer 200 []
    \<and> snd (serve_request pf (server_of getenv port) ''GET'' ''/ready'' body w) =
        (if IsDatadogEnabled getenv \<or> IsOpenTelemetryEnabled getenv then Answer 405 ''Error: Method not allowed'' else Answer 200 [])"
proof -
  let ?w = "w\<lparr>pr_writer := Some \<lparr>rs_status = None, rs_body = []\<rparr>\<rparr>"
  have h: "mux_handler (srv_Mux (server_of getenv port)) ''/health'' = Some Health"
    by (simp add: server_of_def plain_server_def otel_server_def datadog_server_def mux_handler_def datadog_routes_def otel_routes_def run_routes_def)
  have r: "mux_handler (srv_Mux (server_of getenv port)) ''/ready'' =
      Some (if IsDatadogEnabled getenv \<or> IsOpenTelemetryEnabled getenv then Requests else Health)"
    by (simp add: server_of_def plain_server_def otel_server_def datadog_server_def mux_handler_def datadog_routes_def otel_routes_def run_routes_def common_routes_def is_prefix_def)
  have "body_allowed 405" by (simp add: body_allowed_def)
  then show ?thesis
    using assms unfolding serve_request_def h r
    by (simp add: dispatch_def http_serve_def handleRequests_def handleHealth_def answer_error_fresh with_span_def start_span_def
        sbind_def deferred_def Let_def)
      (simp add: set_status_def prog_defs WriteHeader_def)
qed

end
