(* ===== verification/Startup.thy ===== *)
theory Startup
  imports Server
begin

text \<open>
  What a server does from its start to its first request: it loads its services, starts those in
  the background and listens. The properties are about \<open>command_server\<close> as a whole, with the tables of
  services it is built with.
\<close>

section \<open>Starting does not touch the environment\<close>

definition keeps_env :: "'a prog \<Rightarrow> bool" where
  "keeps_env m \<longleftrightarrow> (\<forall>w. pr_env (fst (m w)) = pr_env w)"

named_theorems env_rules \<open>programs that leave the environment alone\<close>

lemma keeps_envD: "keeps_env m \<Longrightarrow> m w = (w', r) \<Longrightarrow> pr_env w' = pr_env w"
  unfolding keeps_env_def by (metis fst_conv)

lemma keeps_env_makes: "makes P m \<Longrightarrow> keeps_env m"
  by (simp add: makes_def keeps_env_def)

lemma keeps_env_sbind [env_rules]:
  assumes "keeps_env m" "\<And>x. keeps_env (f x)"
  shows "keeps_env (sbind m f)"
  unfolding keeps_env_def
proof
  fix w
  obtain w1 r where m: "m w = (w1, r)" by fastforce
  show "pr_env (fst (sbind m f w)) = pr_env w"
    using keeps_envD[OF assms(1) m] m assms(2) by (cases r) (simp_all add: sbind_def keeps_env_def)
qed

lemma keeps_env_on_err [env_rules]:
  assumes "keeps_env m" "\<And>e. keeps_env (h e)"
  shows "keeps_env (on_err m h)"
  unfolding keeps_env_def
proof
  fix w
  obtain w1 r where m: "m w = (w1, r)" by fastforce
  show "pr_env (fst (on_err m h w)) = pr_env w"
    using keeps_envD[OF assms(1) m] m assms(2) by (cases r) (simp_all add: on_err_def keeps_env_def)
qed

lemma keeps_env_basic [env_rules]: "keeps_env (sret x)" "keeps_env (lift_out r)" "keeps_env (lib f args)" "keeps_env (lib0 f args)"
  "keeps_env (call0 f args)" "keeps_env (say l msg)" "keeps_env (print_out s)" "keeps_env (env g)" "keeps_env (trace_call f args)"
  by (auto simp: keeps_env_def prog_defs trace_call_def req_emit_def split: outcome.split)

lemma keeps_env_change [env_rules]: "(\<And>w. pr_env (g w) = pr_env w) \<Longrightarrow> keeps_env (change g)"
  by (simp add: keeps_env_def change_def)

lemma keeps_env_if [env_rules]: "(b \<Longrightarrow> keeps_env m) \<Longrightarrow> (\<not> b \<Longrightarrow> keeps_env m') \<Longrightarrow> keeps_env (if b then m else m')"
  by simp

lemma keeps_env_option [env_rules]:
  "keeps_env m \<Longrightarrow> (\<And>x. v = Some x \<Longrightarrow> keeps_env (f x)) \<Longrightarrow> keeps_env (case v of None \<Rightarrow> m | Some x \<Rightarrow> f x)"
  by (cases v) auto

section \<open>What loading calls\<close>

abbreviation listen :: string where
  "listen \<equiv> ''go ListenAndServe''"

definition quiet :: "call \<Rightarrow> bool" where
  "quiet c \<longleftrightarrow> fst c \<noteq> listen"

lemma calls_registering: "calls_only quiet (open_registered driver dsn opts)" "calls_only quiet (make_buckets client bs)"
  "calls_only quiet new_amqp"
proof -
  show "calls_only quiet (open_registered driver dsn opts)"
    unfolding open_registered_def register_once_def by (intro calls_rules; simp add: quiet_def)
  show "calls_only quiet (make_buckets client bs)"
    by (induction bs) (auto simp: quiet_def intro!: calls_rules)
  show "calls_only quiet new_amqp"
    by (simp add: calls_only_def new_amqp_def)
qed

lemma calls_or_panic: "calls_only P m \<Longrightarrow> calls_only P (or_panic m)"
  unfolding or_panic_def by (intro calls_rules)

lemma calls_sql_constructors: "calls_only quiet (mysql_constructor n m)" "calls_only quiet (postgresql_constructor n m)"
  "calls_only quiet (redis_constructor n m)"
  unfolding mysql_constructor_def postgresql_constructor_def redis_constructor_def NewMysqlService_def NewPostgresqlService_def
    NewRedisService_def openMysql_def open_postgres_traced_def openPostgres_def db_call_def
  by (intro calls_rules calls_or_panic calls_registering; simp add: quiet_def)+

lemma calls_queue_constructors: "calls_only quiet (minio_constructor n m)" "calls_only quiet (rabbit_producer_constructor n m)"
  "calls_only quiet (kafka_producer_constructor n m)" "calls_only quiet (kafka_consumer_constructor n m)"
  "calls_only quiet (rabbit_consumer_constructor n m)"
  unfolding minio_constructor_def rabbit_producer_constructor_def kafka_producer_constructor_def kafka_consumer_constructor_def
    rabbit_consumer_constructor_def NewMinioService_def NewRabbitMQProducerService_def NewKafkaProducerService_def
    NewKafkaConsumerService_def NewRabbitMQConsumerService_def Let_def
  by (intro calls_rules calls_or_panic calls_registering; simp add: quiet_def)+

lemma calls_constructors: "SERVICE_TYPES t = Some c \<Longrightarrow> calls_only quiet (c n m)"
  "BACKGROUND_SERVICE_TYPES t = Some c \<Longrightarrow> calls_only quiet (c n m)"
  using calls_sql_constructors calls_queue_constructors
  by (auto simp: SERVICE_TYPES_def BACKGROUND_SERVICE_TYPES_def split: if_splits)

lemma constructors_keep_env: "SERVICE_TYPES t = Some c \<Longrightarrow> keeps_env (c n m)" "BACKGROUND_SERVICE_TYPES t = Some c \<Longrightarrow> keeps_env (c n m)"
  using constructors_make[THEN keeps_env_makes] wrappers_make[THEN keeps_env_makes] consumers_make[THEN keeps_env_makes]
  by (auto simp: SERVICE_TYPES_def BACKGROUND_SERVICE_TYPES_def split: if_splits)

lemma load_with_quiet:
  assumes "\<And>t c n m. types t = Some c \<Longrightarrow> calls_only quiet (c n m)" "\<And>s. calls_only quiet (reg s)"
  shows "calls_only quiet (load_with reg missing types ds)"
proof (induction ds)
  case (Cons d ds)
  then show ?case using assms by (cases "types (sd_Type d)") (auto intro!: calls_rules)
qed (auto intro: calls_rules)

lemma load_with_keeps_env:
  assumes "\<And>t c n m. types t = Some c \<Longrightarrow> keeps_env (c n m)" "\<And>s. keeps_env (reg s)"
  shows "keeps_env (load_with reg missing types ds)"
proof (induction ds)
  case (Cons d ds)
  then show ?case using assms by (cases "types (sd_Type d)") (auto intro!: env_rules)
qed (auto intro: env_rules)

lemma registers_quiet: "calls_only quiet (ServiceManager_Register s)" "calls_only quiet (BackgroundServiceManager_Register s)"
  unfolding ServiceManager_Register_def BackgroundServiceManager_Register_def by (intro calls_rules; simp)+

lemma registers_keep_env: "keeps_env (ServiceManager_Register s)" "keeps_env (BackgroundServiceManager_Register s)"
  unfolding ServiceManager_Register_def BackgroundServiceManager_Register_def by (intro env_rules; simp)+

lemma loads_quiet: "calls_only quiet (ServiceManager_LoadFromFile SERVICE_TYPES path)"
  "calls_only quiet (BackgroundServiceManager_LoadFromFile BACKGROUND_SERVICE_TYPES path)"
proof -
  show "calls_only quiet (ServiceManager_LoadFromFile SERVICE_TYPES path)"
    unfolding ServiceManager_LoadFromFile_def load_services_with
    by (intro calls_rules load_with_quiet calls_constructors registers_quiet) (auto simp: quiet_def)
  show "calls_only quiet (BackgroundServiceManager_LoadFromFile BACKGROUND_SERVICE_TYPES path)"
    unfolding BackgroundServiceManager_LoadFromFile_def load_background_with Let_def
    by (intro calls_rules load_with_quiet calls_constructors registers_quiet) (auto simp: quiet_def)
qed

lemma loads_keep_env: "keeps_env (ServiceManager_LoadFromFile SERVICE_TYPES path)"
  "keeps_env (BackgroundServiceManager_LoadFromFile BACKGROUND_SERVICE_TYPES path)"
proof -
  show "keeps_env (ServiceManager_LoadFromFile SERVICE_TYPES path)"
    unfolding ServiceManager_LoadFromFile_def load_services_with
    by (intro env_rules load_with_keeps_env constructors_keep_env registers_keep_env)
  show "keeps_env (BackgroundServiceManager_LoadFromFile BACKGROUND_SERVICE_TYPES path)"
    unfolding BackgroundServiceManager_LoadFromFile_def load_background_with Let_def
    by (intro env_rules load_with_keeps_env constructors_keep_env registers_keep_env)
qed

section \<open>The parts of the command\<close>

definition load_all :: "unit prog" where
  "load_all =
     sbind (trace_call ''signal.Notify'' [GStr ''SIGINT'', GStr ''SIGTERM'']) (\<lambda>_.
     sbind (load_or_warn ''/etc/chaosmania/services.yaml'' ''no services.yaml found, not loading any services''
        (ServiceManager_LoadFromFile SERVICE_TYPES ''/etc/chaosmania/services.yaml'')) (\<lambda>_.
     load_or_warn ''/etc/chaosmania/background_services.yaml'' ''no background_services.yaml found, not loading any services''
        (BackgroundServiceManager_LoadFromFile BACKGROUND_SERVICE_TYPES ''/etc/chaosmania/background_services.yaml'')))"

definition start_all :: "((string \<times> service) list \<Rightarrow> string list) \<Rightarrow> unit prog" where
  "start_all order =
     sbind (BackgroundServiceManager_Run order) (\<lambda>_.
     sbind (trace_call ''prometheus.Unregister'' []) (\<lambda>_. call0 ''prometheus.MustRegister'' []))"

lemma command_server_parts:
  "command_server order port =
     sbind load_all (\<lambda>_. deferred (trace_call ''cancel'' []) (sbind (start_all order) (\<lambda>_. run_mode port)))"
  by (simp add: command_server_def load_all_def start_all_def)

lemma load_or_warn_quiet: "calls_only quiet load \<Longrightarrow> calls_only quiet (load_or_warn path missing load)"
  unfolding load_or_warn_def fileExists_def by (intro calls_rules) (simp_all add: quiet_def)

lemma load_or_warn_keeps_env: "keeps_env load \<Longrightarrow> keeps_env (load_or_warn path missing load)"
  unfolding load_or_warn_def fileExists_def or_warn_def by (intro env_rules)

lemma load_all_quiet: "calls_only quiet load_all"
  unfolding load_all_def by (intro calls_rules load_or_warn_quiet loads_quiet) (simp add: quiet_def)

lemma load_all_keeps_env: "keeps_env load_all"
  unfolding load_all_def by (intro env_rules load_or_warn_keeps_env loads_keep_env)

lemma start_all_quiet: "calls_only quiet (start_all order)"
  unfolding start_all_def BackgroundServiceManager_Run_def by (intro calls_rules) (simp_all add: quiet_def)

lemma start_all_keeps_env: "keeps_env (start_all order)"
  unfolding start_all_def BackgroundServiceManager_Run_def by (intro env_rules) simp

lemma start_all_returns:
  assumes "\<forall>k p. pr_answers w k \<noteq> Panic p"
  shows "snd (start_all order w) = Ret ()"
  using assms by (auto simp: start_all_def BackgroundServiceManager_Run_def prog_defs trace_call_def split: outcome.split)

text \<open>The one listener of a mode.\<close>

definition listens :: "call list \<Rightarrow> call list" where
  "listens cs = filter (\<lambda>c. fst c = listen) cs"

definition listen_call :: "http_server \<Rightarrow> call" where
  "listen_call server = (listen, [GStr (srv_Addr server), GList (map (\<lambda>(p, h). GStr p) (srv_Mux server))])"

lemma listens_simps [simp]: "listens (xs @ ys) = listens xs @ listens ys" "listens [] = []"
  "\<forall>c\<in>set cs. quiet c \<Longrightarrow> listens cs = []" "listens (c # cs) = (if fst c = listen then [c] else []) @ listens cs"
  by (auto simp: listens_def quiet_def filter_empty_conv)

lemma quiet_prog:
  assumes "calls_only quiet m" "m w = (w', r)"
  obtains cs where "pr_calls w' = pr_calls w @ cs" "listens cs = []" "pr_answers w' = pr_answers w"
  using calls_onlyE[OF assms] calls_only_answers[OF assms] by (metis listens_simps(3))

lemma listen_then_wait:
  assumes "\<forall>k p. pr_answers w k \<noteq> Panic p"
  shows "\<exists>cs. sbind (go_listen server) (\<lambda>_. wait_for_stop) w = (w\<lparr>pr_calls := pr_calls w @ listen_call server # cs\<rparr>, Ret ()) \<and> listens cs = []"
  using assms by (auto simp: go_listen_def listen_call_def wait_for_stop_def prog_defs trace_call_def split: outcome.split)

lemma InitOTLPProvider_quiet: "calls_only quiet InitOTLPProvider"
  unfolding InitOTLPProvider_def initOTLP_def log_endpoint_def os_Getenv_def os_Setenv_def
  by (intro calls_rules; simp add: quiet_def)

lemma run_mode_listens:
  assumes "\<forall>k p. pr_answers w k \<noteq> Panic p"
  shows "\<exists>cs. pr_calls (fst (run_mode port w)) = pr_calls w @ cs \<and> listens cs = [listen_call (server_of (pr_env w) port)]
    \<and> snd (run_mode port w) = Ret ()"
proof -
  have lw: "calls_only (\<lambda>_. True) (sbind (go_listen server) (\<lambda>_. wait_for_stop))" for server
    unfolding go_listen_def wait_for_stop_def by (intro calls_rules TrueI)
  consider "IsDatadogEnabled (pr_env w)" | "\<not> IsDatadogEnabled (pr_env w)" "IsOpenTelemetryEnabled (pr_env w)"
    | "\<not> IsDatadogEnabled (pr_env w)" "\<not> IsOpenTelemetryEnabled (pr_env w)" by blast
  then show ?thesis
  proof cases
    case 1
    let ?w = "w\<lparr>pr_calls := pr_calls w @ [(''tracer.Start'', [])]\<rparr>"
    obtain cs where "sbind (go_listen (datadog_server port)) (\<lambda>_. wait_for_stop) ?w
        = (?w\<lparr>pr_calls := pr_calls ?w @ listen_call (datadog_server port) # cs\<rparr>, Ret ())" "listens cs = []"
      using listen_then_wait[of ?w "datadog_server port"] assms by auto
    then show ?thesis using 1
      by (simp add: run_mode_def runWithDatadog_def server_of_def sbind_def[of "trace_call f a" for f a] deferred_def listen_call_def)
  next
    case 2
    let ?m = "sbind (go_listen (otel_server port)) (\<lambda>_. wait_for_stop)"
    obtain w1 s where t: "InitOTLPProvider w = (w1, Ret s)" "snd (with_telemetry ?m w) = snd (?m w1)"
      "pr_calls (fst (with_telemetry ?m w)) = pr_calls (fst (?m w1))
        @ (case s of No_shutdown \<Rightarrow> [] | Shutdown p \<Rightarrow> if no_return (snd (?m w1)) then [] else [(''TracerProvider.Shutdown'', [p])])"
      using telemetry_is_optional[OF assms lw] by blast
    obtain cs0 where i: "pr_calls w1 = pr_calls w @ cs0" "listens cs0 = []" "pr_answers w1 = pr_answers w"
      using InitOTLPProvider_quiet t(1) by (rule quiet_prog)
    obtain cs where "?m w1 = (w1\<lparr>pr_calls := pr_calls w1 @ listen_call (otel_server port) # cs\<rparr>, Ret ())" "listens cs = []"
      using listen_then_wait[of w1 "otel_server port"] assms i(3) by auto
    then show ?thesis using 2 t i
      by (simp add: run_mode_def runWithOTEL_def server_of_def listen_call_def split: shutdown.split)
  next
    case 3
    obtain cs where "sbind (go_listen (plain_server port)) (\<lambda>_. wait_for_stop) w
        = (w\<lparr>pr_calls := pr_calls w @ listen_call (plain_server port) # cs\<rparr>, Ret ())" "listens cs = []"
      using listen_then_wait[OF assms] by blast
    then show ?thesis using 3 by (simp add: run_mode_def run_server_def server_of_def listen_call_def)
  qed
qed

section \<open>Properties\<close>

text \<open>
  C11. A server listens once, with the routes of its tracing mode, and returns without an error, or
  it does not listen at all: when the file of its services or of its background services exists but
  does not load, the command ends where the loading did, with the error of the loading as its result.
\<close>

theorem server_listens_once:
  assumes "command_server order port w = (w', r)" "\<forall>k p. pr_answers w k \<noteq> Panic p"
  shows "\<exists>cs. pr_calls w' = pr_calls w @ cs
    \<and> listens cs = (if r = Ret () then [listen_call (server_of (pr_env w) port)] else [])
    \<and> (r \<noteq> Ret () \<longrightarrow> load_all w = (w', r))"
proof -
  obtain w1 r1 where l: "load_all w = (w1, r1)" by fastforce
  obtain cs1 where c1: "pr_calls w1 = pr_calls w @ cs1" "listens cs1 = []" "pr_answers w1 = pr_answers w"
    using load_all_quiet l by (rule quiet_prog)
  have e1: "pr_env w1 = pr_env w" using load_all_keeps_env l by (rule keeps_envD)
  show ?thesis
  proof (cases r1)
    case (Ret u)
    obtain w2 r2 where s: "start_all order w1 = (w2, r2)" by fastforce
    obtain cs2 where c2: "pr_calls w2 = pr_calls w1 @ cs2" "listens cs2 = []" "pr_answers w2 = pr_answers w1"
      using start_all_quiet s by (rule quiet_prog)
    have "r2 = Ret ()" using start_all_returns[of w1 order] s assms(2) c1(3) by simp
    moreover have "pr_env w2 = pr_env w" using keeps_envD[OF start_all_keeps_env s] e1 by simp
    moreover obtain cs3 where "pr_calls (fst (run_mode port w2)) = pr_calls w2 @ cs3"
      "listens cs3 = [listen_call (server_of (pr_env w2) port)]" "snd (run_mode port w2) = Ret ()"
      using run_mode_listens[of w2 port] assms(2) c1(3) c2(3) by auto
    ultimately show ?thesis
      using assms(1) l Ret s c1(1,2) c2(1,2)
      by (cases "run_mode port w2") (auto simp: command_server_parts sbind_def deferred_def trace_call_def listen_call_def)
  qed (use assms(1) l c1 in \<open>auto simp: command_server_parts sbind_def\<close>)
qed

theorem server_listens_once_witness:
  "\<exists>w' cs. command_server (\<lambda>_. []) 8080 (idle_process\<lparr>pr_answers := \<lambda>k. if k \<in> {1, 2} then Err (EExt ''no such file'') else Ret GNil\<rparr>) = (w', Ret ())
     \<and> pr_calls w' = cs \<and> listens cs = [listen_call (plain_server 8080)]"
proof -
  let ?w = "idle_process\<lparr>pr_answers := \<lambda>k. if k \<in> {1, 2} then Err (EExt ''no such file'') else Ret GNil\<rparr>"
  obtain w' where e: "command_server (\<lambda>_. []) 8080 ?w = (w', Ret ())"
    by (simp add: command_server_def load_or_warn_def fileExists_def BackgroundServiceManager_Run_def run_mode_def run_server_def go_listen_def
        wait_for_stop_def prog_defs trace_call_def req_emit_def IsDatadogEnabled_def IsOpenTelemetryEnabled_def eval_nat_numeral)
  have "server_of (pr_env ?w) 8080 = plain_server 8080"
    by (simp add: server_of_def IsDatadogEnabled_def IsOpenTelemetryEnabled_def)
  with server_listens_once[OF e] e show ?thesis by auto
qed

end
