(* ===== verification/CommandLine.thy ===== *)
theory CommandLine
  imports Client Startup
begin

text \<open>
  The command line (\<^verbatim>\<open>cmd/chaosmania/main.go\<close>): the two commands with their flags, what a command reads
  of its flags, and the exit of the program. \<^verbatim>\<open>urfave/cli\<close>, which parses the arguments, is a parameter.
\<close>

section \<open>Flags\<close>

datatype flag_kind = PathFlag | StringFlag | Int64Flag | IntFlag | StringSliceFlag

record flag =
  fg_Kind :: flag_kind
  fg_Name :: string
  fg_Aliases :: "string list"
  fg_FilePath :: string
  fg_Required :: bool
  fg_Value :: gval

definition required_flag :: "flag_kind \<Rightarrow> string \<Rightarrow> gval \<Rightarrow> flag" where
  "required_flag k n z = \<lparr>fg_Kind = k, fg_Name = n, fg_Aliases = [], fg_FilePath = [], fg_Required = True, fg_Value = z\<rparr>"

definition optional_flag :: "flag_kind \<Rightarrow> string \<Rightarrow> gval \<Rightarrow> flag" where
  "optional_flag k n v = \<lparr>fg_Kind = k, fg_Name = n, fg_Aliases = [], fg_FilePath = [], fg_Required = False, fg_Value = v\<rparr>"

text \<open>The flags of both commands; a flag without a declared value has the zero value of its type.\<close>

definition client_cli_flags :: "flag list" where
  "client_cli_flags =
     [(required_flag PathFlag ''plan'' (GStr []))\<lparr>fg_Aliases := [''p''], fg_FilePath := ''./plan.json''\<rparr>,
      required_flag StringFlag ''host'' (GStr []),
      required_flag Int64Flag ''port'' (GInt 0),
      optional_flag StringSliceFlag ''header'' (GList []),
      optional_flag StringFlag ''runtime-duration'' (GStr []),
      optional_flag StringFlag ''phase-pattern'' (GStr []),
      optional_flag IntFlag ''repeats-per-phase'' (GInt (- 1))]"

definition server_cli_flags :: "flag list" where
  "server_cli_flags = [required_flag Int64Flag ''port'' (GInt 0)]"

section \<open>The commands\<close>

text \<open>What the commands ask of the context of the command line: \<^verbatim>\<open>ctx.Path\<close>, \<^verbatim>\<open>ctx.String\<close>, \<^verbatim>\<open>ctx.Int64\<close> and so on.\<close>

definition client_flags_of :: "(string \<Rightarrow> gval) \<Rightarrow> client_flags" where
  "client_flags_of ctx =
     \<lparr>fl_plan = as_string (ctx ''plan''), fl_host = as_string (ctx ''host''), fl_port = as_int (ctx ''port''),
      fl_header = map as_string (as_list (ctx ''header'')), fl_runtime_duration = as_string (ctx ''runtime-duration''),
      fl_repeats_per_phase = as_int (ctx ''repeats-per-phase''), fl_phase_pattern = as_string (ctx ''phase-pattern'')\<rparr>"

definition server_port :: "(string \<Rightarrow> gval) \<Rightarrow> int" where
  "server_port ctx = as_int (ctx ''port'')"

record 'w command =
  cmd_Name :: string
  cmd_Action :: "(string \<Rightarrow> gval) \<Rightarrow> 'w \<Rightarrow> 'w \<times> unit outcome"
  cmd_Flags :: "flag list"

definition app_Commands :: "(client_flags \<Rightarrow> 'w \<Rightarrow> 'w \<times> unit outcome) \<Rightarrow> (int \<Rightarrow> 'w \<Rightarrow> 'w \<times> unit outcome) \<Rightarrow> 'w command list" where
  "app_Commands client server =
     [\<lparr>cmd_Name = ''client'', cmd_Action = (\<lambda>ctx. client (client_flags_of ctx)), cmd_Flags = client_cli_flags\<rparr>,
      \<lparr>cmd_Name = ''server'', cmd_Action = (\<lambda>ctx. server (server_port ctx)), cmd_Flags = server_cli_flags\<rparr>]"

text \<open>
  \<^verbatim>\<open>main\<close>, around \<^verbatim>\<open>app.Run\<close>: the status the program exits with, 1 after the fatal line of the logger
  and 2 after a panic, and that line.
\<close>

definition main_program ::
  "('w command list \<Rightarrow> string list \<Rightarrow> 'w \<Rightarrow> 'w \<times> unit outcome) \<Rightarrow> (client_flags \<Rightarrow> 'w \<Rightarrow> 'w \<times> unit outcome)
    \<Rightarrow> (int \<Rightarrow> 'w \<Rightarrow> 'w \<times> unit outcome) \<Rightarrow> string list \<Rightarrow> 'w \<Rightarrow> 'w \<times> int \<times> (level \<times> string) option" where
  "main_program app_Run client server args w =
     (case app_Run (app_Commands client server) args w of
        (w1, Ret _) \<Rightarrow> (w1, 0, None)
      | (w1, Err e) \<Rightarrow> (w1, 1, Some (Fatal, ''failed: ''))
      | (w1, Panic p) \<Rightarrow> (w1, 2, None))"

section \<open>Properties\<close>

text \<open>
  What a command finds for a flag that is not given is the value declared for it.
\<close>

definition finds_flags :: "flag list \<Rightarrow> (string \<Rightarrow> gval option) \<Rightarrow> (string \<Rightarrow> gval) \<Rightarrow> bool" where
  "finds_flags flags given ctx \<longleftrightarrow>
     (\<forall>fl\<in>set flags. ctx (fg_Name fl) = (case given (fg_Name fl) of None \<Rightarrow> fg_Value fl | Some v \<Rightarrow> v))"

text \<open>
  C29. The flags are optional in effect as well as in name: with the required flags alone, a plan that
  loads is run as it is written, with its own repeats and its own durations, without headers, and
  in sequence unless it names a pattern.
\<close>

theorem defaults_leave_the_plan_alone:
  assumes "finds_flags client_cli_flags given ctx" "dom given = {''plan'', ''host'', ''port''}"
    and "loadPlan f acts (as_string (ctx ''plan'')) = Ret (plan, raw)"
  shows "client_prepare f acts (client_flags_of ctx) =
    Ret \<lparr>cs_plan = (if PlanPattern plan = [] then plan\<lparr>PlanPattern := PatternSequence\<rparr> else plan), cs_raw = raw,
      cs_repeats = plan_repeats 0 (Phases plan) (NewPhaseRepeats 1), cs_headers = [], cs_runtime = 0, cs_repeats_flag = - 1\<rparr>"
proof -
  have none: "given n = None" if "n \<notin> {''plan'', ''host'', ''port''}" for n
    using that unfolding assms(2)[symmetric] domIff by simp
  have g: "given ''header'' = None" "given ''runtime-duration'' = None" "given ''phase-pattern'' = None" "given ''repeats-per-phase'' = None"
    by (rule none, simp)+
  have d: "ctx (fg_Name fl) = fg_Value fl" if "fl \<in> set client_cli_flags" "given (fg_Name fl) = None" for fl
    using assms(1) that unfolding finds_flags_def by force
  have "ctx ''header'' = GList []" "ctx ''runtime-duration'' = GStr []" "ctx ''phase-pattern'' = GStr []"
      "ctx ''repeats-per-phase'' = GInt (- 1)"
    using g d[of "optional_flag StringSliceFlag ''header'' (GList [])"] d[of "optional_flag StringFlag ''runtime-duration'' (GStr [])"]
      d[of "optional_flag StringFlag ''phase-pattern'' (GStr [])"] d[of "optional_flag IntFlag ''repeats-per-phase'' (GInt (- 1))"]
    unfolding client_cli_flags_def by (simp_all add: optional_flag_def)
  with assms(3) show ?thesis
    by (simp add: client_prepare_def client_flags_of_def check_repeats_flag_def MaxRepeatsPerPhase_def parse_runtime_def
        init_repeats_def override_pattern_def Let_def)
qed

definition demo_given :: "string \<Rightarrow> gval option" where
  "demo_given = [''plan'' \<mapsto> GStr ''plan.yaml'', ''host'' \<mapsto> GStr ''h'', ''port'' \<mapsto> GInt 80]"

definition demo_ctx :: "string \<Rightarrow> gval" where
  "demo_ctx n = (case demo_given n of Some v \<Rightarrow> v
     | None \<Rightarrow> (case map_of (map (\<lambda>fl. (fg_Name fl, fg_Value fl)) client_cli_flags) n of Some v \<Rightarrow> v | None \<Rightarrow> GNil))"

theorem defaults_leave_the_plan_alone_witness:
  "\<exists>cs. client_prepare demo_files demo_acts (client_flags_of demo_ctx) = Ret cs \<and> cs_runtime cs = 0
    \<and> PlanPattern (cs_plan cs) = ''sequence''"
proof -
  have f: "finds_flags client_cli_flags demo_given demo_ctx"
    unfolding finds_flags_def client_cli_flags_def demo_ctx_def required_flag_def optional_flag_def demo_given_def by simp
  have "as_string (demo_ctx ''plan'') = ''plan.yaml''" by (simp add: demo_ctx_def demo_given_def)
  then have l: "loadPlan demo_files demo_acts (as_string (demo_ctx ''plan'')) =
      Ret (one_phase_plan, [(''phases'', GList [GMapS [(''workload'', GMapS [])]])])"
    by (simp add: loadPlan_def demo_files_def demo_verified wrap_err_def default_repeats_def) (simp add: one_phase_plan_def)
  have "dom demo_given = {''plan'', ''host'', ''port''}" by (auto simp: demo_given_def)
  from defaults_leave_the_plan_alone[OF f this l] show ?thesis
    by (auto simp: PatternSequence_def one_phase_plan_def)
qed

end
