(* ===== verification/Spec2Isabelle.thy ===== *)
theory Spec2Isabelle
  imports Prelude Pattern PhaseLoop PhaseOrder GoValue GoDuration Plan Durations Reporter Http Worker WorkerRuns PhaseRun Client
    Float64 World BasicActions FileActions HttpActions MutexActions MutexThreads Services Sql StoreActions Mongo
    Spans Minio Amqp RabbitProducer KafkaProducer ServiceTypes Script Actions Delivery KafkaConsumer RabbitConsumer Background
    Telemetry Server Startup CommandLine
begin

text \<open>
  A verification development for chaosmania, a generator of load for chaos tests. The program has
  two commands. The \<^emph>\<open>client\<close> (\<^verbatim>\<open>cmd/chaosmania/client.go\<close>) loads a plan of phases, and for each
  execution of a phase runs groups of workers that send the workload of the phase, a list of
  actions with configs, to a server and count the answers. The \<^emph>\<open>server\<close>
  (\<^verbatim>\<open>cmd/chaosmania/server.go\<close>) verifies and executes the actions of each workload it receives.
  The packages under \<^verbatim>\<open>pkg\<close> hold what they share: plans and workloads, patterns and durations of
  phases, the reporter, the table of actions and the registries of services.

  \<^bold>\<open>Conventions.\<close> A Go struct is a record, an operation a function that takes and returns the
  state it changes, and a call ends as an \<open>outcome\<close>: \<open>Ret\<close> a value, \<open>Err\<close> an error, or \<open>Panic\<close>.
  \<open>Panic FatalUnlock\<close> is the fatal error of a mutex and \<open>Panic Blocked\<close> a call that never returns
  in the run under consideration; after either of them no deferred call runs. An \<^verbatim>\<open>int\<close>, \<^verbatim>\<open>int64\<close> or \<^verbatim>\<open>time.Duration\<close> is an \<open>int\<close> that
  wraps through \<open>i64\<close>; a \<^verbatim>\<open>uint\<close> or \<^verbatim>\<open>uint64\<close> is a \<open>64 word\<close>; a \<^verbatim>\<open>float64\<close> is the rational it
  denotes. A value of \<^verbatim>\<open>interface{}\<close> is a \<open>gval\<close>, a map an association list, a JSON document a
  \<open>json\<close>.

  \<^bold>\<open>The client.\<close>
  \<^item> \<open>Prelude\<close>: outcomes, 64-bit arithmetic, slices, decimal printing, log lines, and the unbounded
    loop \<open>loop\<close> (\<^verbatim>\<open>for {}\<close>) with its rules for partial and total correctness.
  \<^item> \<open>Pattern\<close>, \<open>PhaseLoop\<close>, \<open>PhaseOrder\<close> (\<^verbatim>\<open>pkg/actions/pattern.go\<close>, the loop of
    \<^verbatim>\<open>command_client\<close>): the table of repeats, the three patterns, and the order in which they execute
    phases. The locales \<open>repeat_table\<close> and \<open>pattern_contract\<close> say what the loop relies on; they are
    interpreted on the code's table and on the executors. The properties show that every phase is
    executed exactly as often as it should be, in which order, and that the loop terminates.
  \<^item> \<open>GoValue\<close>, \<open>Float64\<close>, \<open>GoDuration\<close> (\<^verbatim>\<open>pkg/utils.go\<close>, \<^verbatim>\<open>pkg/constants.go\<close>): \<open>Convert\<close>,
    \<open>ParseConfig\<close>, \<open>ConfigToMap\<close> and the JSON form of durations, with what they use of
    \<^verbatim>\<open>encoding/json\<close>, \<^verbatim>\<open>float64\<close> and \<^verbatim>\<open>time\<close>.
  \<^item> \<open>Plan\<close> (\<^verbatim>\<open>pkg/actions/plan.go\<close>): plans and workloads, their verification and the execution of
    a workload, over a table of actions; the locale \<open>action_contract\<close> says what is relied on there.
  \<^item> \<open>Durations\<close>, \<open>Reporter\<close> (\<^verbatim>\<open>pkg/actions/durations.go\<close>, \<^verbatim>\<open>reporter.go\<close>): how long phases last,
    and what is reported of them.
  \<^item> \<open>Http\<close>, \<open>Worker\<close>, \<open>WorkerRuns\<close>, \<open>PhaseRun\<close>, \<open>Client\<close> (\<^verbatim>\<open>client.go\<close>, \<^verbatim>\<open>pkg/tracing.go\<close>): requests;
    workers and tickers as communicating state machines, of which \<open>run\<close> is the step relation and
    \<open>sys_step\<close> the executable version; the execution of a phase under a schedule; and the whole
    command, whose properties are about any network and any schedule.

  \<^bold>\<open>The server.\<close>
  \<^item> \<open>World\<close>: the process an action runs in. Code of third parties and the operating system are
    calls of \<open>lib\<close>, recorded with their arguments and answered from an arbitrary sequence of answers;
    the clock is an arbitrary sequence of readings. Programs are composed with \<open>sbind\<close>, \<open>on_err\<close> and
    \<open>deferred\<close>. Groups of rules go through a program by its structure: \<open>clean_rules\<close> (it does not
    fail for a config), \<open>calls_rules\<close> (it makes only calls of a kind), \<open>makes_rules\<close> (theory
    \<open>ServiceTypes\<close>: it leaves the registries alone), \<open>span_rules\<close> (theory \<open>Spans\<close>: it ends the spans it
    starts), \<open>link_rules\<close> (theory \<open>Amqp\<close>: it neither loses nor duplicates a connection) and \<open>env_rules\<close>
    (theory \<open>Startup\<close>: it leaves the environment of the process alone).
  \<^item> \<open>BasicActions\<close>, \<open>FileActions\<close>, \<open>HttpActions\<close>, \<open>StoreActions\<close>, \<open>Sql\<close>, \<open>Mongo\<close>, \<open>Script\<close>: the actions of
    \<^verbatim>\<open>pkg/actions\<close> and the services on databases. Each has its config struct as a record, its JSON
    tags as a list of fields, and its \<^verbatim>\<open>Execute\<close>. A script is the tree of calls of its context that
    the JavaScript engine makes of its text; it can call the methods of the services it got.
  \<^item> \<open>MutexActions\<close>, \<open>MutexThreads\<close>: the named mutexes, for one request at a time and statement by
    statement for any number of concurrent requests. Both are interpretations of the locale
    \<open>lock_implementation\<close>, whose abstract specification \<open>lock_spec\<close> acquires and releases a lock in one
    step; mutual exclusion is proved once, in the locale.
  \<^item> \<open>Services\<close>, \<open>ServiceTypes\<close>, \<open>Background\<close> (\<^verbatim>\<open>services.go\<close>, \<^verbatim>\<open>background_services.go\<close>): the two
    registries, both interpretations of the locale \<open>service_registry\<close>, the tables \<open>SERVICE_TYPES\<close> and
    \<open>BACKGROUND_SERVICE_TYPES\<close>, the methods of services and the goroutines of background services.
  \<^item> \<open>Spans\<close>, \<open>Minio\<close>, \<open>KafkaProducer\<close>, \<open>KafkaConsumer\<close>, \<open>Amqp\<close>, \<open>RabbitProducer\<close>, \<open>RabbitConsumer\<close>,
    \<open>Delivery\<close> (\<^verbatim>\<open>minio_service.go\<close> and the services on Kafka and RabbitMQ): an operation with its spans
    under either tracer. A span is the number of the call that started it; one of nil panics. The
    two RabbitMQ services share the link to their broker, whose fields live in the process; the
    locale \<open>connection_cache\<close>, interpreted on both, says that a link opens a connection only when it
    holds none. Both services are modelled for one request at a time; requests that share a producer and
    race for its fields, which no lock guards, are not. The loops over messages are \<open>receive_loop\<close>; the locale \<open>acknowledging_handler\<close>,
    interpreted on the claims of Kafka, says that what was received is what is acknowledged.
  \<^item> \<open>Actions\<close>: the table \<^verbatim>\<open>ACTIONS\<close>. Parsing the config of a \<^verbatim>\<open>GlobalMutexUnlock\<close> verifies the workload
    in it against the same table; the recursion is by fuel, the nesting depth of the config plus one,
    and \<open>nested_verification_terminates\<close> shows that this is enough and that the table satisfies the
    recursive equation of the code. The table without \<^verbatim>\<open>Script\<close> is an interpretation of
    \<open>action_contract\<close> for every process whose libraries do not report errors of \<^verbatim>\<open>encoding/json\<close>
    (\<open>honest\<close>); a script reports whatever its own calls fail with.
  \<^item> \<open>Server\<close>, \<open>Telemetry\<close>, \<open>Startup\<close> (\<^verbatim>\<open>server.go\<close>, \<^verbatim>\<open>otlp.go\<close>): the handler, the servers of the three
    modes, the start of the command and the set-up of the exporter. \<open>http_serve\<close> is what \<^verbatim>\<open>net/http\<close> does
    around a handler: a fresh response, status 200 when none was set, and an aborted connection
    when the handler panics. \<open>Startup\<close> is about the command as a whole.
  \<^item> \<open>CommandLine\<close> (\<^verbatim>\<open>main.go\<close>): the flags of both commands and the exit of the program; the library
    that parses the arguments is a parameter.

  \<^bold>\<open>Bounds.\<close> The loop of the client is \<open>loop\<close>, with termination proved by a measure, the executions
  still owed; no fuel is involved. The loops over rows of a database and of \<^verbatim>\<open>Burn\<close> may run for
  ever in the code too, and so may the loops of the consumers; they are \<open>loop\<close>, and not returning
  is \<open>Panic Blocked\<close>.

  \<^bold>\<open>Not modelled.\<close> The fields a logger adds to its lines (\<^verbatim>\<open>pkg/logger\<close>), the console encoder that
  \<^verbatim>\<open>main\<close> configures, and the profiling server of the client; none of them has a result the program
  looks at. Metrics are calls whose answers nobody reads. Texts of errors of \<^verbatim>\<open>encoding/json\<close> and of the
  libraries are abstract constants. What a goroutine does while others run is modelled where
  they share state: workers and tickers, and the named mutexes.
\<close>

end
